theory Spec2Isabelle
  imports Main "HOL-Library.Word"
begin

unbundle bit_operations_syntax

section \<open>Process-level failures\<close>

text \<open>
  The helpers of \<^verbatim>\<open>safe_functions.c\<close> end the process when an allocation or an \<^verbatim>\<open>lstat\<close>
  fails: a diagnostic on stderr, \<^verbatim>\<open>thread_context_destroy(in_use_data)\<close>, \<^verbatim>\<open>exit(EXIT_FAILURE)\<close>.
  A function of the model that can reach such a call returns a sum. \<open>Inl Exit_failure\<close>: that
  path was taken, \<^verbatim>\<open>thread_context_destroy\<close> ran to its end and \<^verbatim>\<open>exit(EXIT_FAILURE)\<close> was called.
  \<open>Inl Undefined_behaviour\<close>: the C code reads or writes outside an object (a null or dangling
  pointer, an index past the allocated array), or calls a pthread function on an object in a
  state for which POSIX leaves the behaviour undefined (destroying a locked mutex, locking
  again a mutex the thread holds, destroying a condition variable on which a thread is
  blocked); from there the process may crash, hang or go on. \<open>Inr\<close> of the result otherwise.
\<close>

datatype fault = Exit_failure | Undefined_behaviour

definition EXIT_SUCCESS :: int where
  "EXIT_SUCCESS = 0"

definition EXIT_FAILURE :: int where
  "EXIT_FAILURE = 1"


section \<open>The queue of strings (\<^verbatim>\<open>queue.c\<close>)\<close>

text \<open>
  A pointer is an optional address (\<open>None\<close> is \<^verbatim>\<open>NULL\<close>); the heap maps the addresses of the
  live \<^verbatim>\<open>struct node\<close> objects to their contents. \<^verbatim>\<open>free\<close> removes the address from the
  heap, so a pointer to a freed node dangles. The strings held by the nodes are values:
  \<^verbatim>\<open>clone_string\<close> copies the characters up to the terminating NUL.
\<close>

type_synonym addr = nat
type_synonym ptr = "addr option"

record node =
  next_node :: ptr
  value_str :: string

type_synonym heap = "addr \<Rightarrow> node option"

record queue =
  first :: ptr
  last_node :: ptr

text \<open>
  \<^verbatim>\<open>safe_calloc\<close> inside \<^verbatim>\<open>clone_string\<close>: the flag says whether \<^verbatim>\<open>calloc\<close> returned memory. The call
  passes \<^verbatim>\<open>NULL\<close> as \<^verbatim>\<open>in_use_data\<close>, so on failure \<^verbatim>\<open>thread_context_destroy(NULL)\<close> reads
  \<^verbatim>\<open>dir_num\<close> through the null pointer.
\<close>

definition clone_string :: "bool \<Rightarrow> string \<Rightarrow> fault + string" where
  "clone_string calloc_ok inp =
     (if calloc_ok then Inr (take (length inp) inp) else Inl Undefined_behaviour)"

text \<open>
  \<^verbatim>\<open>make_node\<close>: \<open>m\<close> is what \<^verbatim>\<open>malloc\<close> returned for the node. The \<^verbatim>\<open>next\<close> field of the new
  node is set by the caller before the node is linked; the model stores \<^verbatim>\<open>NULL\<close> at once.
  \<^verbatim>\<open>make_node\<close> runs inside \<^verbatim>\<open>queue_enqueue\<close>, which holds the mutex of the queue, and the
  \<^verbatim>\<open>in_use_data\<close> it is given in this program is the thread context that owns the queue:
  when \<^verbatim>\<open>malloc\<close> fails, \<^verbatim>\<open>thread_context_destroy\<close> reaches \<^verbatim>\<open>queue_destroy\<close> of that queue, which
  locks the mutex again through \<^verbatim>\<open>queue_dequeue\<close> (a non-empty queue) or destroys it locked
  (an empty one).
\<close>

definition make_node :: "heap \<Rightarrow> ptr \<Rightarrow> bool \<Rightarrow> string \<Rightarrow> fault + heap \<times> addr" where
  "make_node h m calloc_ok v =
     (case m of
        None \<Rightarrow> Inl Undefined_behaviour
      | Some a \<Rightarrow>
          (case clone_string calloc_ok v of
             Inl e \<Rightarrow> Inl e
           | Inr s \<Rightarrow> Inr (h(a \<mapsto> \<lparr>next_node = None, value_str = s\<rparr>), a)))"

text \<open>
  \<^verbatim>\<open>queue_create\<close> is called by \<^verbatim>\<open>create_coordinator\<close> only, with a thread context whose
  \<^verbatim>\<open>dir_num\<close> already counts the coordinator under construction: when \<^verbatim>\<open>malloc\<close> fails,
  \<^verbatim>\<open>thread_context_destroy\<close> calls \<^verbatim>\<open>destroy_coordinator\<close> on a slot that was never assigned.
\<close>

definition queue_create :: "bool \<Rightarrow> fault + queue" where
  "queue_create malloc_ok =
     (if malloc_ok then Inr \<lparr>first = None, last_node = None\<rparr> else Inl Undefined_behaviour)"

definition queue_enqueue :: "heap \<Rightarrow> queue \<Rightarrow> ptr \<Rightarrow> bool \<Rightarrow> string \<Rightarrow> fault + heap \<times> queue" where
  "queue_enqueue h q m calloc_ok v =
     (case make_node h m calloc_ok v of
        Inl e \<Rightarrow> Inl e
      | Inr (h1, a) \<Rightarrow>
          (if first q \<noteq> None then
             (case last_node q of
                None \<Rightarrow> Inl Undefined_behaviour
              | Some l \<Rightarrow>
                  (case h1 l of
                     None \<Rightarrow> Inl Undefined_behaviour
                   | Some nd \<Rightarrow>
                       Inr (h1(l \<mapsto> nd\<lparr>next_node := Some a\<rparr>), q\<lparr>last_node := Some a\<rparr>)))
           else Inr (h1, q\<lparr>first := Some a, last_node := Some a\<rparr>)))"

definition queue_dequeue :: "heap \<Rightarrow> queue \<Rightarrow> bool \<Rightarrow> fault + string \<times> heap \<times> queue" where
  "queue_dequeue h q calloc_ok =
     (case first q of
        None \<Rightarrow> Inl Undefined_behaviour
      | Some f \<Rightarrow>
          (case h f of
             None \<Rightarrow> Inl Undefined_behaviour
           | Some nd \<Rightarrow>
               (case clone_string calloc_ok (value_str nd) of
                  Inl e \<Rightarrow> Inl e
                | Inr copy_value \<Rightarrow> Inr (copy_value, h(f := None), q\<lparr>first := next_node nd\<rparr>))))"

definition queue_is_empty :: "queue \<Rightarrow> bool" where
  "queue_is_empty q = (first q = None)"

text \<open>A run of enqueues, each with the address \<^verbatim>\<open>malloc\<close> gave it, and a run of dequeues.\<close>

fun enqueue_all :: "heap \<Rightarrow> queue \<Rightarrow> (addr \<times> string) list \<Rightarrow> fault + heap \<times> queue" where
  "enqueue_all h q [] = Inr (h, q)"
| "enqueue_all h q ((a, v) # avs) =
     (case queue_enqueue h q (Some a) True v of
        Inl e \<Rightarrow> Inl e
      | Inr (h1, q1) \<Rightarrow> enqueue_all h1 q1 avs)"

fun dequeue_n :: "nat \<Rightarrow> heap \<Rightarrow> queue \<Rightarrow> fault + string list \<times> heap \<times> queue" where
  "dequeue_n 0 h q = Inr ([], h, q)"
| "dequeue_n (Suc n) h q =
     (case queue_dequeue h q True of
        Inl e \<Rightarrow> Inl e
      | Inr (v, h1, q1) \<Rightarrow>
          (case dequeue_n n h1 q1 of
             Inl e \<Rightarrow> Inl e
           | Inr (vs, h2, q2) \<Rightarrow> Inr (v # vs, h2, q2)))"

text \<open>
  The abstraction: \<open>cells\<close> lists the nodes of the queue front first, each with its address
  and its string. \<^verbatim>\<open>last\<close> is only meaningful while the queue is non-empty: \<^verbatim>\<open>queue_dequeue\<close>
  leaves it dangling when it removes the only node.
\<close>

fun linked :: "heap \<Rightarrow> ptr \<Rightarrow> (addr \<times> string) list \<Rightarrow> bool" where
  "linked h p [] = (p = None)"
| "linked h p ((a, v) # cs) =
     (p = Some a \<and> (case h a of None \<Rightarrow> False
                    | Some nd \<Rightarrow> value_str nd = v \<and> linked h (next_node nd) cs))"

definition queue_rep :: "heap \<Rightarrow> queue \<Rightarrow> (addr \<times> string) list \<Rightarrow> bool" where
  "queue_rep h q cs =
     (linked h (first q) cs \<and> distinct (map fst cs) \<and>
      (cs \<noteq> [] \<longrightarrow> last_node q = Some (fst (last cs))))"




section \<open>Allocation (\<^verbatim>\<open>safe_functions.c\<close>)\<close>

text \<open>
  Outside the linked list above, the model does not lay objects out in memory; what it keeps
  of an allocation is whether it succeeds. \<open>mem\<close> is the number of allocations that succeed
  before the first one that fails. The argument \<^verbatim>\<open>in_use_data\<close> of the helpers is modelled by
  what it is used for: the way \<^verbatim>\<open>thread_context_destroy(in_use_data)\<close> followed by
  \<^verbatim>\<open>exit(EXIT_FAILURE)\<close> ends the process, which the caller works out from the thread context
  it passes (\<open>thread_context_destroy\<close> below).
\<close>

definition safe_malloc :: "nat \<Rightarrow> fault \<Rightarrow> fault + nat" where
  "safe_malloc mem in_use_data = (case mem of 0 \<Rightarrow> Inl in_use_data | Suc m \<Rightarrow> Inr m)"

definition safe_calloc :: "nat \<Rightarrow> fault \<Rightarrow> fault + nat" where
  "safe_calloc mem in_use_data = (case mem of 0 \<Rightarrow> Inl in_use_data | Suc m \<Rightarrow> Inr m)"

definition safe_realloc :: "nat \<Rightarrow> fault \<Rightarrow> fault + nat" where
  "safe_realloc mem in_use_data = (case mem of 0 \<Rightarrow> Inl in_use_data | Suc m \<Rightarrow> Inr m)"


section \<open>The file system seen through \<^verbatim>\<open>lstat\<close>, \<^verbatim>\<open>opendir\<close> and \<^verbatim>\<open>readdir\<close>\<close>

text \<open>
  \<^verbatim>\<open>struct stat\<close> with the two fields the program reads. \<^verbatim>\<open>blkcnt_t\<close> is a signed 64-bit
  integer and \<^verbatim>\<open>mode_t\<close> an unsigned 32-bit one on the LP64 systems the program is built for;
  \<^verbatim>\<open>S_IFMT\<close> and \<^verbatim>\<open>S_IFDIR\<close> are octal 0170000 and 0040000.
\<close>

record stat =
  st_mode :: "32 word"
  st_blocks :: "64 word"

definition S_IFMT :: "32 word" where
  "S_IFMT = 0xF000"

definition S_IFDIR :: "32 word" where
  "S_IFDIR = 0x4000"

datatype errno_code = ENOENT | ENOMEM | EACCES | ENOTDIR | ENFILE | EMFILE

fun errno_value :: "errno_code \<Rightarrow> int" where
  "errno_value ENOENT = 2"
| "errno_value ENOMEM = 12"
| "errno_value EACCES = 13"
| "errno_value ENOTDIR = 20"
| "errno_value ENFILE = 23"
| "errno_value EMFILE = 24"

text \<open>
  \<open>lstat fs path\<close> is \<open>None\<close> when the call returns -1. \<open>opendir fs path\<close> is \<open>Inl e\<close> when
  \<^verbatim>\<open>opendir\<close> returns \<^verbatim>\<open>NULL\<close> with \<^verbatim>\<open>errno\<close> set to \<open>e\<close>, and otherwise \<open>Inr names\<close>, the
  \<^verbatim>\<open>d_name\<close> of every entry that successive calls of \<^verbatim>\<open>readdir\<close> return, in that order,
  \<^verbatim>\<open>.\<close> and \<^verbatim>\<open>..\<close> included.
\<close>

record filesystem =
  lstat :: "string \<Rightarrow> stat option"
  opendir :: "string \<Rightarrow> errno_code + string list"

definition safe_lstat :: "filesystem \<Rightarrow> string \<Rightarrow> fault \<Rightarrow> fault + stat" where
  "safe_lstat fs path_name in_use_data =
     (case lstat fs path_name of None \<Rightarrow> Inl in_use_data | Some buff \<Rightarrow> Inr buff)"

datatype diagnostic = Cannot_read_directory string errno_code

text \<open>
  \<^verbatim>\<open>safe_opendir\<close> returns the stream (\<open>None\<close> is \<^verbatim>\<open>NULL\<close>), what it wrote on stderr, and
  the \<^verbatim>\<open>errno\<close> of the calling thread afterwards.
\<close>

definition safe_opendir ::
  "filesystem \<Rightarrow> string \<Rightarrow> int \<Rightarrow> string list option \<times> diagnostic list \<times> int" where
  "safe_opendir fs dir_name errno =
     (case opendir fs dir_name of
        Inl e \<Rightarrow> (None, [Cannot_read_directory dir_name e], errno_value e)
      | Inr names \<Rightarrow> (Some names, [], errno))"


section \<open>Counters, coordinators and the thread context (\<^verbatim>\<open>thread_context.c\<close>)\<close>

text \<open>
  A \<^verbatim>\<open>Counter\<close> is its \<^verbatim>\<open>int\<close>; the mutexes are the atomicity of the steps further down.
  \<^verbatim>\<open>tot_sum\<close> is a C \<^verbatim>\<open>int\<close>, a 32-bit word whose addition wraps. The queue of a coordinator is
  the list of the strings it holds, front first: \<^verbatim>\<open>queue_enqueue\<close> appends, \<^verbatim>\<open>queue_dequeue\<close>
  takes the head, \<^verbatim>\<open>queue_is_empty\<close> tests for the empty list, which is what the linked list
  of the previous section implements.
\<close>

record Coordinator =
  active_threads :: int
  tot_sum :: "32 word"
  dir_queue :: "string list"

text \<open>
  The array \<^verbatim>\<open>coordinator\<close> is the list of its allocated slots (\<open>None\<close> for a slot that
  holds no coordinator yet), so its length is the allocated capacity. The field \<^verbatim>\<open>size\<close> is
  \<open>size_tc\<close> here.
\<close>

record ThreadContext =
  coordinator :: "Coordinator option list"
  dir_num :: int
  size_tc :: int

text \<open>
  \<^verbatim>\<open>thread_context_destroy\<close> called while no other thread runs, and the \<^verbatim>\<open>exit(EXIT_FAILURE)\<close>
  after it. Through a null pointer it reads \<^verbatim>\<open>dir_num\<close>. Otherwise it calls
  \<^verbatim>\<open>destroy_coordinator\<close> on the first \<^verbatim>\<open>dir_num\<close> slots: a slot that holds no coordinator, or
  lies past the allocated array, is dereferenced; \<^verbatim>\<open>queue_destroy\<close> empties the queue of a
  coordinator with \<^verbatim>\<open>queue_dequeue\<close>, which allocates a copy of every string it removes
  (\<^verbatim>\<open>clone_string\<close>, with \<^verbatim>\<open>NULL\<close> as \<^verbatim>\<open>in_use_data\<close>). \<open>mem\<close> is the number of allocations that
  still succeed.
\<close>

fun destroy_coordinators :: "Coordinator option list \<Rightarrow> nat \<Rightarrow> fault" where
  "destroy_coordinators [] mem = Exit_failure"
| "destroy_coordinators (None # slots) mem = Undefined_behaviour"
| "destroy_coordinators (Some c # slots) mem =
     (if length (dir_queue c) \<le> mem then destroy_coordinators slots (mem - length (dir_queue c))
      else Undefined_behaviour)"

definition thread_context_destroy :: "ThreadContext option \<Rightarrow> nat \<Rightarrow> fault" where
  "thread_context_destroy thread_context mem =
     (case thread_context of
        None \<Rightarrow> Undefined_behaviour
      | Some tc \<Rightarrow>
          (if nat (dir_num tc) \<le> length (coordinator tc) then
             destroy_coordinators (take (nat (dir_num tc)) (coordinator tc)) mem
           else Undefined_behaviour))"

text \<open>
  \<^verbatim>\<open>create_counter\<close> and \<^verbatim>\<open>create_thread_context\<close> pass \<^verbatim>\<open>NULL\<close> to the helpers;
  \<^verbatim>\<open>create_coordinator\<close> passes the thread context, also to \<^verbatim>\<open>queue_create\<close>, whose one
  allocation is the third here. An allocation that fails leaves none that succeeds.
\<close>

definition create_counter :: "nat \<Rightarrow> fault + int \<times> nat" where
  "create_counter mem =
     (case safe_malloc mem (thread_context_destroy None 0) of
        Inl e \<Rightarrow> Inl e
      | Inr m \<Rightarrow> Inr (0, m))"

definition create_coordinator :: "ThreadContext \<Rightarrow> nat \<Rightarrow> fault + Coordinator \<times> nat" where
  "create_coordinator thread_context mem =
     (case safe_malloc mem (thread_context_destroy (Some thread_context) 0) of
        Inl e \<Rightarrow> Inl e
      | Inr m1 \<Rightarrow>
          (case create_counter m1 of
             Inl e \<Rightarrow> Inl e
           | Inr (counter, m2) \<Rightarrow>
               (case safe_malloc m2 (thread_context_destroy (Some thread_context) 0) of
                  Inl e \<Rightarrow> Inl e
                | Inr m3 \<Rightarrow>
                    Inr (\<lparr>active_threads = counter, tot_sum = 0, dir_queue = []\<rparr>, m3))))"

definition create_thread_context :: "nat \<Rightarrow> fault + ThreadContext \<times> nat" where
  "create_thread_context mem =
     (case safe_malloc mem (thread_context_destroy None 0) of
        Inl e \<Rightarrow> Inl e
      | Inr m1 \<Rightarrow>
          (case safe_calloc m1 (thread_context_destroy None 0) of
             Inl e \<Rightarrow> Inl e
           | Inr m2 \<Rightarrow> Inr (\<lparr>coordinator = [None, None], dir_num = 0, size_tc = 2\<rparr>, m2)))"

text \<open>\<^verbatim>\<open>realloc\<close> to \<open>n\<close> slots keeps the slots that fit; the new ones hold nothing.\<close>

definition resize_slots :: "nat \<Rightarrow> 'a option list \<Rightarrow> 'a option list" where
  "resize_slots n slots = take n slots @ replicate (n - length slots) None"

definition expand_and_create_coordinator :: "ThreadContext \<Rightarrow> nat \<Rightarrow> fault + ThreadContext \<times> nat" where
  "expand_and_create_coordinator thread_context mem =
     (let sz = size_tc thread_context;
          dn = dir_num thread_context;
          grown =
            (if sz \<le> dn then
               (case safe_realloc mem (thread_context_destroy (Some thread_context) 0) of
                  Inl e \<Rightarrow> Inl e
                | Inr m \<Rightarrow>
                    Inr (resize_slots (nat (sz + 2)) (coordinator thread_context),
                         size_tc thread_context * 2, m))
             else Inr (coordinator thread_context, sz, mem))
      in case grown of
           Inl e \<Rightarrow> Inl e
         | Inr (slots, sz', m) \<Rightarrow>
             (case create_coordinator thread_context m of
                Inl e \<Rightarrow> Inl e
              | Inr (c, m') \<Rightarrow>
                  (if 0 \<le> dn - 1 \<and> nat (dn - 1) < length slots then
                     Inr (thread_context\<lparr>coordinator := slots[nat (dn - 1) := Some c], size_tc := sz'\<rparr>, m')
                   else Inl Undefined_behaviour)))"

definition increment_counter :: "int \<Rightarrow> int" where
  "increment_counter counter = counter + 1"

definition decrement_counter :: "int \<Rightarrow> int" where
  "decrement_counter counter = (if counter > 0 then counter - 1 else counter)"

definition get_counter_value :: "int \<Rightarrow> int" where
  "get_counter_value counter = counter"

definition update_total_sum :: "32 word \<Rightarrow> Coordinator \<Rightarrow> Coordinator" where
  "update_total_sum v c = c\<lparr>tot_sum := tot_sum c + v\<rparr>"


section \<open>Arguments and seeding (\<^verbatim>\<open>mdu.c\<close>)\<close>

definition get_path_length :: "string \<Rightarrow> string \<Rightarrow> int" where
  "get_path_length file_path directory_path =
     int (length file_path) + int (length directory_path) + 2"

definition is_dot_or_dot_dot :: "string \<Rightarrow> bool" where
  "is_dot_or_dot_dot path = (path = ''.'' \<or> path = ''..'')"

definition is_dictionary :: "stat \<Rightarrow> bool" where
  "is_dictionary file_info = (st_mode file_info AND S_IFMT = S_IFDIR)"

text \<open>\<open>optind\<close> is the global of \<^verbatim>\<open>getopt\<close>, as \<^verbatim>\<open>get_thread_amount\<close> left it.\<close>

definition is_flag_arg :: "int \<Rightarrow> int \<Rightarrow> bool" where
  "is_flag_arg optind i = (i = optind - 2 \<or> i = optind - 1)"

text \<open>
  \<^verbatim>\<open>snprintf\<close> writes at most \<open>path_length - 1\<close> characters of the directory, a slash and the
  file name.
\<close>

definition full_path_of :: "string \<Rightarrow> string \<Rightarrow> string" where
  "full_path_of dir_name file_name =
     take (nat (get_path_length file_name dir_name - 1)) (dir_name @ ''/'' @ file_name)"

definition create_full_path ::
  "string \<Rightarrow> string \<Rightarrow> nat \<Rightarrow> fault \<Rightarrow> fault + string \<times> nat" where
  "create_full_path dir_name file_name mem thread_context =
     (case safe_calloc mem thread_context of
        Inl e \<Rightarrow> Inl e
      | Inr m \<Rightarrow> Inr (full_path_of dir_name file_name, m))"

text \<open>
  \<^verbatim>\<open>atoi\<close> as the C library of the program computes it, \<^verbatim>\<open>(int) strtol(nptr, NULL, 10)\<close>: white
  space, an optional sign, then decimal digits; \<^verbatim>\<open>strtol\<close> keeps the value within \<^verbatim>\<open>long\<close>
  (64 bits), and the conversion to \<^verbatim>\<open>int\<close> keeps the low 32 bits.
\<close>

definition isspace :: "char \<Rightarrow> bool" where
  "isspace c = (c \<in> {CHR '' '', CHR 0x09, CHR 0x0A, CHR 0x0B, CHR 0x0C, CHR 0x0D})"

definition isdigit :: "char \<Rightarrow> bool" where
  "isdigit c = (48 \<le> (of_char c :: nat) \<and> (of_char c :: nat) \<le> 57)"

fun digits_value :: "int \<Rightarrow> string \<Rightarrow> int" where
  "digits_value acc [] = acc"
| "digits_value acc (c # cs) =
     (if isdigit c then digits_value (acc * 10 + (of_char c - 48)) cs else acc)"

definition strtol :: "string \<Rightarrow> int" where
  "strtol nptr =
     (case dropWhile isspace nptr of
        [] \<Rightarrow> 0
      | c # cs \<Rightarrow>
          (if c = CHR ''-'' then max (- 9223372036854775808) (- digits_value 0 cs)
           else if c = CHR ''+'' then min 9223372036854775807 (digits_value 0 cs)
           else min 9223372036854775807 (digits_value 0 (c # cs))))"

definition atoi :: "string \<Rightarrow> int" where
  "atoi nptr = sint (word_of_int (strtol nptr) :: 32 word)"

text \<open>\<^verbatim>\<open>*optarg\<close>: the first \<^verbatim>\<open>char\<close> of the string (signed, as on x86-64), NUL when it is empty.\<close>

definition first_char :: "string \<Rightarrow> int" where
  "first_char s = (case s of [] \<Rightarrow> 0 | c # _ \<Rightarrow> sint (word_of_nat (of_char c) :: 8 word))"

text \<open>
  \<^verbatim>\<open>getopt\<close> belongs to the C library. \<^verbatim>\<open>get_thread_amount\<close> takes what its successive calls
  return before -1: the option character and \<^verbatim>\<open>optarg\<close>. For the command line
  \<^verbatim>\<open>mdu -j 0 dir\<close> that is the single pair of \<^verbatim>\<open>j\<close> and \<^verbatim>\<open>"0"\<close>; without an option it is empty.
  The subtraction is that of the integers: for the one argument value \<^verbatim>\<open>-2147483648\<close> the C
  subtraction overflows.
\<close>

fun get_thread_amount :: "(char \<times> string) list \<Rightarrow> int" where
  "get_thread_amount [] = 0"
| "get_thread_amount ((opt, optarg) # rest) =
     (if opt = CHR ''j'' then
        (if first_char optarg < 1 then 0 else atoi optarg - 1)
      else get_thread_amount rest)"

text \<open>The threads \<^verbatim>\<open>main\<close> creates: the loop runs for \<open>0 \<le> i < thread_num\<close>.\<close>

definition spawned_threads :: "int \<Rightarrow> nat" where
  "spawned_threads thread_num = length [i \<leftarrow> [0..<nat thread_num]. int i < thread_num]"

text \<open>
  \<^verbatim>\<open>queue_enqueue\<close> on the queue of a coordinator: two allocations (the node and the copy
  of the string), then the append. Both happen with the mutex of the queue held: the first
  is given the thread context that owns the queue, which \<^verbatim>\<open>thread_context_destroy\<close> cannot
  destroy with that mutex held (see \<open>make_node\<close>), the second is given \<^verbatim>\<open>NULL\<close>.
\<close>

definition enqueue_path :: "string \<Rightarrow> Coordinator \<Rightarrow> nat \<Rightarrow> fault + Coordinator \<times> nat" where
  "enqueue_path path c mem =
     (case safe_malloc mem Undefined_behaviour of
        Inl e \<Rightarrow> Inl e
      | Inr m1 \<Rightarrow>
          (case safe_calloc m1 (thread_context_destroy None 0) of
             Inl e \<Rightarrow> Inl e
           | Inr m2 \<Rightarrow> Inr (c\<lparr>dir_queue := dir_queue c @ [path]\<rparr>, m2)))"

text \<open>
  \<^verbatim>\<open>process_argument\<close> runs before the threads are created. When \<^verbatim>\<open>lstat\<close> fails on the
  argument, the thread context that \<^verbatim>\<open>safe_lstat\<close> destroys is whole.
\<close>

definition process_argument ::
  "filesystem \<Rightarrow> int \<Rightarrow> int \<Rightarrow> string \<Rightarrow> ThreadContext \<times> nat \<Rightarrow> fault + ThreadContext \<times> nat" where
  "process_argument fs optind index arg cm =
     (let (thread_context, mem) = cm in
      if \<not> is_flag_arg optind index then
        (case safe_lstat fs arg (thread_context_destroy (Some thread_context) mem) of
           Inl e \<Rightarrow> Inl e
         | Inr file_info \<Rightarrow>
             (if is_dictionary file_info then
                (let tc1 = thread_context\<lparr>dir_num := dir_num thread_context + 1\<rparr>;
                     dn = dir_num tc1
                 in case expand_and_create_coordinator tc1 mem of
                      Inl e \<Rightarrow> Inl e
                    | Inr (tc2, m2) \<Rightarrow>
                        (case coordinator tc2 ! nat (dn - 1) of
                           None \<Rightarrow> Inl Undefined_behaviour
                         | Some c \<Rightarrow>
                             (case enqueue_path arg c m2 of
                                Inl e \<Rightarrow> Inl e
                              | Inr (c1, m3) \<Rightarrow>
                                  Inr (tc2\<lparr>coordinator := (coordinator tc2)
                                              [nat (dn - 1) :=
                                                 Some (update_total_sum (scast (st_blocks file_info)) c1)]\<rparr>,
                                       m3))))
              else Inr cm))
      else Inr cm)"

fun traverse_from ::
  "filesystem \<Rightarrow> int \<Rightarrow> int \<Rightarrow> string list \<Rightarrow> ThreadContext \<times> nat \<Rightarrow> fault + ThreadContext \<times> nat" where
  "traverse_from fs optind i [] cm = Inr cm"
| "traverse_from fs optind i (arg # args) cm =
     (case process_argument fs optind i arg cm of
        Inl e \<Rightarrow> Inl e
      | Inr cm' \<Rightarrow> traverse_from fs optind (i + 1) args cm')"

text \<open>\<open>argv\<close> is the whole vector, the program name first; the loop starts at index 1.\<close>

definition traverse_input_arguments ::
  "filesystem \<Rightarrow> int \<Rightarrow> string list \<Rightarrow> ThreadContext \<times> nat \<Rightarrow> fault + ThreadContext \<times> nat" where
  "traverse_input_arguments fs optind argv cm = traverse_from fs optind 1 (tl argv) cm"

text \<open>
  The path arguments are the elements of \<open>argv\<close> after the program name that
  \<^verbatim>\<open>is_flag_arg\<close> does not exclude; the directory arguments are those of them that \<^verbatim>\<open>lstat\<close>
  reports as directories. \<open>seed_coordinator\<close> is the coordinator that \<^verbatim>\<open>process_argument\<close>
  leaves for a directory argument.
\<close>

fun path_args_from :: "int \<Rightarrow> int \<Rightarrow> string list \<Rightarrow> string list" where
  "path_args_from optind i [] = []"
| "path_args_from optind i (arg # args) =
     (if is_flag_arg optind i then [] else [arg]) @ path_args_from optind (i + 1) args"

definition path_arguments :: "int \<Rightarrow> string list \<Rightarrow> string list" where
  "path_arguments optind argv = path_args_from optind 1 (tl argv)"

definition names_directory :: "filesystem \<Rightarrow> string \<Rightarrow> bool" where
  "names_directory fs path =
     (case lstat fs path of None \<Rightarrow> False | Some file_info \<Rightarrow> is_dictionary file_info)"

definition directory_arguments :: "filesystem \<Rightarrow> int \<Rightarrow> string list \<Rightarrow> string list" where
  "directory_arguments fs optind argv = filter (names_directory fs) (path_arguments optind argv)"

definition own_blocks :: "filesystem \<Rightarrow> string \<Rightarrow> int" where
  "own_blocks fs path = (case lstat fs path of None \<Rightarrow> 0 | Some file_info \<Rightarrow> sint (st_blocks file_info))"

definition seed_coordinator :: "filesystem \<Rightarrow> string \<Rightarrow> Coordinator" where
  "seed_coordinator fs arg =
     \<lparr>active_threads = 0, tot_sum = word_of_int (own_blocks fs arg), dir_queue = [arg]\<rparr>"

text \<open>
  After seeding, the first \<^verbatim>\<open>dir_num\<close> slots of the array hold the coordinators \<open>cs\<close>.
\<close>

definition seeded :: "ThreadContext \<Rightarrow> Coordinator list \<Rightarrow> bool" where
  "seeded tc cs = (dir_num tc = int (length cs) \<and> take (length cs) (coordinator tc) = map Some cs)"

definition live_coordinators :: "ThreadContext \<Rightarrow> Coordinator list option" where
  "live_coordinators tc = those (take (nat (dir_num tc)) (coordinator tc))"


section \<open>The workers (\<^verbatim>\<open>thread_handler\<close> and what it calls)\<close>

text \<open>
  Every worker runs \<^verbatim>\<open>thread_handler\<close>. Its place in the code is a \<open>location\<close>; a step of the
  system is one worker moving from one location to the next, and the steps of different
  workers interleave in any order. A step holds at most one access to shared data that
  another thread could see half done: one operation on a queue, a counter or \<^verbatim>\<open>tot_sum\<close>
  (each under its own mutex in the C code), or a critical section of \<^verbatim>\<open>mutex_work\<close> that
  touches nothing but a counter.

  \<^item> \<open>Seek\<close>: about to call \<^verbatim>\<open>get_coordinator_with_work\<close>, at its \<^verbatim>\<open>pthread_mutex_lock\<close>.
  \<^item> \<open>Active i\<close>: holds \<^verbatim>\<open>mutex_work\<close>, in the loop of \<^verbatim>\<open>are_threads_active\<close> at index \<open>i\<close>, before
    \<^verbatim>\<open>get_counter_value\<close>.
  \<^item> \<open>Active_queue i\<close>: same loop, the counter of \<open>i\<close> was not positive, before \<^verbatim>\<open>queue_is_empty\<close>.
  \<^item> \<open>Work i\<close>: holds the mutex, in the loop of \<^verbatim>\<open>get_non_empty_coordinator\<close> at index \<open>i\<close>,
    before \<^verbatim>\<open>queue_is_empty\<close>.
  \<^item> \<open>Take i\<close>: the queue of \<open>i\<close> was seen non-empty, before \<^verbatim>\<open>queue_dequeue\<close>.
  \<^item> \<open>Increment i path\<close>: \<open>path\<close> was dequeued, before \<^verbatim>\<open>increment_counter\<close>.
  \<^item> \<open>Waiting\<close>: inside \<^verbatim>\<open>pthread_cond_wait\<close>, the mutex released.
  \<^item> \<open>Open_dir i path\<close>: the mutex released, about to call \<^verbatim>\<open>traverse_directory\<close>.
  \<^item> \<open>Read_dir i path names sm\<close>: in the loop of \<^verbatim>\<open>process_directory_entries\<close>; \<open>names\<close> is
    what \<^verbatim>\<open>readdir\<close> has still to return, \<open>sm\<close> the local \<^verbatim>\<open>int sum\<close>.
  \<^item> \<open>Finish i\<close>: \<^verbatim>\<open>traverse_directory\<close> has returned, before the lock that guards
    \<^verbatim>\<open>decrement_counter\<close> and the broadcast.
  \<^item> \<open>Exiting\<close>: \<^verbatim>\<open>get_coordinator_with_work\<close> returned \<^verbatim>\<open>NULL\<close>, before \<^verbatim>\<open>safe_malloc\<close>.
  \<^item> \<open>Exited v\<close>: the thread has returned the exit status \<open>v\<close>.
\<close>

datatype location =
    Seek
  | Active nat
  | Active_queue nat
  | Work nat
  | Take nat
  | Increment nat string
  | Waiting
  | Open_dir nat string
  | Read_dir nat string "string list" "32 word"
  | Finish nat
  | Exiting
  | Exited int

record worker =
  loc :: location
  errno :: int

datatype process = Running | Ended fault

record state =
  coords :: "Coordinator list"
  workers :: "worker list"
  mutex_work :: "nat option"
  stderr :: "diagnostic list"
  proc :: process

definition at :: "state \<Rightarrow> nat \<Rightarrow> location \<Rightarrow> bool" where
  "at s w l = (proc s = Running \<and> w < length (workers s) \<and> loc (workers s ! w) = l)"

definition move :: "nat \<Rightarrow> location \<Rightarrow> state \<Rightarrow> state" where
  "move w l s = s\<lparr>workers := (workers s)[w := (workers s ! w)\<lparr>loc := l\<rparr>]\<rparr>"

definition put :: "nat \<Rightarrow> Coordinator \<Rightarrow> state \<Rightarrow> state" where
  "put i c s = s\<lparr>coords := (coords s)[i := c]\<rparr>"

text \<open>
  \<^verbatim>\<open>process_directory_entry\<close> on the local sum and the coordinator, its allocations
  succeeding. \<^verbatim>\<open>*sum += file_info.st_blocks\<close> adds in \<^verbatim>\<open>long\<close> and converts the result to \<^verbatim>\<open>int\<close>,
  which keeps its low 32 bits.
\<close>

definition process_directory_entry ::
  "filesystem \<Rightarrow> string \<Rightarrow> 32 word \<Rightarrow> Coordinator \<Rightarrow> fault \<Rightarrow> fault + 32 word \<times> Coordinator" where
  "process_directory_entry fs full_path sm c thread_context =
     (case safe_lstat fs full_path thread_context of
        Inl e \<Rightarrow> Inl e
      | Inr file_info \<Rightarrow>
          Inr (sm + scast (st_blocks file_info),
               if is_dictionary file_info then c\<lparr>dir_queue := dir_queue c @ [full_path]\<rparr> else c))"

text \<open>
  \<^verbatim>\<open>tot_sum += value\<close> in \<^verbatim>\<open>update_total_sum\<close> adds two \<^verbatim>\<open>int\<close>: a sum outside the range of
  \<^verbatim>\<open>int\<close> is a signed overflow, which C leaves undefined.
\<close>

definition int_add_defined :: "32 word \<Rightarrow> 32 word \<Rightarrow> bool" where
  "int_add_defined a b =
     (- 2147483648 \<le> sint a + sint b \<and> sint a + sint b \<le> 2147483647)"

fun exit_value :: "location \<Rightarrow> int option" where
  "exit_value (Exited v) = Some v"
| "exit_value l = None"

text \<open>
  \<^verbatim>\<open>thread_context_destroy\<close> called by worker \<open>w\<close> while the other threads exist, and the
  \<^verbatim>\<open>exit(EXIT_FAILURE)\<close> after it. \<open>w\<close> holds neither \<^verbatim>\<open>mutex_work\<close> nor the mutex of a queue.
  The function destroys \<^verbatim>\<open>mutex_work\<close> and \<^verbatim>\<open>cond_work\<close>, which POSIX leaves undefined for a
  mutex that is locked and for a condition variable on which a thread is blocked: only when
  no worker holds the mutex and none is inside \<^verbatim>\<open>pthread_cond_wait\<close> can it run to its end and
  \<^verbatim>\<open>exit\<close> be reached (\<open>exits\<close>). It frees the coordinators while the workers that have not
  returned go on using them until \<^verbatim>\<open>exit\<close> ends the process (\<open>in_use\<close>). It empties the queues
  with \<^verbatim>\<open>queue_dequeue\<close>, whose allocation passes \<^verbatim>\<open>NULL\<close> to \<^verbatim>\<open>safe_calloc\<close> and may fail
  (\<open>no_memory\<close>).
\<close>

inductive thread_context_destroy_by :: "state \<Rightarrow> nat \<Rightarrow> fault \<Rightarrow> bool"
  for s :: state and w :: nat where
  exits:
    "mutex_work s = None \<Longrightarrow> Waiting \<notin> loc ` set (workers s) \<Longrightarrow>
     thread_context_destroy_by s w Exit_failure"
| in_use:
    "v < length (workers s) \<Longrightarrow> v \<noteq> w \<Longrightarrow> exit_value (loc (workers s ! v)) = None \<Longrightarrow>
     thread_context_destroy_by s w Undefined_behaviour"
| no_memory:
    "c \<in> set (coords s) \<Longrightarrow> dir_queue c \<noteq> [] \<Longrightarrow>
     thread_context_destroy_by s w Undefined_behaviour"

text \<open>
  A thread leaves \<^verbatim>\<open>pthread_cond_wait\<close> when it has the mutex again, after a broadcast or
  spuriously, so \<open>Waiting\<close> may take the free mutex at any time. \<^verbatim>\<open>queue_dequeue\<close> on an empty
  queue and a coordinator index outside the array have no step.

  The last five rules are the failures. \<open>read_fatal\<close>: \<^verbatim>\<open>lstat\<close> fails on an entry.
  \<open>no_memory_copy\<close>: the allocation in \<^verbatim>\<open>queue_dequeue\<close> fails. \<open>no_memory_path\<close>: the allocation in
  \<^verbatim>\<open>create_full_path\<close> fails. \<open>no_memory_node\<close>: an allocation in \<^verbatim>\<open>queue_enqueue\<close> fails, for an
  entry that is a directory. \<open>no_memory_status\<close>: the allocation of the exit status fails.
  \<open>sum_overflow\<close>: the addition in \<^verbatim>\<open>update_total_sum\<close> overflows. In the other rules the
  allocations succeed.
\<close>

inductive step :: "filesystem \<Rightarrow> nat \<Rightarrow> state \<Rightarrow> state \<Rightarrow> bool" for fs :: filesystem and w :: nat where
  lock:
    "at s w Seek \<Longrightarrow> mutex_work s = None \<Longrightarrow>
     step fs w s ((move w (Active 0) s)\<lparr>mutex_work := Some w\<rparr>)"
| wake:
    "at s w Waiting \<Longrightarrow> mutex_work s = None \<Longrightarrow>
     step fs w s ((move w (Active 0) s)\<lparr>mutex_work := Some w\<rparr>)"
| active_counter:
    "at s w (Active i) \<Longrightarrow> i < length (coords s) \<Longrightarrow>
     get_counter_value (active_threads (coords s ! i)) > 0 \<Longrightarrow>
     step fs w s (move w (Work 0) s)"
| active_no_counter:
    "at s w (Active i) \<Longrightarrow> i < length (coords s) \<Longrightarrow>
     \<not> get_counter_value (active_threads (coords s ! i)) > 0 \<Longrightarrow>
     step fs w s (move w (Active_queue i) s)"
| active_queue:
    "at s w (Active_queue i) \<Longrightarrow> i < length (coords s) \<Longrightarrow> dir_queue (coords s ! i) \<noteq> [] \<Longrightarrow>
     step fs w s (move w (Work 0) s)"
| active_next:
    "at s w (Active_queue i) \<Longrightarrow> i < length (coords s) \<Longrightarrow> dir_queue (coords s ! i) = [] \<Longrightarrow>
     step fs w s (move w (Active (Suc i)) s)"
| active_none:
    "at s w (Active i) \<Longrightarrow> \<not> i < length (coords s) \<Longrightarrow>
     step fs w s ((move w Exiting s)\<lparr>mutex_work := None\<rparr>)"
| work_found:
    "at s w (Work i) \<Longrightarrow> i < length (coords s) \<Longrightarrow> dir_queue (coords s ! i) \<noteq> [] \<Longrightarrow>
     step fs w s (move w (Take i) s)"
| work_next:
    "at s w (Work i) \<Longrightarrow> i < length (coords s) \<Longrightarrow> dir_queue (coords s ! i) = [] \<Longrightarrow>
     step fs w s (move w (Work (Suc i)) s)"
| work_none:
    "at s w (Work i) \<Longrightarrow> \<not> i < length (coords s) \<Longrightarrow>
     step fs w s ((move w Waiting s)\<lparr>mutex_work := None\<rparr>)"
| take:
    "at s w (Take i) \<Longrightarrow> i < length (coords s) \<Longrightarrow> dir_queue (coords s ! i) = path # rest \<Longrightarrow>
     step fs w s (move w (Increment i path) (put i ((coords s ! i)\<lparr>dir_queue := rest\<rparr>) s))"
| increment:
    "at s w (Increment i path) \<Longrightarrow> i < length (coords s) \<Longrightarrow>
     step fs w s
       ((move w (Open_dir i path)
          (put i ((coords s ! i)\<lparr>active_threads :=
                     increment_counter (active_threads (coords s ! i))\<rparr>) s))
        \<lparr>mutex_work := None\<rparr>)"
| open_dir:
    "at s w (Open_dir i path) \<Longrightarrow>
     safe_opendir fs path (errno (workers s ! w)) = (directory, messages, errno') \<Longrightarrow>
     step fs w s
       (s\<lparr>workers := (workers s)
             [w := \<lparr>loc = (case directory of
                             None \<Rightarrow> Finish i
                           | Some names \<Rightarrow> Read_dir i path names 0),
                    errno = errno'\<rparr>],
          stderr := stderr s @ messages\<rparr>)"
| read_skip:
    "at s w (Read_dir i path (name # names) sm) \<Longrightarrow> is_dot_or_dot_dot name \<Longrightarrow>
     step fs w s (move w (Read_dir i path names sm) s)"
| read_entry:
    "at s w (Read_dir i path (name # names) sm) \<Longrightarrow> \<not> is_dot_or_dot_dot name \<Longrightarrow>
     i < length (coords s) \<Longrightarrow>
     process_directory_entry fs (full_path_of path name) sm (coords s ! i) d = Inr (sm', c') \<Longrightarrow>
     step fs w s (move w (Read_dir i path names sm') (put i c' s))"
| read_end:
    "at s w (Read_dir i path [] sm) \<Longrightarrow> i < length (coords s) \<Longrightarrow>
     int_add_defined (tot_sum (coords s ! i)) sm \<Longrightarrow>
     step fs w s (move w (Finish i) (put i (update_total_sum sm (coords s ! i)) s))"
| finish:
    "at s w (Finish i) \<Longrightarrow> i < length (coords s) \<Longrightarrow> mutex_work s = None \<Longrightarrow>
     step fs w s
       (move w Seek
          (put i ((coords s ! i)\<lparr>active_threads :=
                     decrement_counter (active_threads (coords s ! i))\<rparr>) s))"
| return:
    "at s w Exiting \<Longrightarrow>
     step fs w s (move w (Exited (if errno (workers s ! w) \<noteq> 0 then 1 else 0)) s)"
| read_fatal:
    "at s w (Read_dir i path (name # names) sm) \<Longrightarrow> \<not> is_dot_or_dot_dot name \<Longrightarrow>
     i < length (coords s) \<Longrightarrow> thread_context_destroy_by s w d \<Longrightarrow>
     process_directory_entry fs (full_path_of path name) sm (coords s ! i) d = Inl f \<Longrightarrow>
     step fs w s (s\<lparr>proc := Ended f\<rparr>)"
| no_memory_copy:
    "at s w (Take i) \<Longrightarrow> i < length (coords s) \<Longrightarrow> dir_queue (coords s ! i) = path # rest \<Longrightarrow>
     clone_string False path = Inl f \<Longrightarrow>
     step fs w s (s\<lparr>proc := Ended f\<rparr>)"
| no_memory_path:
    "at s w (Read_dir i path (name # names) sm) \<Longrightarrow> \<not> is_dot_or_dot_dot name \<Longrightarrow>
     thread_context_destroy_by s w d \<Longrightarrow> create_full_path path name 0 d = Inl f \<Longrightarrow>
     step fs w s (s\<lparr>proc := Ended f\<rparr>)"
| no_memory_node:
    "at s w (Read_dir i path (name # names) sm) \<Longrightarrow> \<not> is_dot_or_dot_dot name \<Longrightarrow>
     i < length (coords s) \<Longrightarrow> names_directory fs (full_path_of path name) \<Longrightarrow>
     enqueue_path (full_path_of path name) (coords s ! i) mem = Inl f \<Longrightarrow>
     step fs w s (s\<lparr>proc := Ended f\<rparr>)"
| no_memory_status:
    "at s w Exiting \<Longrightarrow> thread_context_destroy_by s w d \<Longrightarrow> safe_malloc 0 d = Inl f \<Longrightarrow>
     step fs w s (s\<lparr>proc := Ended f\<rparr>)"
| sum_overflow:
    "at s w (Read_dir i path [] sm) \<Longrightarrow> i < length (coords s) \<Longrightarrow>
     \<not> int_add_defined (tot_sum (coords s ! i)) sm \<Longrightarrow>
     step fs w s (s\<lparr>proc := Ended Undefined_behaviour\<rparr>)"

inductive steps :: "filesystem \<Rightarrow> state \<Rightarrow> state \<Rightarrow> bool" for fs :: filesystem where
  here: "steps fs s s"
| further: "steps fs s s' \<Longrightarrow> step fs w s' s'' \<Longrightarrow> steps fs s s''"

text \<open>
  \<^verbatim>\<open>main\<close> starts the threads after the seeding; a thread that does not exist yet is a
  worker that has not moved yet.
\<close>

definition initial :: "Coordinator list \<Rightarrow> nat \<Rightarrow> state" where
  "initial cs spawned =
     \<lparr>coords = cs, workers = replicate (Suc spawned) \<lparr>loc = Seek, errno = 0\<rparr>,
      mutex_work = None, stderr = [], proc = Running\<rparr>"

definition finished :: "state \<Rightarrow> bool" where
  "finished s = (proc s = Running \<and> (\<forall>x \<in> set (workers s). exit_value (loc x) \<noteq> None))"

fun collect_thread_exit_statuses :: "int list \<Rightarrow> int \<Rightarrow> int" where
  "collect_thread_exit_statuses [] exit_status = exit_status"
| "collect_thread_exit_statuses (v # vs) exit_status =
     collect_thread_exit_statuses vs (if v = EXIT_FAILURE then EXIT_FAILURE else exit_status)"

text \<open>
  The status \<^verbatim>\<open>main\<close> ends with after the threads are joined: its own worker is the
  first one.
\<close>

definition final_status :: "state \<Rightarrow> int" where
  "final_status s =
     (let vs = map (\<lambda>x. case exit_value (loc x) of None \<Rightarrow> 0 | Some v \<Rightarrow> v) (workers s);
          exit_status = collect_thread_exit_statuses (tl vs) (hd vs)
      in if exit_status \<noteq> EXIT_SUCCESS then EXIT_FAILURE else EXIT_SUCCESS)"


section \<open>Printing (\<^verbatim>\<open>print_results\<close>)\<close>

fun dec_digits :: "nat \<Rightarrow> string" where
  "dec_digits n =
     (if n < 10 then [char_of (48 + n)] else dec_digits (n div 10) @ [char_of (48 + n mod 10)])"

declare dec_digits.simps [simp del]

definition show_int :: "int \<Rightarrow> string" where
  "show_int i = (if i < 0 then CHR ''-'' # dec_digits (nat (- i)) else dec_digits (nat i))"

text \<open>\<^verbatim>\<open>printf("%d\t%s\n", file_size, file_path)\<close> with \<^verbatim>\<open>int file_size\<close>.\<close>

definition result_line :: "32 word \<Rightarrow> string \<Rightarrow> string" where
  "result_line file_size file_path =
     show_int (sint file_size) @ [CHR 0x09] @ file_path @ [CHR 0x0A]"

text \<open>
  The lines written to stdout, and the fault that ended the loop if one did. \<open>cs\<close> are the
  coordinators that exist; reading the array past them is undefined. The threads have been
  joined when \<^verbatim>\<open>print_results\<close> runs, so the thread context that \<^verbatim>\<open>safe_lstat\<close> destroys is
  whole; \<open>mem\<close> is the number of allocations that still succeed, for the queues that
  \<^verbatim>\<open>thread_context_destroy\<close> would have to empty.
\<close>

fun print_from ::
  "filesystem \<Rightarrow> int \<Rightarrow> Coordinator list \<Rightarrow> nat \<Rightarrow> int \<Rightarrow> nat \<Rightarrow> string list \<Rightarrow>
   string list \<times> fault option" where
  "print_from fs optind cs mem i dn [] = ([], None)"
| "print_from fs optind cs mem i dn (arg # args) =
     (if \<not> is_flag_arg optind i then
        (case safe_lstat fs arg (destroy_coordinators (map Some cs) mem) of
           Inl e \<Rightarrow> ([], Some e)
         | Inr file_info \<Rightarrow>
             (if is_dictionary file_info then
                (if dn < length cs then
                   (case print_from fs optind cs mem (i + 1) (dn + 1) args of
                      (out, r) \<Rightarrow> (result_line (tot_sum (cs ! dn)) arg # out, r))
                 else ([], Some Undefined_behaviour))
              else
                (case print_from fs optind cs mem (i + 1) dn args of
                   (out, r) \<Rightarrow> (result_line (scast (st_blocks file_info)) arg # out, r))))
      else print_from fs optind cs mem (i + 1) dn args)"

definition print_results ::
  "filesystem \<Rightarrow> int \<Rightarrow> string list \<Rightarrow> Coordinator list \<Rightarrow> nat \<Rightarrow> string list \<times> fault option" where
  "print_results fs optind argv cs mem = print_from fs optind cs mem 1 0 (tl argv)"


section \<open>The whole run (\<^verbatim>\<open>main\<close>)\<close>

text \<open>
  How the process ends: \<open>Some\<close> of its exit status, or \<open>None\<close> when it has reached undefined
  behaviour.
\<close>

fun ended :: "fault \<Rightarrow> int option" where
  "ended Exit_failure = Some EXIT_FAILURE"
| "ended Undefined_behaviour = None"

text \<open>
  \<open>main_run fs fs' opts optind argv mem (out, end)\<close>: a run of \<^verbatim>\<open>main\<close> can write the lines
  \<open>out\<close> to stdout and end as \<open>end\<close> says. \<open>fs\<close> is the file system during seeding and
  traversal, \<open>fs'\<close> the file system when \<^verbatim>\<open>print_results\<close> calls \<^verbatim>\<open>lstat\<close> again; \<open>opts\<close> and
  \<open>optind\<close> are what \<^verbatim>\<open>getopt\<close> produced; \<open>mem\<close> is the number of allocations that succeed
  during the seeding. \<^verbatim>\<open>pthread_t threads[thread_num]\<close> with a negative \<^verbatim>\<open>thread_num\<close> is
  undefined. \<^verbatim>\<open>pthread_create\<close> is taken to succeed, and the array to fit the stack. The
  workers of \<open>step\<close> allocate without a count, and so does the rest of the run: \<open>mem'\<close> is any
  number. A run in which the workers never finish has no outcome.
\<close>

inductive main_run ::
  "filesystem \<Rightarrow> filesystem \<Rightarrow> (char \<times> string) list \<Rightarrow> int \<Rightarrow> string list \<Rightarrow> nat \<Rightarrow>
   string list \<times> int option \<Rightarrow> bool"
  for fs fs' :: filesystem and opts :: "(char \<times> string) list" and optind :: int
    and argv :: "string list" and mem :: nat where
  usage:
    "length argv < 2 \<Longrightarrow> main_run fs fs' opts optind argv mem ([], Some EXIT_FAILURE)"
| no_threads:
    "2 \<le> length argv \<Longrightarrow> get_thread_amount opts < 0 \<Longrightarrow>
     main_run fs fs' opts optind argv mem ([], None)"
| no_context:
    "2 \<le> length argv \<Longrightarrow> 0 \<le> get_thread_amount opts \<Longrightarrow>
     create_thread_context mem = Inl f \<Longrightarrow>
     main_run fs fs' opts optind argv mem ([], ended f)"
| no_seed:
    "2 \<le> length argv \<Longrightarrow> 0 \<le> get_thread_amount opts \<Longrightarrow>
     create_thread_context mem = Inr cm \<Longrightarrow>
     traverse_input_arguments fs optind argv cm = Inl f \<Longrightarrow>
     main_run fs fs' opts optind argv mem ([], ended f)"
| worker_failed:
    "2 \<le> length argv \<Longrightarrow> 0 \<le> get_thread_amount opts \<Longrightarrow>
     create_thread_context mem = Inr cm \<Longrightarrow>
     traverse_input_arguments fs optind argv cm = Inr (tc, m) \<Longrightarrow>
     live_coordinators tc = Some cs \<Longrightarrow>
     steps fs (initial cs (spawned_threads (get_thread_amount opts))) s \<Longrightarrow>
     proc s = Ended f \<Longrightarrow>
     main_run fs fs' opts optind argv mem ([], ended f)"
| printed:
    "2 \<le> length argv \<Longrightarrow> 0 \<le> get_thread_amount opts \<Longrightarrow>
     create_thread_context mem = Inr cm \<Longrightarrow>
     traverse_input_arguments fs optind argv cm = Inr (tc, m) \<Longrightarrow>
     live_coordinators tc = Some cs \<Longrightarrow>
     steps fs (initial cs (spawned_threads (get_thread_amount opts))) s \<Longrightarrow>
     finished s \<Longrightarrow>
     print_results fs' optind argv (coords s) mem' = (out, None) \<Longrightarrow>
     main_run fs fs' opts optind argv mem (out, Some (final_status s))"
| print_failed:
    "2 \<le> length argv \<Longrightarrow> 0 \<le> get_thread_amount opts \<Longrightarrow>
     create_thread_context mem = Inr cm \<Longrightarrow>
     traverse_input_arguments fs optind argv cm = Inr (tc, m) \<Longrightarrow>
     live_coordinators tc = Some cs \<Longrightarrow>
     steps fs (initial cs (spawned_threads (get_thread_amount opts))) s \<Longrightarrow>
     finished s \<Longrightarrow>
     print_results fs' optind argv (coords s) mem' = (out, Some f) \<Longrightarrow>
     main_run fs fs' opts optind argv mem (out, ended f)"


section \<open>What the specification says a total is\<close>






section \<open>Invariants of the workers\<close>

text \<open>
  \<open>in_root i l\<close>: a worker at \<open>l\<close> is between the increment and the decrement of the counter
  of root \<open>i\<close>. \<open>holds_mutex l\<close>: a worker at \<open>l\<close> is inside the critical section of
  \<^verbatim>\<open>get_coordinator_with_work\<close>. \<open>busy s i\<close> counts the workers in root \<open>i\<close>.
\<close>

fun in_root :: "nat \<Rightarrow> location \<Rightarrow> bool" where
  "in_root i (Open_dir j path) = (j = i)"
| "in_root i (Read_dir j path names sm) = (j = i)"
| "in_root i (Finish j) = (j = i)"
| "in_root i l = False"

fun holds_mutex :: "location \<Rightarrow> bool" where
  "holds_mutex (Active i) = True"
| "holds_mutex (Active_queue i) = True"
| "holds_mutex (Work i) = True"
| "holds_mutex (Take i) = True"
| "holds_mutex (Increment i path) = True"
| "holds_mutex l = False"

fun terminal :: "location \<Rightarrow> bool" where
  "terminal Exiting = True"
| "terminal (Exited v) = True"
| "terminal l = False"

fun carrying :: "location \<Rightarrow> bool" where
  "carrying (Increment i path) = True"
| "carrying l = False"

definition busy :: "state \<Rightarrow> nat \<Rightarrow> int" where
  "busy s i = (\<Sum>x \<leftarrow> workers s. if in_root i (loc x) then 1 else 0)"

definition idle :: "Coordinator \<Rightarrow> bool" where
  "idle c = (active_threads c = 0 \<and> dir_queue c = [])"

text \<open>
  \<open>passed cs i\<close>: what the scan of \<^verbatim>\<open>get_non_empty_coordinator\<close> knows of the roots before
  \<open>i\<close>. It saw their queues empty; a queue among them can hold a path again only if a worker
  that is still traversing in that root has added it since.
\<close>

definition passed :: "Coordinator list \<Rightarrow> nat \<Rightarrow> bool" where
  "passed cs i = (\<forall>j<i. dir_queue (cs ! j) = [] \<or> 0 < active_threads (cs ! j))"

fun scan_ok :: "Coordinator list \<Rightarrow> location \<Rightarrow> bool" where
  "scan_ok cs (Active i) = (i \<le> length cs \<and> (\<forall>j<i. idle (cs ! j)))"
| "scan_ok cs (Active_queue i) =
     (i < length cs \<and> (\<forall>j<i. idle (cs ! j)) \<and> active_threads (cs ! i) = 0)"
| "scan_ok cs (Work i) = (i \<le> length cs \<and> passed cs i)"
| "scan_ok cs (Take i) = (i < length cs \<and> passed cs i \<and> dir_queue (cs ! i) \<noteq> [])"
| "scan_ok cs (Increment i path) = (i < length cs \<and> passed cs i)"
| "scan_ok cs (Open_dir i path) = (i < length cs)"
| "scan_ok cs (Read_dir i path names sm) = (i < length cs)"
| "scan_ok cs (Finish i) = (i < length cs)"
| "scan_ok cs l = True"

definition quiet :: "state \<Rightarrow> bool" where
  "quiet s =
     ((\<forall>i<length (coords s). idle (coords s ! i)) \<and>
      (\<forall>v<length (workers s). \<not> carrying (loc (workers s ! v))))"

definition inv_lock :: "state \<Rightarrow> bool" where
  "inv_lock s =
     (\<forall>v<length (workers s). holds_mutex (loc (workers s ! v)) \<longleftrightarrow> mutex_work s = Some v)"

definition inv_count :: "state \<Rightarrow> bool" where
  "inv_count s = (\<forall>i<length (coords s). active_threads (coords s ! i) = busy s i)"

definition inv_scan :: "state \<Rightarrow> bool" where
  "inv_scan s = (\<forall>v<length (workers s). scan_ok (coords s) (loc (workers s ! v)))"

definition inv_quiet :: "state \<Rightarrow> bool" where
  "inv_quiet s = ((\<exists>v<length (workers s). terminal (loc (workers s ! v))) \<longrightarrow> quiet s)"

definition invariant :: "state \<Rightarrow> bool" where
  "invariant s = (inv_lock s \<and> inv_count s \<and> inv_scan s \<and> inv_quiet s)"






text \<open>
  For one call of \<^verbatim>\<open>get_coordinator_with_work\<close>: \<open>alone fs w s s'\<close> says that worker \<open>w\<close> gets
  from \<open>s\<close> to \<open>s'\<close> by steps of its own, no other worker moving in between.
  \<open>first_with_work cs j\<close> says that \<open>j\<close> is the first root in scan order whose queue is not
  empty.
\<close>

inductive alone :: "filesystem \<Rightarrow> nat \<Rightarrow> state \<Rightarrow> state \<Rightarrow> bool"
  for fs :: filesystem and w :: nat where
  stay: "alone fs w s s"
| go: "step fs w s s' \<Longrightarrow> alone fs w s' s'' \<Longrightarrow> alone fs w s s''"

definition first_with_work :: "Coordinator list \<Rightarrow> nat \<Rightarrow> bool" where
  "first_with_work cs j =
     (j < length cs \<and> dir_queue (cs ! j) \<noteq> [] \<and> (\<forall>i<j. dir_queue (cs ! i) = []))"


section \<open>The queue is first in, first out\<close>


lemma linked_upd_other: "a \<notin> fst ` set cs \<Longrightarrow> linked (h(a := x)) p cs = linked h p cs"
  by (induction cs arbitrary: p) (auto split: option.splits)

lemma linked_snoc:
  assumes "linked h p (cs @ [(l, lv)])" "distinct (map fst cs @ [l])" "a \<notin> fst ` set cs" "a \<noteq> l"
    "h l = Some nd"
  shows "linked (h(a \<mapsto> \<lparr>next_node = None, value_str = v\<rparr>, l \<mapsto> nd\<lparr>next_node := Some a\<rparr>)) p
           (cs @ [(l, lv), (a, v)])"
  using assms
  by (induction cs arbitrary: p) (auto split: option.splits)

lemma linked_live: "linked h p cs \<Longrightarrow> c \<in> set cs \<Longrightarrow> h (fst c) \<noteq> None"
  by (induction cs arbitrary: p) (auto split: option.splits)

lemma enqueue_rep:
  assumes "queue_rep h q cs" "h a = None"
  shows "\<exists>h' q'. queue_enqueue h q (Some a) True v = Inr (h', q') \<and> queue_rep h' q' (cs @ [(a, v)])
           \<and> (\<forall>b. b \<noteq> a \<longrightarrow> h b = None \<longrightarrow> h' b = None)"
proof (cases cs rule: rev_cases)
  case Nil
  with assms show ?thesis
    by (simp add: queue_rep_def queue_enqueue_def make_node_def clone_string_def)
next
  case (snoc bs c)
  obtain l lv where c: "c = (l, lv)" by (cases c)
  from assms snoc c have lk: "linked h (first q) (bs @ [(l, lv)])"
    and di: "distinct (map fst bs @ [l])" and la: "last_node q = Some l"
    by (simp_all add: queue_rep_def)
  from lk have "h l \<noteq> None" using linked_live[of h "first q" "bs @ [(l, lv)]" "(l, lv)"] by simp
  then obtain nd where nd: "h l = Some nd" by auto
  have fresh: "a \<notin> fst ` set bs" "a \<noteq> l"
    using linked_live[OF lk] assms(2) by force+
  have f: "first q \<noteq> None" using lk by (cases bs) auto
  have "linked (h(a \<mapsto> \<lparr>next_node = None, value_str = v\<rparr>, l \<mapsto> nd\<lparr>next_node := Some a\<rparr>)) (first q)
           (bs @ [(l, lv), (a, v)])"
    by (rule linked_snoc[OF lk di fresh nd])
  with f la nd fresh di snoc c show ?thesis
    by (auto simp add: queue_rep_def queue_enqueue_def make_node_def clone_string_def)
qed

lemma dequeue_rep:
  assumes "queue_rep h q ((a, v) # cs)"
  shows "\<exists>h' q'. queue_dequeue h q True = Inr (v, h', q') \<and> queue_rep h' q' cs"
  using assms
  by (auto simp add: queue_rep_def queue_dequeue_def clone_string_def linked_upd_other
      split: option.splits)

lemma is_empty_rep: "queue_rep h q cs \<Longrightarrow> queue_is_empty q \<longleftrightarrow> cs = []"
  by (cases cs) (auto simp add: queue_rep_def queue_is_empty_def)

lemma enqueue_all_rep:
  assumes "queue_rep h q cs" "distinct (map fst avs)" "\<forall>a\<in>fst ` set avs. h a = None"
  shows "\<exists>h' q'. enqueue_all h q avs = Inr (h', q') \<and> queue_rep h' q' (cs @ avs)"
  using assms
proof (induction avs arbitrary: h q cs)
  case Nil
  then show ?case by simp
next
  case (Cons av avs)
  obtain a v where av: "av = (a, v)" by (cases av)
  from Cons.prems av have fr: "h a = None" by simp
  from enqueue_rep[OF Cons.prems(1) fr, of v] obtain h1 q1 where
    e: "queue_enqueue h q (Some a) True v = Inr (h1, q1)" and r: "queue_rep h1 q1 (cs @ [(a, v)])"
    and k: "\<forall>b. b \<noteq> a \<longrightarrow> h b = None \<longrightarrow> h1 b = None" by blast
  have d: "distinct (map fst avs)" using Cons.prems(2) by simp
  have f: "\<forall>b\<in>fst ` set avs. h1 b = None"
    using Cons.prems(2,3) k av by force
  from Cons.IH[OF r d f] e av show ?case by simp
qed

lemma dequeue_n_rep:
  assumes "queue_rep h q cs" "n \<le> length cs"
  shows "\<exists>h' q'. dequeue_n n h q = Inr (map snd (take n cs), h', q') \<and> queue_rep h' q' (drop n cs)"
  using assms
proof (induction n arbitrary: h q cs)
  case 0
  then show ?case by simp
next
  case (Suc n)
  then obtain a v cs' where cs: "cs = (a, v) # cs'" by (cases cs) auto
  from dequeue_rep[of h q a v cs'] Suc.prems cs obtain h1 q1 where
    d: "queue_dequeue h q True = Inr (v, h1, q1)" and r: "queue_rep h1 q1 cs'" by blast
  from Suc.IH[OF r] Suc.prems(2) cs obtain h2 q2 where
    "dequeue_n n h1 q1 = Inr (map snd (take n cs'), h2, q2)" "queue_rep h2 q2 (drop n cs')"
    by auto
  with d cs show ?case by simp
qed

lemma create_rep: "\<exists>q0. queue_create True = Inr q0 \<and> queue_is_empty q0 \<and> queue_rep h0 q0 []"
  by (simp add: queue_create_def queue_is_empty_def queue_rep_def)

lemma enqueue_rep_plain:
  assumes "queue_rep h q cs" "h a = None"
  shows "\<exists>h' q'. queue_enqueue h q (Some a) True v = Inr (h', q') \<and> queue_rep h' q' (cs @ [(a, v)])"
proof -
  from enqueue_rep[OF assms, of v] obtain h' q' where
    "queue_enqueue h q (Some a) True v = Inr (h', q')" "queue_rep h' q' (cs @ [(a, v)])"
    by (elim exE conjE)
  then show ?thesis by (intro exI conjI)
qed

lemma fifo_run:
  fixes avs :: "(addr \<times> string) list"
  assumes r: "queue_rep h q cs" and d: "distinct (map fst avs)"
    and f: "\<forall>a\<in>fst ` set avs. h a = None"
  shows "\<exists>h1 q1 h2 q2.
            enqueue_all h q avs = Inr (h1, q1) \<and>
            dequeue_n (length cs + length avs) h1 q1 = Inr (map snd cs @ map snd avs, h2, q2) \<and>
            queue_is_empty q2"
proof -
  from enqueue_all_rep[OF r d f] obtain h1 q1 where
    e: "enqueue_all h q avs = Inr (h1, q1)" and r1: "queue_rep h1 q1 (cs @ avs)"
    by (elim exE conjE)
  have le: "length cs + length avs \<le> length (cs @ avs)" by simp
  from dequeue_n_rep[OF r1 le] obtain h2 q2 where
    d2: "dequeue_n (length cs + length avs) h1 q1
          = Inr (map snd (take (length cs + length avs) (cs @ avs)), h2, q2)"
    and r2: "queue_rep h2 q2 (drop (length cs + length avs) (cs @ avs))"
    by (elim exE conjE)
  have t: "map snd (take (length cs + length avs) (cs @ avs)) = map snd cs @ map snd avs"
    by simp
  have "drop (length cs + length avs) (cs @ avs) = []" by simp
  with r2 have "queue_rep h2 q2 []" by simp
  then have "queue_is_empty q2" by (simp add: is_empty_rep)
  with e d2 t show ?thesis by (intro exI conjI) simp_all
qed

text \<open>
  Claim C7. A queue made by \<^verbatim>\<open>queue_create\<close> is empty. On a queue that holds the strings of
  \<open>cs\<close>, front first: \<^verbatim>\<open>queue_is_empty\<close> is true exactly when there are none;
  \<^verbatim>\<open>queue_enqueue\<close> with memory at a fresh address adds the string at the back;
  \<^verbatim>\<open>queue_dequeue\<close> on a non-empty queue returns the front string and removes it; and after
  any run of enqueues, dequeueing everything returns the strings in the order they went in.
\<close>

theorem queue_fifo:
  "(\<exists>q0. queue_create True = Inr q0 \<and> queue_is_empty q0 \<and> queue_rep h0 q0 []) \<and>
   (queue_rep h q cs \<longrightarrow>
      (queue_is_empty q \<longleftrightarrow> map snd cs = []) \<and>
      (\<forall>a v. h a = None \<longrightarrow>
         (\<exists>h' q'. queue_enqueue h q (Some a) True v = Inr (h', q') \<and>
                  queue_rep h' q' (cs @ [(a, v)]))) \<and>
      (\<forall>a v cs'. cs = (a, v) # cs' \<longrightarrow>
         (\<exists>h' q'. queue_dequeue h q True = Inr (v, h', q') \<and> queue_rep h' q' cs')) \<and>
      (\<forall>avs :: (addr \<times> string) list.
         distinct (map fst avs) \<and> (\<forall>a\<in>fst ` set avs. h a = None) \<longrightarrow>
         (\<exists>h1 q1 h2 q2.
            enqueue_all h q avs = Inr (h1, q1) \<and>
            dequeue_n (length cs + length avs) h1 q1 = Inr (map snd cs @ map snd avs, h2, q2) \<and>
            queue_is_empty q2)))"
proof (rule conjI)
  show "\<exists>q0. queue_create True = Inr q0 \<and> queue_is_empty q0 \<and> queue_rep h0 q0 []"
    by (rule create_rep)
next
  show "queue_rep h q cs \<longrightarrow>
      (queue_is_empty q \<longleftrightarrow> map snd cs = []) \<and>
      (\<forall>a v. h a = None \<longrightarrow>
         (\<exists>h' q'. queue_enqueue h q (Some a) True v = Inr (h', q') \<and>
                  queue_rep h' q' (cs @ [(a, v)]))) \<and>
      (\<forall>a v cs'. cs = (a, v) # cs' \<longrightarrow>
         (\<exists>h' q'. queue_dequeue h q True = Inr (v, h', q') \<and> queue_rep h' q' cs')) \<and>
      (\<forall>avs :: (addr \<times> string) list.
         distinct (map fst avs) \<and> (\<forall>a\<in>fst ` set avs. h a = None) \<longrightarrow>
         (\<exists>h1 q1 h2 q2.
            enqueue_all h q avs = Inr (h1, q1) \<and>
            dequeue_n (length cs + length avs) h1 q1 = Inr (map snd cs @ map snd avs, h2, q2) \<and>
            queue_is_empty q2))"
  proof (intro impI conjI allI)
    assume "queue_rep h q cs"
    then show "queue_is_empty q \<longleftrightarrow> map snd cs = []" by (simp add: is_empty_rep)
  next
    fix a v assume "queue_rep h q cs" "h a = None"
    then show "\<exists>h' q'. queue_enqueue h q (Some a) True v = Inr (h', q') \<and>
                  queue_rep h' q' (cs @ [(a, v)])"
      by (rule enqueue_rep_plain)
  next
    fix a v cs' assume "queue_rep h q cs" "cs = (a, v) # cs'"
    then have "queue_rep h q ((a, v) # cs')" by simp
    then show "\<exists>h' q'. queue_dequeue h q True = Inr (v, h', q') \<and> queue_rep h' q' cs'"
      by (rule dequeue_rep)
  next
    fix avs :: "(addr \<times> string) list"
    assume r: "queue_rep h q cs"
      and a: "distinct (map fst avs) \<and> (\<forall>a\<in>fst ` set avs. h a = None)"
    from a have d: "distinct (map fst avs)" and f: "\<forall>a\<in>fst ` set avs. h a = None"
      by (rule conjunct1, rule conjunct2)
    show "\<exists>h1 q1 h2 q2.
            enqueue_all h q avs = Inr (h1, q1) \<and>
            dequeue_n (length cs + length avs) h1 q1 = Inr (map snd cs @ map snd avs, h2, q2) \<and>
            queue_is_empty q2"
      by (rule fifo_run[OF r d f])
  qed
qed

theorem queue_fifo_witness:
  "queue_rep Map.empty \<lparr>first = None, last_node = None\<rparr> [] \<and>
   distinct (map fst [(1::nat, ''R''), (2, ''R/S'')]) \<and>
   (\<exists>h1 q1 h2 q2.
      enqueue_all Map.empty \<lparr>first = None, last_node = None\<rparr> [(1, ''R''), (2, ''R/S'')] = Inr (h1, q1) \<and>
      dequeue_n 2 h1 q1 = Inr ([''R'', ''R/S''], h2, q2) \<and> queue_is_empty q2)"
proof -
  let ?q = "\<lparr>first = None, last_node = None\<rparr>"
  let ?avs = "[(1::nat, ''R''), (2, ''R/S'')]"
  have r: "queue_rep Map.empty ?q []"
    by (simp add: queue_rep_def)
  have d: "distinct (map fst ?avs)" by simp
  have f: "\<forall>a\<in>fst ` set ?avs. (Map.empty :: heap) a = None" by simp
  have "queue_rep Map.empty ?q [] \<longrightarrow>
      (queue_is_empty ?q \<longleftrightarrow> map snd ([] :: (addr \<times> string) list) = []) \<and>
      (\<forall>a v. (Map.empty :: heap) a = None \<longrightarrow>
         (\<exists>h' q'. queue_enqueue Map.empty ?q (Some a) True v = Inr (h', q') \<and>
                  queue_rep h' q' ([] @ [(a, v)]))) \<and>
      (\<forall>a v cs'. [] = (a, v) # cs' \<longrightarrow>
         (\<exists>h' q'. queue_dequeue Map.empty ?q True = Inr (v, h', q') \<and> queue_rep h' q' cs')) \<and>
      (\<forall>avs :: (addr \<times> string) list.
         distinct (map fst avs) \<and> (\<forall>a\<in>fst ` set avs. (Map.empty :: heap) a = None) \<longrightarrow>
         (\<exists>h1 q1 h2 q2.
            enqueue_all Map.empty ?q avs = Inr (h1, q1) \<and>
            dequeue_n (length ([] :: (addr \<times> string) list) + length avs) h1 q1
              = Inr (map snd ([] :: (addr \<times> string) list) @ map snd avs, h2, q2) \<and>
            queue_is_empty q2))"
    by (rule conjunct2[OF queue_fifo[of Map.empty Map.empty ?q "[]"]])
  from mp[OF this r] have
    "\<forall>avs :: (addr \<times> string) list.
         distinct (map fst avs) \<and> (\<forall>a\<in>fst ` set avs. (Map.empty :: heap) a = None) \<longrightarrow>
         (\<exists>h1 q1 h2 q2.
            enqueue_all Map.empty ?q avs = Inr (h1, q1) \<and>
            dequeue_n (length ([] :: (addr \<times> string) list) + length avs) h1 q1
              = Inr (map snd ([] :: (addr \<times> string) list) @ map snd avs, h2, q2) \<and>
            queue_is_empty q2)"
    by (elim conjE)
  from mp[OF spec[OF this, of ?avs] conjI[OF d f]] obtain h1 q1 h2 q2 where
    e: "enqueue_all Map.empty ?q ?avs = Inr (h1, q1)"
    and n: "dequeue_n (length ([] :: (addr \<times> string) list) + length ?avs) h1 q1
              = Inr (map snd ([] :: (addr \<times> string) list) @ map snd ?avs, h2, q2)"
    and i: "queue_is_empty q2"
    by (elim exE conjE)
  have l: "length ([] :: (addr \<times> string) list) + length ?avs = 2" by simp
  have m: "map snd ([] :: (addr \<times> string) list) @ map snd ?avs = [''R'', ''R/S'']" by simp
  from n have n2: "dequeue_n 2 h1 q1 = Inr ([''R'', ''R/S''], h2, q2)"
    unfolding l m .
  from e n2 i have "\<exists>h1 q1 h2 q2.
      enqueue_all Map.empty ?q ?avs = Inr (h1, q1) \<and>
      dequeue_n 2 h1 q1 = Inr ([''R'', ''R/S''], h2, q2) \<and> queue_is_empty q2"
    by (intro exI conjI)
  with r d show ?thesis by (intro conjI)
qed


section \<open>Seeding the coordinators\<close>


lemma safe_malloc_ok: "0 < mem \<Longrightarrow> safe_malloc mem d = Inr (mem - 1)"
  by (cases mem) (simp_all add: safe_malloc_def)

lemma safe_calloc_ok: "0 < mem \<Longrightarrow> safe_calloc mem d = Inr (mem - 1)"
  by (cases mem) (simp_all add: safe_calloc_def)

lemma safe_realloc_ok: "0 < mem \<Longrightarrow> safe_realloc mem d = Inr (mem - 1)"
  by (cases mem) (simp_all add: safe_realloc_def)

lemma safe_malloc_Inr: "safe_malloc mem d = Inr m \<Longrightarrow> mem = Suc m"
  by (cases mem) (simp_all add: safe_malloc_def)

lemma create_coordinator_ok:
  "3 \<le> mem \<Longrightarrow>
   create_coordinator tc mem = Inr (\<lparr>active_threads = 0, tot_sum = 0, dir_queue = []\<rparr>, mem - 3)"
  by (simp add: create_coordinator_def create_counter_def safe_malloc_ok)

lemma create_coordinator_Inr:
  "create_coordinator tc mem = Inr (c, m) \<Longrightarrow> c = \<lparr>active_threads = 0, tot_sum = 0, dir_queue = []\<rparr>"
  by (auto simp add: create_coordinator_def create_counter_def split: sum.splits)

lemma enqueue_path_ok:
  "2 \<le> mem \<Longrightarrow> enqueue_path p c mem = Inr (c\<lparr>dir_queue := dir_queue c @ [p]\<rparr>, mem - 2)"
  by (simp add: enqueue_path_def safe_malloc_ok safe_calloc_ok)

lemma enqueue_path_Inr:
  "enqueue_path p c mem = Inr (c', m) \<Longrightarrow> c' = c\<lparr>dir_queue := dir_queue c @ [p]\<rparr>"
  by (auto simp add: enqueue_path_def split: sum.splits)

lemma expand_keep:
  "\<not> size_tc tc \<le> dir_num tc \<Longrightarrow>
   expand_and_create_coordinator tc mem =
     (case create_coordinator tc mem of
        Inl e \<Rightarrow> Inl e
      | Inr (c, m') \<Rightarrow>
          (if 0 \<le> dir_num tc - 1 \<and> nat (dir_num tc - 1) < length (coordinator tc) then
             Inr (tc\<lparr>coordinator := (coordinator tc)[nat (dir_num tc - 1) := Some c],
                     size_tc := size_tc tc\<rparr>, m')
           else Inl Undefined_behaviour))"
  by (simp add: expand_and_create_coordinator_def Let_def)

lemma expand_grow:
  "size_tc tc \<le> dir_num tc \<Longrightarrow>
   expand_and_create_coordinator tc mem =
     (case safe_realloc mem (thread_context_destroy (Some tc) 0) of
        Inl e \<Rightarrow> Inl e
      | Inr m \<Rightarrow>
          (case create_coordinator tc m of
             Inl e \<Rightarrow> Inl e
           | Inr (c, m') \<Rightarrow>
               (if 0 \<le> dir_num tc - 1 \<and>
                   nat (dir_num tc - 1) < length (resize_slots (nat (size_tc tc + 2)) (coordinator tc))
                then
                  Inr (tc\<lparr>coordinator := (resize_slots (nat (size_tc tc + 2)) (coordinator tc))
                                            [nat (dir_num tc - 1) := Some c],
                          size_tc := size_tc tc * 2\<rparr>, m')
                else Inl Undefined_behaviour)))"
  by (simp add: expand_and_create_coordinator_def Let_def split: sum.splits)

lemma expand_Inr_fields:
  assumes "expand_and_create_coordinator tc mem = Inr (tc', m)"
  shows "\<exists>slots c m1.
           (slots = coordinator tc \<or> slots = resize_slots (nat (size_tc tc + 2)) (coordinator tc)) \<and>
           create_coordinator tc m1 = Inr (c, m) \<and> 0 \<le> dir_num tc - 1 \<and>
           nat (dir_num tc - 1) < length slots \<and>
           coordinator tc' = slots[nat (dir_num tc - 1) := Some c] \<and> dir_num tc' = dir_num tc"
proof (cases "size_tc tc \<le> dir_num tc")
  case True
  from assms obtain m1 c where
    "create_coordinator tc m1 = Inr (c, m)"
    "0 \<le> dir_num tc - 1"
    "nat (dir_num tc - 1) < length (resize_slots (nat (size_tc tc + 2)) (coordinator tc))"
    "tc' = tc\<lparr>coordinator := (resize_slots (nat (size_tc tc + 2)) (coordinator tc))
                                            [nat (dir_num tc - 1) := Some c],
                          size_tc := size_tc tc * 2\<rparr>"
    unfolding expand_grow[OF True] by (simp split: sum.splits prod.splits if_splits)
  then show ?thesis by (intro exI[of _ "resize_slots (nat (size_tc tc + 2)) (coordinator tc)"] exI[of _ c] exI[of _ m1]) simp
next
  case False
  from assms obtain c where
    "create_coordinator tc mem = Inr (c, m)"
    "0 \<le> dir_num tc - 1"
    "nat (dir_num tc - 1) < length (coordinator tc)"
    "tc' = tc\<lparr>coordinator := (coordinator tc)[nat (dir_num tc - 1) := Some c],
                     size_tc := size_tc tc\<rparr>"
    unfolding expand_keep[OF False] by (simp split: sum.splits prod.splits if_splits)
  then show ?thesis by (intro exI[of _ "coordinator tc"] exI[of _ c] exI[of _ mem]) simp
qed

lemma expand_Inr:
  assumes "expand_and_create_coordinator tc mem = Inr (tc', m)"
    and "dir_num tc = int (length cs) + 1" and "take (length cs) (coordinator tc) = map Some cs"
  shows "dir_num tc' = dir_num tc \<and> length cs < length (coordinator tc') \<and>
         take (Suc (length cs)) (coordinator tc') =
           map Some (cs @ [\<lparr>active_threads = 0, tot_sum = 0, dir_queue = []\<rparr>])"
proof -
  from expand_Inr_fields[OF assms(1)] obtain slots m1 c where
    g: "slots = coordinator tc \<or> slots = resize_slots (nat (size_tc tc + 2)) (coordinator tc)"
    and cc: "create_coordinator tc m1 = Inr (c, m)"
    and rng: "nat (dir_num tc - 1) < length slots"
    and co: "coordinator tc' = slots[nat (dir_num tc - 1) := Some c]"
    and dn: "dir_num tc' = dir_num tc"
    by blast
  have c: "c = \<lparr>active_threads = 0, tot_sum = 0, dir_queue = []\<rparr>"
    using cc by (rule create_coordinator_Inr)
  have n: "nat (dir_num tc - 1) = length cs" using assms(2) by simp
  have len: "length cs \<le> length (coordinator tc)"
    using arg_cong[where f = length, OF assms(3)] by simp
  have pre: "take (length cs) slots = map Some cs"
  proof (rule disjE[OF g])
    assume "slots = coordinator tc"
    with assms(3) show ?thesis by simp
  next
    assume r: "slots = resize_slots (nat (size_tc tc + 2)) (coordinator tc)"
    with rng n have "length cs < nat (size_tc tc + 2)" by (simp add: resize_slots_def)
    with r assms(3) len show ?thesis by (simp add: resize_slots_def min_def)
  qed
  have "take (Suc (length cs)) (slots[length cs := Some c]) = take (length cs) slots @ [Some c]"
    using rng n by (simp add: take_Suc_conv_app_nth)
  with pre co dn n rng c show ?thesis by simp
qed


lemma seed_tot_sum:
  "update_total_sum (scast b) \<lparr>active_threads = 0, tot_sum = 0, dir_queue = [] @ [arg]\<rparr>
     = \<lparr>active_threads = 0, tot_sum = word_of_int (sint (b :: 64 word)), dir_queue = [arg]\<rparr>"
proof -
  have "(scast b :: 32 word) = word_of_int (sint b)" by (rule scast_eq)
  then show ?thesis by (simp add: update_total_sum_def)
qed

lemma process_argument_dir:
  assumes "\<not> is_flag_arg optind i" "lstat fs arg = Some st" "is_dictionary st"
  shows "process_argument fs optind i arg (tc, mem) =
     (case expand_and_create_coordinator (tc\<lparr>dir_num := dir_num tc + 1\<rparr>) mem of
        Inl e \<Rightarrow> Inl e
      | Inr (tc2, m2) \<Rightarrow>
          (case coordinator tc2 ! nat (dir_num tc) of
             None \<Rightarrow> Inl Undefined_behaviour
           | Some c \<Rightarrow>
               (case enqueue_path arg c m2 of
                  Inl e \<Rightarrow> Inl e
                | Inr (c1, m3) \<Rightarrow>
                    Inr (tc2\<lparr>coordinator := (coordinator tc2)
                               [nat (dir_num tc) := Some (update_total_sum (scast (st_blocks st)) c1)]\<rparr>,
                         m3))))"
  using assms
  by (simp add: process_argument_def safe_lstat_def Let_def split: sum.splits prod.splits option.splits)

lemma process_argument_other:
  assumes "is_flag_arg optind i \<or> (\<exists>st. lstat fs arg = Some st \<and> \<not> is_dictionary st)"
  shows "process_argument fs optind i arg cm = Inr cm"
  using assms by (cases cm) (auto simp add: process_argument_def safe_lstat_def Let_def)

lemma process_argument_no_stat:
  assumes "\<not> is_flag_arg optind i" "lstat fs arg = None"
  shows "process_argument fs optind i arg (tc, mem) = Inl (thread_context_destroy (Some tc) mem)"
  using assms by (simp add: process_argument_def safe_lstat_def Let_def)

lemma process_argument_seeded:
  assumes p: "process_argument fs optind i arg (tc, mem) = Inr (tc', mem')" and s: "seeded tc cs"
  shows "seeded tc' (cs @ (if \<not> is_flag_arg optind i \<and> names_directory fs arg
                           then [seed_coordinator fs arg] else []))"
proof (cases "is_flag_arg optind i")
  case True
  with p s show ?thesis by (simp add: process_argument_other)
next
  case nf: False
  show ?thesis
  proof (cases "lstat fs arg")
    case None
    with p nf show ?thesis by (simp add: process_argument_no_stat)
  next
    case (Some st)
    show ?thesis
    proof (cases "is_dictionary st")
      case False
      with p s nf Some show ?thesis
        by (simp add: process_argument_other names_directory_def)
    next
      case True
      let ?tc1 = "tc\<lparr>dir_num := dir_num tc + 1\<rparr>"
      from p obtain tc2 m2 where e: "expand_and_create_coordinator ?tc1 mem = Inr (tc2, m2)"
        unfolding process_argument_dir[OF nf Some True] by (auto split: sum.splits)
      have d1: "dir_num ?tc1 = int (length cs) + 1" using s by (simp add: seeded_def)
      have t1: "take (length cs) (coordinator ?tc1) = map Some cs" using s by (simp add: seeded_def)
      let ?c0 = "\<lparr>active_threads = 0, tot_sum = 0, dir_queue = []\<rparr>"
      from expand_Inr[OF e d1 t1] have dn2: "dir_num tc2 = int (length cs) + 1"
        and len: "length cs < length (coordinator tc2)"
        and tk: "take (Suc (length cs)) (coordinator tc2) = map Some (cs @ [?c0])"
        using d1 by simp_all
      have n: "nat (dir_num tc) = length cs" using s by (simp add: seeded_def)
      have nth: "coordinator tc2 ! length cs = Some ?c0"
      proof -
        have "take (Suc (length cs)) (coordinator tc2) ! length cs = coordinator tc2 ! length cs"
          by simp
        with tk show ?thesis by (simp add: nth_append)
      qed
      have pre: "take (length cs) (coordinator tc2) = map Some cs"
      proof -
        have "take (length cs) (take (Suc (length cs)) (coordinator tc2)) = take (length cs) (coordinator tc2)"
          by (simp add: min_def)
        with tk show ?thesis by simp
      qed
      from p obtain m3 where
        tc': "tc' = tc2\<lparr>coordinator := (coordinator tc2)
                 [length cs := Some (update_total_sum (scast (st_blocks st))
                     (?c0\<lparr>dir_queue := dir_queue ?c0 @ [arg]\<rparr>))]\<rparr>"
        unfolding process_argument_dir[OF nf Some True] e
        by (auto simp add: n nth split: sum.splits dest: enqueue_path_Inr)
      have sd: "update_total_sum (scast (st_blocks st)) (?c0\<lparr>dir_queue := dir_queue ?c0 @ [arg]\<rparr>)
                  = seed_coordinator fs arg"
        using seed_tot_sum[of "st_blocks st" arg] Some
        by (simp add: seed_coordinator_def own_blocks_def)
      have "take (Suc (length cs)) ((coordinator tc2)[length cs := Some (seed_coordinator fs arg)])
              = map Some cs @ [Some (seed_coordinator fs arg)]"
        using len pre by (simp add: take_Suc_conv_app_nth)
      with tc' sd dn2 nf Some True show ?thesis
        by (simp add: seeded_def names_directory_def)
    qed
  qed
qed

lemma traverse_from_seeded:
  assumes "traverse_from fs optind i args (tc, mem) = Inr (tc', mem')" "seeded tc cs"
  shows "seeded tc' (cs @ map (seed_coordinator fs)
                          (filter (names_directory fs) (path_args_from optind i args)))"
  using assms
proof (induction args arbitrary: i tc mem cs)
  case Nil
  then show ?case by simp
next
  case (Cons arg args)
  from Cons.prems(1) obtain tc1 m1 where
    p: "process_argument fs optind i arg (tc, mem) = Inr (tc1, m1)"
    and t: "traverse_from fs optind (i + 1) args (tc1, m1) = Inr (tc', mem')"
    by (auto split: sum.splits)
  from Cons.IH[OF t process_argument_seeded[OF p Cons.prems(2)]]
  show ?case by (auto split: if_splits)
qed

lemma those_map_Some: "those (map Some xs) = Some xs"
  by (induction xs) simp_all

lemma seeded_live: "seeded tc cs \<Longrightarrow> live_coordinators tc = Some cs"
  by (simp add: seeded_def live_coordinators_def those_map_Some)

lemma create_thread_context_seeded: "create_thread_context mem = Inr (tc, m) \<Longrightarrow> seeded tc []"
  by (auto simp add: create_thread_context_def seeded_def split: sum.splits)

lemma seeding_result:
  assumes "create_thread_context mem = Inr cm" "traverse_input_arguments fs optind argv cm = Inr (tc, m)"
  shows "live_coordinators tc = Some (map (seed_coordinator fs) (directory_arguments fs optind argv))"
proof -
  obtain tc0 m0 where cm: "cm = (tc0, m0)" by (cases cm)
  from assms(1) cm have s0: "seeded tc0 []" by (simp add: create_thread_context_seeded)
  from assms(2) cm have "traverse_from fs optind 1 (tl argv) (tc0, m0) = Inr (tc, m)"
    by (simp add: traverse_input_arguments_def)
  from traverse_from_seeded[OF this s0] show ?thesis
    by (simp add: seeded_live directory_arguments_def path_arguments_def)
qed


section \<open>The coordinator array overflows at the seventh directory\<close>

lemmas seed_step_defs = process_argument_def safe_lstat_def
  is_flag_arg_def is_dictionary_def S_IFMT_def S_IFDIR_def expand_and_create_coordinator_def
  create_coordinator_def create_counter_def safe_malloc_def safe_calloc_def safe_realloc_def
  enqueue_path_def update_total_sum_def resize_slots_def Let_def numeral_2_eq_2 numeral_3_eq_3

text \<open>
  Claim C9, at seven directory arguments. \<^verbatim>\<open>expand_and_create_coordinator\<close> reallocates to
  \<open>size + 2\<close> slots and doubles \<open>size\<close>: after the fourth directory the array has 6 slots and
  \<open>size\<close> is 8, so the sixth directory fills the array and the seventh, with \<open>size > dir_num\<close>,
  is written to slot 6 without a reallocation.
\<close>

theorem seventh_directory_overflows:
  "create_thread_context 100 = Inr (\<lparr>coordinator = [None, None], dir_num = 0, size_tc = 2\<rparr>, 98) \<and>
   traverse_input_arguments \<lparr>lstat = (\<lambda>p. Some \<lparr>st_mode = 0x41ED, st_blocks = 8\<rparr>), opendir = (\<lambda>p. Inr [])\<rparr> 1
     [''mdu'', ''a'', ''b'', ''c'', ''d'', ''e'', ''f'']
     (\<lparr>coordinator = [None, None], dir_num = 0, size_tc = 2\<rparr>, 98) =
     Inr (\<lparr>coordinator = [Some \<lparr>active_threads = 0, tot_sum = 8, dir_queue = [''a'']\<rparr>, Some \<lparr>active_threads = 0, tot_sum = 8, dir_queue = [''b'']\<rparr>, Some \<lparr>active_threads = 0, tot_sum = 8, dir_queue = [''c'']\<rparr>, Some \<lparr>active_threads = 0, tot_sum = 8, dir_queue = [''d'']\<rparr>, Some \<lparr>active_threads = 0, tot_sum = 8, dir_queue = [''e'']\<rparr>, Some \<lparr>active_threads = 0, tot_sum = 8, dir_queue = [''f'']\<rparr>], dir_num = 6, size_tc = 8\<rparr>, 66) \<and>
   traverse_input_arguments \<lparr>lstat = (\<lambda>p. Some \<lparr>st_mode = 0x41ED, st_blocks = 8\<rparr>), opendir = (\<lambda>p. Inr [])\<rparr> 1
     [''mdu'', ''a'', ''b'', ''c'', ''d'', ''e'', ''f'', ''g'']
     (\<lparr>coordinator = [None, None], dir_num = 0, size_tc = 2\<rparr>, 98) =
     Inl Undefined_behaviour"
proof -
  let ?fs = "\<lparr>lstat = (\<lambda>p. Some \<lparr>st_mode = 0x41ED, st_blocks = 8\<rparr>), opendir = (\<lambda>p. Inr [])\<rparr>"
  have s1: "process_argument ?fs 1 1 ''a'' (\<lparr>coordinator = [None, None], dir_num = 0, size_tc = 2\<rparr>, 98) =
      Inr (\<lparr>coordinator = [Some \<lparr>active_threads = 0, tot_sum = 8, dir_queue = [''a'']\<rparr>, None], dir_num = 1, size_tc = 2\<rparr>, 93)"
    by (simp add: seed_step_defs)
  have s2: "process_argument ?fs 1 2 ''b'' (\<lparr>coordinator = [Some \<lparr>active_threads = 0, tot_sum = 8, dir_queue = [''a'']\<rparr>, None], dir_num = 1, size_tc = 2\<rparr>, 93) =
      Inr (\<lparr>coordinator = [Some \<lparr>active_threads = 0, tot_sum = 8, dir_queue = [''a'']\<rparr>, Some \<lparr>active_threads = 0, tot_sum = 8, dir_queue = [''b'']\<rparr>, None, None], dir_num = 2, size_tc = 4\<rparr>, 87)"
    by (simp add: seed_step_defs)
  have s3: "process_argument ?fs 1 3 ''c'' (\<lparr>coordinator = [Some \<lparr>active_threads = 0, tot_sum = 8, dir_queue = [''a'']\<rparr>, Some \<lparr>active_threads = 0, tot_sum = 8, dir_queue = [''b'']\<rparr>, None, None], dir_num = 2, size_tc = 4\<rparr>, 87) =
      Inr (\<lparr>coordinator = [Some \<lparr>active_threads = 0, tot_sum = 8, dir_queue = [''a'']\<rparr>, Some \<lparr>active_threads = 0, tot_sum = 8, dir_queue = [''b'']\<rparr>, Some \<lparr>active_threads = 0, tot_sum = 8, dir_queue = [''c'']\<rparr>, None], dir_num = 3, size_tc = 4\<rparr>, 82)"
    by (simp add: seed_step_defs)
  have s4: "process_argument ?fs 1 4 ''d'' (\<lparr>coordinator = [Some \<lparr>active_threads = 0, tot_sum = 8, dir_queue = [''a'']\<rparr>, Some \<lparr>active_threads = 0, tot_sum = 8, dir_queue = [''b'']\<rparr>, Some \<lparr>active_threads = 0, tot_sum = 8, dir_queue = [''c'']\<rparr>, None], dir_num = 3, size_tc = 4\<rparr>, 82) =
      Inr (\<lparr>coordinator = [Some \<lparr>active_threads = 0, tot_sum = 8, dir_queue = [''a'']\<rparr>, Some \<lparr>active_threads = 0, tot_sum = 8, dir_queue = [''b'']\<rparr>, Some \<lparr>active_threads = 0, tot_sum = 8, dir_queue = [''c'']\<rparr>, Some \<lparr>active_threads = 0, tot_sum = 8, dir_queue = [''d'']\<rparr>, None, None], dir_num = 4, size_tc = 8\<rparr>, 76)"
    by (simp add: seed_step_defs)
  have s5: "process_argument ?fs 1 5 ''e'' (\<lparr>coordinator = [Some \<lparr>active_threads = 0, tot_sum = 8, dir_queue = [''a'']\<rparr>, Some \<lparr>active_threads = 0, tot_sum = 8, dir_queue = [''b'']\<rparr>, Some \<lparr>active_threads = 0, tot_sum = 8, dir_queue = [''c'']\<rparr>, Some \<lparr>active_threads = 0, tot_sum = 8, dir_queue = [''d'']\<rparr>, None, None], dir_num = 4, size_tc = 8\<rparr>, 76) =
      Inr (\<lparr>coordinator = [Some \<lparr>active_threads = 0, tot_sum = 8, dir_queue = [''a'']\<rparr>, Some \<lparr>active_threads = 0, tot_sum = 8, dir_queue = [''b'']\<rparr>, Some \<lparr>active_threads = 0, tot_sum = 8, dir_queue = [''c'']\<rparr>, Some \<lparr>active_threads = 0, tot_sum = 8, dir_queue = [''d'']\<rparr>, Some \<lparr>active_threads = 0, tot_sum = 8, dir_queue = [''e'']\<rparr>, None], dir_num = 5, size_tc = 8\<rparr>, 71)"
    by (simp add: seed_step_defs)
  have s6: "process_argument ?fs 1 6 ''f'' (\<lparr>coordinator = [Some \<lparr>active_threads = 0, tot_sum = 8, dir_queue = [''a'']\<rparr>, Some \<lparr>active_threads = 0, tot_sum = 8, dir_queue = [''b'']\<rparr>, Some \<lparr>active_threads = 0, tot_sum = 8, dir_queue = [''c'']\<rparr>, Some \<lparr>active_threads = 0, tot_sum = 8, dir_queue = [''d'']\<rparr>, Some \<lparr>active_threads = 0, tot_sum = 8, dir_queue = [''e'']\<rparr>, None], dir_num = 5, size_tc = 8\<rparr>, 71) =
      Inr (\<lparr>coordinator = [Some \<lparr>active_threads = 0, tot_sum = 8, dir_queue = [''a'']\<rparr>, Some \<lparr>active_threads = 0, tot_sum = 8, dir_queue = [''b'']\<rparr>, Some \<lparr>active_threads = 0, tot_sum = 8, dir_queue = [''c'']\<rparr>, Some \<lparr>active_threads = 0, tot_sum = 8, dir_queue = [''d'']\<rparr>, Some \<lparr>active_threads = 0, tot_sum = 8, dir_queue = [''e'']\<rparr>, Some \<lparr>active_threads = 0, tot_sum = 8, dir_queue = [''f'']\<rparr>], dir_num = 6, size_tc = 8\<rparr>, 66)"
    by (simp add: seed_step_defs)
  have s7: "process_argument ?fs 1 7 ''g'' (\<lparr>coordinator = [Some \<lparr>active_threads = 0, tot_sum = 8, dir_queue = [''a'']\<rparr>, Some \<lparr>active_threads = 0, tot_sum = 8, dir_queue = [''b'']\<rparr>, Some \<lparr>active_threads = 0, tot_sum = 8, dir_queue = [''c'']\<rparr>, Some \<lparr>active_threads = 0, tot_sum = 8, dir_queue = [''d'']\<rparr>, Some \<lparr>active_threads = 0, tot_sum = 8, dir_queue = [''e'']\<rparr>, Some \<lparr>active_threads = 0, tot_sum = 8, dir_queue = [''f'']\<rparr>], dir_num = 6, size_tc = 8\<rparr>, 66) =
      Inl Undefined_behaviour"
    by (simp add: seed_step_defs)
  have c: "create_thread_context 100 = Inr (\<lparr>coordinator = [None, None], dir_num = 0, size_tc = 2\<rparr>, 98)"
    by (simp add: create_thread_context_def safe_malloc_def safe_calloc_def)
  have six: "traverse_input_arguments ?fs 1 [''mdu'', ''a'', ''b'', ''c'', ''d'', ''e'', ''f''] (\<lparr>coordinator = [None, None], dir_num = 0, size_tc = 2\<rparr>, 98) =
     Inr (\<lparr>coordinator = [Some \<lparr>active_threads = 0, tot_sum = 8, dir_queue = [''a'']\<rparr>, Some \<lparr>active_threads = 0, tot_sum = 8, dir_queue = [''b'']\<rparr>, Some \<lparr>active_threads = 0, tot_sum = 8, dir_queue = [''c'']\<rparr>, Some \<lparr>active_threads = 0, tot_sum = 8, dir_queue = [''d'']\<rparr>, Some \<lparr>active_threads = 0, tot_sum = 8, dir_queue = [''e'']\<rparr>, Some \<lparr>active_threads = 0, tot_sum = 8, dir_queue = [''f'']\<rparr>], dir_num = 6, size_tc = 8\<rparr>, 66)"
    by (simp add: traverse_input_arguments_def s1 s2 s3 s4 s5 s6)
  have seven: "traverse_input_arguments ?fs 1 [''mdu'', ''a'', ''b'', ''c'', ''d'', ''e'', ''f'', ''g''] (\<lparr>coordinator = [None, None], dir_num = 0, size_tc = 2\<rparr>, 98) =
     Inl Undefined_behaviour"
    by (simp add: traverse_input_arguments_def s1 s2 s3 s4 s5 s6 s7)
  from c six seven show ?thesis by (intro conjI)
qed


section \<open>The number of threads\<close>

text \<open>
  Claim C3, at the option argument \<^verbatim>\<open>0\<close>. Without the option \<^verbatim>\<open>get_thread_amount\<close> returns 0.
  With \<^verbatim>\<open>-j 0\<close> the test \<^verbatim>\<open>*optarg < 1\<close> compares the character \<^verbatim>\<open>'0'\<close>, which is 48, so the function
  returns \<^verbatim>\<open>atoi("0") - 1\<close>; the loop of \<^verbatim>\<open>main\<close> then creates no thread. An argument starts
  with a character below 1 only when it is empty or its first byte is \<open>0x80\<close> or more, a negative
  \<^verbatim>\<open>char\<close>.
\<close>

theorem thread_amount_of_zero:
  "get_thread_amount [] = 0 \<and>
   get_thread_amount [(CHR ''j'', ''0'')] = - 1 \<and>
   get_thread_amount [(CHR ''j'', [])] = 0 \<and>
   get_thread_amount [(CHR ''j'', ''4'')] = 3 \<and>
   spawned_threads (get_thread_amount [(CHR ''j'', ''0'')]) = 0"
  by (simp add: first_char_def atoi_def strtol_def isspace_def isdigit_def spawned_threads_def)


section \<open>The invariants hold in every reachable state\<close>


lemma sum_list_map_update:
  fixes f :: "'a \<Rightarrow> 'b::ab_group_add"
  shows "w < length xs \<Longrightarrow> (\<Sum>x\<leftarrow>xs[w := y]. f x) = (\<Sum>x\<leftarrow>xs. f x) - f (xs ! w) + f y"
proof (induction xs arbitrary: w)
  case Nil
  then show ?case by simp
next
  case (Cons a xs)
  then show ?case by (cases w) (simp_all add: algebra_simps)
qed

lemma step_lengths:
  "step fs w s s' \<Longrightarrow>
   length (coords s') = length (coords s) \<and> length (workers s') = length (workers s)"
  by (induction rule: step.induct) (simp_all add: move_def put_def)

lemma step_running: "step fs w s s' \<Longrightarrow> proc s = Running \<and> w < length (workers s)"
  by (induction rule: step.induct) (simp_all add: at_def)

lemma step_others:
  "step fs w s s' \<Longrightarrow> v \<noteq> w \<Longrightarrow> workers s' ! v = workers s ! v"
  by (induction rule: step.induct) (simp_all add: move_def put_def)

lemma inv_lock_step:
  assumes "step fs w s s'" "inv_lock s"
  shows "inv_lock s'"
  using assms
  by (induction rule: step.induct)
     (auto simp add: inv_lock_def at_def move_def put_def nth_list_update split: option.splits)


lemma indicator_sum_nonneg: "0 \<le> (\<Sum>x\<leftarrow>xs. if P x then 1 else (0::int))"
  by (induction xs) simp_all

lemma indicator_sum_pos:
  "x \<in> set xs \<Longrightarrow> P x \<Longrightarrow> 1 \<le> (\<Sum>x\<leftarrow>xs. if P x then 1 else (0::int))"
proof (induction xs)
  case Nil
  then show ?case by simp
next
  case (Cons a xs)
  then show ?case using indicator_sum_nonneg[of P xs] by auto
qed

lemma busy_pos:
  "v < length (workers s) \<Longrightarrow> in_root i (loc (workers s ! v)) \<Longrightarrow> 1 \<le> busy s i"
  unfolding busy_def
  by (rule indicator_sum_pos[where x = "workers s ! v" and P = "\<lambda>x. in_root i (loc x)"]) simp_all

lemma busy_nonneg: "0 \<le> busy s i"
  unfolding busy_def by (rule indicator_sum_nonneg)

lemma busy_zero:
  assumes "busy s i = 0" "v < length (workers s)"
  shows "\<not> in_root i (loc (workers s ! v))"
  using busy_pos[OF assms(2), of i] assms(1) by auto

lemma process_directory_entry_counter:
  "process_directory_entry fs p sm c d = Inr (sm', c') \<Longrightarrow> active_threads c' = active_threads c"
  by (auto simp add: process_directory_entry_def split: sum.splits if_splits)

lemma inv_count_step:
  assumes "step fs w s s'" "inv_count s"
  shows "inv_count s'"
  using assms
proof (induction rule: step.induct)
  case (increment s i path)
  then show ?case
    by (auto simp add: inv_count_def at_def move_def put_def busy_def sum_list_map_update
        nth_list_update increment_counter_def)
next
  case (finish s i)
  then have "1 \<le> busy s i" by (auto simp add: at_def intro: busy_pos)
  with finish show ?case
    by (auto simp add: inv_count_def at_def move_def put_def busy_def sum_list_map_update
        nth_list_update decrement_counter_def)
next
  case (open_dir s i path directory messages errno')
  then show ?case
    by (auto simp add: inv_count_def at_def busy_def sum_list_map_update split: option.splits)
next
  case (read_entry s i path name names sm d sm' c')
  then show ?case
    by (auto simp add: inv_count_def at_def move_def put_def busy_def sum_list_map_update
        nth_list_update dest: process_directory_entry_counter)
qed (auto simp add: inv_count_def at_def move_def put_def busy_def sum_list_map_update
        nth_list_update update_total_sum_def)


lemma scan_ok_free:
  "\<not> holds_mutex l \<Longrightarrow> length cs' = length cs \<Longrightarrow> scan_ok cs l \<Longrightarrow> scan_ok cs' l"
  by (cases l) simp_all

lemma scan_ok_same:
  assumes "length cs' = length cs"
    and "\<forall>j<length cs. active_threads (cs' ! j) = active_threads (cs ! j) \<and>
                        dir_queue (cs' ! j) = dir_queue (cs ! j)"
    and "scan_ok cs l"
  shows "scan_ok cs' l"
  using assms by (cases l) (auto simp add: idle_def passed_def)

lemma scan_ok_enqueue:
  assumes "i < length cs" "0 < active_threads (cs ! i)" "active_threads c' = active_threads (cs ! i)"
    and "dir_queue c' = dir_queue (cs ! i) \<or> dir_queue c' = dir_queue (cs ! i) @ [p]"
    and "scan_ok cs l"
  shows "scan_ok (cs[i := c']) l"
  using assms by (cases l) (auto simp add: idle_def passed_def nth_list_update)

lemma process_directory_entry_queue:
  "process_directory_entry fs p sm c d = Inr (sm', c') \<Longrightarrow>
   dir_queue c' = dir_queue c \<or> dir_queue c' = dir_queue c @ [p]"
  by (auto simp add: process_directory_entry_def split: sum.splits if_splits)

lemma scan_self:
  assumes "step fs w s s'" "inv_count s" "scan_ok (coords s) (loc (workers s ! w))"
  shows "scan_ok (coords s') (loc (workers s' ! w))"
  using assms
proof (induction rule: step.induct)
  case (active_no_counter s i)
  then have "active_threads (coords s ! i) = busy s i" by (simp add: inv_count_def)
  with busy_nonneg[of s i] active_no_counter show ?case
    by (auto simp add: at_def move_def get_counter_value_def)
next
  case (active_next s i)
  then show ?case
    by (auto simp add: at_def move_def idle_def less_Suc_eq)
next
  case (work_next s i)
  then show ?case
    by (auto simp add: at_def move_def passed_def less_Suc_eq)
next
  case (take s i path rest)
  then show ?case
    by (auto simp add: at_def move_def put_def passed_def)
next
  case (open_dir s i path directory messages errno')
  then show ?case
    by (auto simp add: at_def split: option.splits)
qed (auto simp add: at_def move_def put_def passed_def)

lemma scan_other:
  assumes "step fs w s s'" "inv_lock s" "inv_count s" "inv_scan s" "v \<noteq> w" "v < length (workers s)"
  shows "scan_ok (coords s') (loc (workers s ! v))"
proof -
  have cur: "scan_ok (coords s) (loc (workers s ! v))"
    using assms(4,6) by (simp add: inv_scan_def)
  have lk: "holds_mutex (loc (workers s ! v)) \<longleftrightarrow> mutex_work s = Some v"
    using assms(2,6) by (simp add: inv_lock_def)
  have lw: "holds_mutex (loc (workers s ! w)) \<longleftrightarrow> mutex_work s = Some w"
    using assms(2) step_running[OF assms(1)] by (simp add: inv_lock_def)
  from assms(1) assms(3) cur lk lw assms(5) show ?thesis
  proof (induction rule: step.induct)
    case (take s i path rest)
    then have "\<not> holds_mutex (loc (workers s ! v))" by (auto simp add: at_def)
    with take show ?case by (auto simp add: put_def move_def intro: scan_ok_free)
  next
    case (increment s i path)
    then have "\<not> holds_mutex (loc (workers s ! v))" by (auto simp add: at_def)
    with increment show ?case by (auto simp add: put_def move_def intro: scan_ok_free)
  next
    case (finish s i)
    then have "\<not> holds_mutex (loc (workers s ! v))" by (auto simp add: at_def)
    with finish show ?case by (auto simp add: put_def move_def intro: scan_ok_free)
  next
    case (read_entry s i path name names sm d sm' c')
    have "1 \<le> busy s i" using read_entry by (auto simp add: at_def intro: busy_pos)
    then have pos: "0 < active_threads (coords s ! i)" using read_entry by (simp add: inv_count_def)
    from read_entry pos show ?case
      by (auto simp add: put_def move_def
          intro!: scan_ok_enqueue dest: process_directory_entry_counter process_directory_entry_queue)
  next
    case (read_end s i sm)
    then show ?case
      by (auto simp add: put_def move_def update_total_sum_def nth_list_update
          intro!: scan_ok_same[where cs = "coords s"])
  qed (simp_all add: move_def put_def)
qed

lemma inv_scan_step:
  assumes "step fs w s s'" "inv_lock s" "inv_count s" "inv_scan s"
  shows "inv_scan s'"
  unfolding inv_scan_def
proof (intro allI impI)
  fix v assume "v < length (workers s')"
  then have v: "v < length (workers s)" using step_lengths[OF assms(1)] by simp
  show "scan_ok (coords s') (loc (workers s' ! v))"
  proof (cases "v = w")
    case True
    have "scan_ok (coords s) (loc (workers s ! w))"
      using assms(4) v True by (simp add: inv_scan_def)
    from scan_self[OF assms(1,3) this] True show ?thesis by simp
  next
    case False
    from scan_other[OF assms False v] step_others[OF assms(1) False] show ?thesis by simp
  qed
qed


lemma carrying_holds: "carrying l \<Longrightarrow> holds_mutex l"
  by (cases l) simp_all

lemma quiet_not_in_root:
  assumes "quiet s" "inv_count s" "inv_scan s" "v < length (workers s)"
  shows "\<not> in_root i (loc (workers s ! v))"
proof
  assume r: "in_root i (loc (workers s ! v))"
  from assms(3,4) have "scan_ok (coords s) (loc (workers s ! v))" by (simp add: inv_scan_def)
  with r have i: "i < length (coords s)" by (cases "loc (workers s ! v)") auto
  from busy_pos[OF assms(4) r] i assms(2) have "1 \<le> active_threads (coords s ! i)"
    by (simp add: inv_count_def)
  with assms(1) i show False by (simp add: quiet_def idle_def)
qed

lemma inv_quiet_step:
  assumes "step fs w s s'" "inv_lock s" "inv_count s" "inv_scan s" "inv_quiet s"
  shows "inv_quiet s'"
  using assms
proof (induction rule: step.induct)
  case (active_none s i)
  have cur: "scan_ok (coords s) (Active i)"
    using active_none by (auto simp add: inv_scan_def at_def)
  with active_none have all: "\<forall>j<length (coords s). idle (coords s ! j)" by auto
  have m: "mutex_work s = Some w" using active_none by (auto simp add: inv_lock_def at_def)
  have "\<forall>v<length (workers s). v \<noteq> w \<longrightarrow> \<not> carrying (loc (workers s ! v))"
    using active_none(3) m by (auto simp add: inv_lock_def dest: carrying_holds)
  with all active_none show ?case
    by (auto simp add: inv_quiet_def quiet_def at_def move_def nth_list_update)
next
  case (take s i path rest)
  have cur: "scan_ok (coords s) (Take i)"
    using take by (auto simp add: inv_scan_def at_def)
  with take show ?case
    by (auto simp add: inv_quiet_def quiet_def at_def move_def put_def nth_list_update idle_def)
next
  case (increment s i path)
  then show ?case
    by (auto simp add: inv_quiet_def quiet_def at_def move_def put_def nth_list_update)
next
  case (open_dir s i path directory messages errno')
  then show ?case
    by (auto simp add: inv_quiet_def quiet_def at_def nth_list_update split: option.splits if_splits)
next
  case (read_entry s i path name names sm d sm' c')
  have "in_root i (loc (workers s ! w))" using read_entry by (simp add: at_def)
  moreover have "w < length (workers s)" using read_entry by (simp add: at_def)
  ultimately have nq: "\<not> quiet s" using quiet_not_in_root read_entry by blast
  with read_entry show ?case
    by (auto simp add: inv_quiet_def at_def move_def put_def nth_list_update split: if_splits)
next
  case (read_end s i sm)
  have "in_root i (loc (workers s ! w))" using read_end by (simp add: at_def)
  moreover have "w < length (workers s)" using read_end by (simp add: at_def)
  ultimately have nq: "\<not> quiet s" using quiet_not_in_root read_end by blast
  with read_end show ?case
    by (auto simp add: inv_quiet_def at_def move_def put_def nth_list_update split: if_splits)
next
  case (finish s i)
  have "in_root i (loc (workers s ! w))" using finish by (simp add: at_def)
  moreover have "w < length (workers s)" using finish by (simp add: at_def)
  ultimately have nq: "\<not> quiet s" using quiet_not_in_root finish by blast
  with finish show ?case
    by (auto simp add: inv_quiet_def at_def move_def put_def nth_list_update split: if_splits)
qed (auto simp add: inv_quiet_def quiet_def at_def move_def put_def nth_list_update split: if_splits)

lemma invariant_step: "step fs w s s' \<Longrightarrow> invariant s \<Longrightarrow> invariant s'"
  unfolding invariant_def
  using inv_lock_step inv_count_step inv_scan_step inv_quiet_step by blast

lemma invariant_fresh:
  assumes w: "\<forall>x\<in>set ws. loc x = Seek" and c: "\<forall>c\<in>set cs. active_threads c = 0"
  shows "invariant \<lparr>coords = cs, workers = ws, mutex_work = None, stderr = [], proc = Running\<rparr>"
proof -
  have z: "(\<Sum>x\<leftarrow>ws. if in_root i (loc x) then 1 else (0::int)) = 0" for i
    using w by (induction ws) simp_all
  have n: "\<forall>v<length ws. loc (ws ! v) = Seek"
    using w by simp
  from n have 1: "inv_lock \<lparr>coords = cs, workers = ws, mutex_work = None, stderr = [], proc = Running\<rparr>"
    by (simp add: inv_lock_def)
  from z c have 2: "inv_count \<lparr>coords = cs, workers = ws, mutex_work = None, stderr = [], proc = Running\<rparr>"
    by (simp add: inv_count_def busy_def)
  from n have 3: "inv_scan \<lparr>coords = cs, workers = ws, mutex_work = None, stderr = [], proc = Running\<rparr>"
    by (simp add: inv_scan_def)
  from n have 4: "inv_quiet \<lparr>coords = cs, workers = ws, mutex_work = None, stderr = [], proc = Running\<rparr>"
    by (auto simp add: inv_quiet_def)
  from 1 2 3 4 show ?thesis by (simp add: invariant_def)
qed

lemma invariant_initial:
  assumes "\<forall>c\<in>set cs. active_threads c = 0"
  shows "invariant (initial cs k)"
  unfolding initial_def by (rule invariant_fresh) (use assms in simp_all)

lemma invariant_steps: "steps fs s s' \<Longrightarrow> invariant s \<Longrightarrow> invariant s'"
  by (induction rule: steps.induct) (auto intro: invariant_step)

text \<open>The definitions a concrete step unfolds.\<close>

lemmas step_defs = at_def move_def put_def get_counter_value_def increment_counter_def
  decrement_counter_def update_total_sum_def process_directory_entry_def safe_lstat_def
  safe_opendir_def is_dictionary_def S_IFMT_def S_IFDIR_def is_dot_or_dot_dot_def
  full_path_of_def get_path_length_def int_add_defined_def


section \<open>What a worker does next\<close>

text \<open>
  The steps of a worker inside \<^verbatim>\<open>get_coordinator_with_work\<close>, location by location: which
  state comes next, and that the step can be taken.
\<close>


lemma step_Seek:
  assumes "at s w Seek"
  shows "step fs w s s' \<longleftrightarrow> mutex_work s = None \<and> s' = (move w (Active 0) s)\<lparr>mutex_work := Some w\<rparr>"
proof
  assume "step fs w s s'"
  then show "mutex_work s = None \<and> s' = (move w (Active 0) s)\<lparr>mutex_work := Some w\<rparr>"
    using assms by (cases rule: step.cases) (simp_all add: at_def)
next
  assume "mutex_work s = None \<and> s' = (move w (Active 0) s)\<lparr>mutex_work := Some w\<rparr>"
  with assms show "step fs w s s'" by (simp add: step.lock)
qed

lemma step_Waiting:
  assumes "at s w Waiting"
  shows "step fs w s s' \<longleftrightarrow> mutex_work s = None \<and> s' = (move w (Active 0) s)\<lparr>mutex_work := Some w\<rparr>"
proof
  assume "step fs w s s'"
  then show "mutex_work s = None \<and> s' = (move w (Active 0) s)\<lparr>mutex_work := Some w\<rparr>"
    using assms by (cases rule: step.cases) (simp_all add: at_def)
next
  assume "mutex_work s = None \<and> s' = (move w (Active 0) s)\<lparr>mutex_work := Some w\<rparr>"
  with assms show "step fs w s s'" by (simp add: step.wake)
qed

lemma step_Active:
  assumes "at s w (Active i)"
  shows "step fs w s s' \<longleftrightarrow>
         s' = (if i < length (coords s) then
                 (if 0 < get_counter_value (active_threads (coords s ! i)) then move w (Work 0) s
                  else move w (Active_queue i) s)
               else (move w Exiting s)\<lparr>mutex_work := None\<rparr>)"
proof
  assume "step fs w s s'"
  then show "s' = (if i < length (coords s) then
                 (if 0 < get_counter_value (active_threads (coords s ! i)) then move w (Work 0) s
                  else move w (Active_queue i) s)
               else (move w Exiting s)\<lparr>mutex_work := None\<rparr>)"
    using assms by (cases rule: step.cases) (simp_all add: at_def)
next
  assume "s' = (if i < length (coords s) then
                 (if 0 < get_counter_value (active_threads (coords s ! i)) then move w (Work 0) s
                  else move w (Active_queue i) s)
               else (move w Exiting s)\<lparr>mutex_work := None\<rparr>)"
  with assms show "step fs w s s'"
    by (simp add: step.active_counter step.active_no_counter step.active_none)
qed

lemma step_Active_queue:
  assumes "at s w (Active_queue i)" "i < length (coords s)"
  shows "step fs w s s' \<longleftrightarrow>
         s' = (if dir_queue (coords s ! i) \<noteq> [] then move w (Work 0) s
               else move w (Active (Suc i)) s)"
proof
  assume "step fs w s s'"
  then show "s' = (if dir_queue (coords s ! i) \<noteq> [] then move w (Work 0) s
               else move w (Active (Suc i)) s)"
    using assms by (cases rule: step.cases) (simp_all add: at_def)
next
  assume "s' = (if dir_queue (coords s ! i) \<noteq> [] then move w (Work 0) s
               else move w (Active (Suc i)) s)"
  with assms show "step fs w s s'"
    by (simp add: step.active_queue step.active_next)
qed

lemma step_Work:
  assumes "at s w (Work i)"
  shows "step fs w s s' \<longleftrightarrow>
         s' = (if i < length (coords s) then
                 (if dir_queue (coords s ! i) \<noteq> [] then move w (Take i) s
                  else move w (Work (Suc i)) s)
               else (move w Waiting s)\<lparr>mutex_work := None\<rparr>)"
proof
  assume "step fs w s s'"
  then show "s' = (if i < length (coords s) then
                 (if dir_queue (coords s ! i) \<noteq> [] then move w (Take i) s
                  else move w (Work (Suc i)) s)
               else (move w Waiting s)\<lparr>mutex_work := None\<rparr>)"
    using assms by (cases rule: step.cases) (simp_all add: at_def)
next
  assume "s' = (if i < length (coords s) then
                 (if dir_queue (coords s ! i) \<noteq> [] then move w (Take i) s
                  else move w (Work (Suc i)) s)
               else (move w Waiting s)\<lparr>mutex_work := None\<rparr>)"
  with assms show "step fs w s s'"
    by (simp add: step.work_found step.work_next step.work_none)
qed

lemma step_Take:
  assumes "at s w (Take i)" "i < length (coords s)" "dir_queue (coords s ! i) \<noteq> []"
  shows "step fs w s s' \<longleftrightarrow>
         s' = move w (Increment i (hd (dir_queue (coords s ! i))))
                (put i ((coords s ! i)\<lparr>dir_queue := tl (dir_queue (coords s ! i))\<rparr>) s) \<or>
         s' = s\<lparr>proc := Ended Undefined_behaviour\<rparr>"
proof
  assume "step fs w s s'"
  then show "s' = move w (Increment i (hd (dir_queue (coords s ! i))))
                (put i ((coords s ! i)\<lparr>dir_queue := tl (dir_queue (coords s ! i))\<rparr>) s) \<or>
         s' = s\<lparr>proc := Ended Undefined_behaviour\<rparr>"
    using assms by (cases rule: step.cases) (auto simp add: at_def clone_string_def)
next
  obtain path rest where q: "dir_queue (coords s ! i) = path # rest"
    using assms(3) by (cases "dir_queue (coords s ! i)") simp_all
  assume "s' = move w (Increment i (hd (dir_queue (coords s ! i))))
                (put i ((coords s ! i)\<lparr>dir_queue := tl (dir_queue (coords s ! i))\<rparr>) s) \<or>
         s' = s\<lparr>proc := Ended Undefined_behaviour\<rparr>"
  then show "step fs w s s'"
  proof
    assume "s' = move w (Increment i (hd (dir_queue (coords s ! i))))
                (put i ((coords s ! i)\<lparr>dir_queue := tl (dir_queue (coords s ! i))\<rparr>) s)"
    then show ?thesis using step.take[OF assms(1,2) q, of fs] q by simp
  next
    have c: "clone_string False path = Inl Undefined_behaviour" by (simp add: clone_string_def)
    assume "s' = s\<lparr>proc := Ended Undefined_behaviour\<rparr>"
    then show ?thesis using step.no_memory_copy[OF assms(1,2) q c, of fs] by simp
  qed
qed

lemma step_Increment:
  assumes "at s w (Increment i path)" "i < length (coords s)"
  shows "step fs w s s' \<longleftrightarrow>
         s' = (move w (Open_dir i path)
                 (put i ((coords s ! i)\<lparr>active_threads :=
                            increment_counter (active_threads (coords s ! i))\<rparr>) s))
              \<lparr>mutex_work := None\<rparr>"
proof
  assume "step fs w s s'"
  then show "s' = (move w (Open_dir i path)
                 (put i ((coords s ! i)\<lparr>active_threads :=
                            increment_counter (active_threads (coords s ! i))\<rparr>) s))
              \<lparr>mutex_work := None\<rparr>"
    using assms by (cases rule: step.cases) (simp_all add: at_def)
next
  assume "s' = (move w (Open_dir i path)
                 (put i ((coords s ! i)\<lparr>active_threads :=
                            increment_counter (active_threads (coords s ! i))\<rparr>) s))
              \<lparr>mutex_work := None\<rparr>"
  with assms show "step fs w s s'" by (simp add: step.increment)
qed


section \<open>Dispatch and termination (\<^verbatim>\<open>get_coordinator_with_work\<close>)\<close>

subsection \<open>One call, run alone\<close>


lemma move_move: "w < length (workers s) \<Longrightarrow> move w l (move w l' s) = move w l s"
  by (simp add: move_def)

lemma move_fields:
  "coords (move w l s) = coords s" "mutex_work (move w l s) = mutex_work s"
  "proc (move w l s) = proc s" "length (workers (move w l s)) = length (workers s)"
  "stderr (move w l s) = stderr s"
  by (simp_all add: move_def)

lemma at_move: "proc s = Running \<Longrightarrow> w < length (workers s) \<Longrightarrow> at (move w l s) w l"
  by (simp add: at_def move_def)

lemma alone_trans: "alone fs w s s' \<Longrightarrow> alone fs w s' s'' \<Longrightarrow> alone fs w s s''"
  by (induction rule: alone.induct) (auto intro: alone.intros)

lemma alone_step: "step fs w s s' \<Longrightarrow> alone fs w s s'"
  by (auto intro: alone.intros)

lemma steps_trans: "steps fs s' s'' \<Longrightarrow> steps fs s s' \<Longrightarrow> steps fs s s''"
  by (induction rule: steps.induct) (auto intro: steps.intros)

lemma alone_steps: "alone fs w s s' \<Longrightarrow> steps fs s s'"
proof (induction rule: alone.induct)
  case (stay s)
  show ?case by (rule steps.here)
next
  case (go s s' s'')
  have "steps fs s s'" by (rule steps.further[OF steps.here go(1)])
  from steps_trans[OF go(3) this] show ?case .
qed

lemma scan_active:
  assumes "proc s = Running" "w < length (workers s)" "j < length (coords s)"
    and "\<forall>k<j. \<not> 0 < active_threads (coords s ! k) \<and> dir_queue (coords s ! k) = []"
    and "0 < active_threads (coords s ! j) \<or> dir_queue (coords s ! j) \<noteq> []"
    and "i \<le> j"
  shows "alone fs w (move w (Active i) s) (move w (Work 0) s)"
  using assms(6)
proof (induction "j - i" arbitrary: i)
  case 0
  then have ij: "i = j" by simp
  let ?a = "move w (Active j) s"
  have a: "at ?a w (Active j)" using assms(1,2) by (rule at_move)
  show ?case
  proof (cases "0 < active_threads (coords s ! j)")
    case True
    have "step fs w ?a (move w (Work 0) s)"
      using True assms(3)
      by (simp add: step_Active[OF a] move_fields move_move[OF assms(2)] get_counter_value_def)
    then show ?thesis unfolding ij by (rule alone_step)
  next
    case False
    let ?q = "move w (Active_queue j) s"
    have q: "at ?q w (Active_queue j)" using assms(1,2) by (rule at_move)
    have 1: "step fs w ?a ?q"
      using False assms(3)
      by (simp add: step_Active[OF a] move_fields move_move[OF assms(2)] get_counter_value_def)
    have ne: "dir_queue (coords s ! j) \<noteq> []" using False assms(5) by simp
    have 2: "step fs w ?q (move w (Work 0) s)"
      using ne assms(3) by (simp add: step_Active_queue[OF q] move_fields move_move[OF assms(2)])
    show ?thesis unfolding ij by (rule alone.go[OF 1 alone_step[OF 2]])
  qed
next
  case (Suc n)
  then have lt: "i < j" by simp
  let ?a = "move w (Active i) s"
  let ?q = "move w (Active_queue i) s"
  have a: "at ?a w (Active i)" using assms(1,2) by (rule at_move)
  have q: "at ?q w (Active_queue i)" using assms(1,2) by (rule at_move)
  have il: "i < length (coords s)" using lt assms(3) by simp
  have e: "\<not> 0 < active_threads (coords s ! i)" "dir_queue (coords s ! i) = []"
    using lt assms(4) by simp_all
  have 1: "step fs w ?a ?q"
    using e il by (simp add: step_Active[OF a] move_fields move_move[OF assms(2)] get_counter_value_def)
  have 2: "step fs w ?q (move w (Active (Suc i)) s)"
    using e il by (simp add: step_Active_queue[OF q] move_fields move_move[OF assms(2)])
  have "n = j - Suc i" using Suc(2) by simp
  from Suc(1)[OF this] lt have 3: "alone fs w (move w (Active (Suc i)) s) (move w (Work 0) s)"
    by simp
  show ?case by (rule alone.go[OF 1 alone.go[OF 2 3]])
qed

lemma scan_active_none:
  assumes "proc s = Running" "w < length (workers s)"
    and "\<forall>k<length (coords s). \<not> 0 < active_threads (coords s ! k) \<and> dir_queue (coords s ! k) = []"
    and "i \<le> length (coords s)"
  shows "alone fs w (move w (Active i) s) ((move w Exiting s)\<lparr>mutex_work := None\<rparr>)"
  using assms(4)
proof (induction "length (coords s) - i" arbitrary: i)
  case 0
  then have il: "\<not> i < length (coords s)" by simp
  let ?a = "move w (Active i) s"
  have a: "at ?a w (Active i)" using assms(1,2) by (rule at_move)
  have "step fs w ?a ((move w Exiting s)\<lparr>mutex_work := None\<rparr>)"
    using il by (simp add: step_Active[OF a] move_fields move_move[OF assms(2)])
  then show ?case by (rule alone_step)
next
  case (Suc n)
  then have il: "i < length (coords s)" by simp
  let ?a = "move w (Active i) s"
  let ?q = "move w (Active_queue i) s"
  have a: "at ?a w (Active i)" using assms(1,2) by (rule at_move)
  have q: "at ?q w (Active_queue i)" using assms(1,2) by (rule at_move)
  have e: "\<not> 0 < active_threads (coords s ! i)" "dir_queue (coords s ! i) = []"
    using il assms(3) by simp_all
  have 1: "step fs w ?a ?q"
    using e il by (simp add: step_Active[OF a] move_fields move_move[OF assms(2)] get_counter_value_def)
  have 2: "step fs w ?q (move w (Active (Suc i)) s)"
    using e il by (simp add: step_Active_queue[OF q] move_fields move_move[OF assms(2)])
  have "n = length (coords s) - Suc i" using Suc(2) by simp
  from Suc(1)[OF this] il
  have 3: "alone fs w (move w (Active (Suc i)) s) ((move w Exiting s)\<lparr>mutex_work := None\<rparr>)"
    by simp
  show ?case by (rule alone.go[OF 1 alone.go[OF 2 3]])
qed

lemma scan_work:
  assumes "proc s = Running" "w < length (workers s)" "first_with_work (coords s) j" and "i \<le> j"
  shows "alone fs w (move w (Work i) s) (move w (Take j) s)"
  using assms(4)
proof (induction "j - i" arbitrary: i)
  case 0
  then have ij: "i = j" by simp
  let ?a = "move w (Work j) s"
  have a: "at ?a w (Work j)" using assms(1,2) by (rule at_move)
  have "step fs w ?a (move w (Take j) s)"
    using assms(3) by (simp add: step_Work[OF a] move_fields move_move[OF assms(2)] first_with_work_def)
  then show ?case unfolding ij by (rule alone_step)
next
  case (Suc n)
  then have lt: "i < j" by simp
  let ?a = "move w (Work i) s"
  have a: "at ?a w (Work i)" using assms(1,2) by (rule at_move)
  have 1: "step fs w ?a (move w (Work (Suc i)) s)"
    using assms(3) lt by (simp add: step_Work[OF a] move_fields move_move[OF assms(2)] first_with_work_def)
  have "n = j - Suc i" using Suc(2) by simp
  from Suc(1)[OF this] lt have 3: "alone fs w (move w (Work (Suc i)) s) (move w (Take j) s)"
    by simp
  show ?case by (rule alone.go[OF 1 3])
qed

lemma scan_work_none:
  assumes "proc s = Running" "w < length (workers s)"
    and "\<forall>k<length (coords s). dir_queue (coords s ! k) = []"
    and "i \<le> length (coords s)"
  shows "alone fs w (move w (Work i) s) ((move w Waiting s)\<lparr>mutex_work := None\<rparr>)"
  using assms(4)
proof (induction "length (coords s) - i" arbitrary: i)
  case 0
  then have il: "\<not> i < length (coords s)" by simp
  let ?a = "move w (Work i) s"
  have a: "at ?a w (Work i)" using assms(1,2) by (rule at_move)
  have "step fs w ?a ((move w Waiting s)\<lparr>mutex_work := None\<rparr>)"
    using il by (simp add: step_Work[OF a] move_fields move_move[OF assms(2)])
  then show ?case by (rule alone_step)
next
  case (Suc n)
  then have il: "i < length (coords s)" by simp
  let ?a = "move w (Work i) s"
  have a: "at ?a w (Work i)" using assms(1,2) by (rule at_move)
  have 1: "step fs w ?a (move w (Work (Suc i)) s)"
    using assms(3) il by (simp add: step_Work[OF a] move_fields move_move[OF assms(2)])
  have "n = length (coords s) - Suc i" using Suc(2) by simp
  from Suc(1)[OF this] il
  have 3: "alone fs w (move w (Work (Suc i)) s) ((move w Waiting s)\<lparr>mutex_work := None\<rparr>)"
    by simp
  show ?case by (rule alone.go[OF 1 3])
qed


lemma move_mutex: "(move w l s)\<lparr>mutex_work := m\<rparr> = move w l (s\<lparr>mutex_work := m\<rparr>)"
  by (simp add: move_def)

lemma call_locks:
  assumes "at s w Seek \<or> at s w Waiting" "mutex_work s = None"
  shows "step fs w s (move w (Active 0) (s\<lparr>mutex_work := Some w\<rparr>))"
  using assms by (auto simp add: step_Seek step_Waiting move_mutex)

lemma call_takes:
  assumes "at s w Seek \<or> at s w Waiting" "mutex_work s = None" "first_with_work (coords s) j"
  shows "alone fs w s
           (move w (Open_dir j (hd (dir_queue (coords s ! j))))
              (put j ((coords s ! j)\<lparr>dir_queue := tl (dir_queue (coords s ! j)),
                                     active_threads := active_threads (coords s ! j) + 1\<rparr>) s))"
proof -
  let ?b = "s\<lparr>mutex_work := Some w\<rparr>"
  let ?P = "\<lambda>k. 0 < active_threads (coords s ! k) \<or> dir_queue (coords s ! k) \<noteq> []"
  let ?q = "dir_queue (coords s ! j)"
  from assms(1) have r: "proc ?b = Running" "w < length (workers ?b)" by (auto simp add: at_def)
  from assms(3) have j: "j < length (coords s)" "?q \<noteq> []" by (simp_all add: first_with_work_def)
  have Pj: "?P j" using j by simp
  define j0 where "j0 = (LEAST k. ?P k)"
  have P0: "?P j0" unfolding j0_def using Pj by (rule LeastI)
  have le: "j0 \<le> j" unfolding j0_def using Pj by (rule Least_le)
  have below: "\<forall>k<j0. \<not> 0 < active_threads (coords ?b ! k) \<and> dir_queue (coords ?b ! k) = []"
  proof (intro allI impI)
    fix k assume "k < j0"
    then have "\<not> ?P k" unfolding j0_def by (rule not_less_Least)
    then show "\<not> 0 < active_threads (coords ?b ! k) \<and> dir_queue (coords ?b ! k) = []" by simp
  qed
  have j0l: "j0 < length (coords ?b)" using le j by simp
  have P0b: "0 < active_threads (coords ?b ! j0) \<or> dir_queue (coords ?b ! j0) \<noteq> []"
    using P0 by simp
  have f: "first_with_work (coords ?b) j" using assms(3) by simp
  have 1: "step fs w s (move w (Active 0) ?b)" using assms(1,2) by (rule call_locks)
  have 2: "alone fs w (move w (Active 0) ?b) (move w (Work 0) ?b)"
    by (rule scan_active[OF r j0l below P0b]) simp
  have 3: "alone fs w (move w (Work 0) ?b) (move w (Take j) ?b)"
    by (rule scan_work[OF r f]) simp
  let ?t = "move w (Take j) ?b"
  let ?i = "move w (Increment j (hd ?q)) (put j ((coords s ! j)\<lparr>dir_queue := tl ?q\<rparr>) ?b)"
  have at_t: "at ?t w (Take j)" using r by (rule at_move)
  have jt: "j < length (coords ?t)" "dir_queue (coords ?t ! j) \<noteq> []"
    using j by (simp_all add: move_fields)
  have ei: "move w (Increment j (hd (dir_queue (coords ?t ! j))))
              (put j ((coords ?t ! j)\<lparr>dir_queue := tl (dir_queue (coords ?t ! j))\<rparr>) ?t) = ?i"
    using r by (simp add: move_def put_def)
  have 4: "step fs w ?t ?i"
    using step_Take[OF at_t jt, of fs ?i] ei by simp
  have at_i: "at ?i w (Increment j (hd ?q))" using r by (simp add: at_def move_def put_def)
  have ji: "j < length (coords ?i)" using j by (simp add: move_def put_def)
  let ?o = "move w (Open_dir j (hd ?q))
              (put j ((coords s ! j)\<lparr>dir_queue := tl ?q,
                                     active_threads := active_threads (coords s ! j) + 1\<rparr>) s)"
  have eo: "(move w (Open_dir j (hd ?q))
               (put j ((coords ?i ! j)\<lparr>active_threads :=
                          increment_counter (active_threads (coords ?i ! j))\<rparr>) ?i))
            \<lparr>mutex_work := None\<rparr> = ?o"
    using r j assms(2) by (cases s) (simp add: move_def put_def increment_counter_def)
  have 5: "step fs w ?i ?o"
    using step_Increment[OF at_i ji, of fs ?o] eo by simp
  have "alone fs w ?t ?o" by (rule alone.go[OF 4 alone_step[OF 5]])
  from alone.go[OF 1 alone_trans[OF 2 alone_trans[OF 3 this]]] show ?thesis .
qed

lemma call_waits:
  assumes "at s w Seek \<or> at s w Waiting" "mutex_work s = None"
    and "\<forall>c \<in> set (coords s). dir_queue c = []" "\<exists>c \<in> set (coords s). 0 < active_threads c"
  shows "alone fs w s (move w Waiting s)"
proof -
  let ?b = "s\<lparr>mutex_work := Some w\<rparr>"
  let ?P = "\<lambda>k. k < length (coords s) \<and> 0 < active_threads (coords s ! k)"
  from assms(1) have r: "proc ?b = Running" "w < length (workers ?b)" by (auto simp add: at_def)
  from assms(4) obtain j where Pj: "?P j" by (auto simp add: in_set_conv_nth)
  define j0 where "j0 = (LEAST k. ?P k)"
  have P0: "?P j0" unfolding j0_def using Pj by (rule LeastI)
  have em: "\<forall>k<length (coords ?b). dir_queue (coords ?b ! k) = []" using assms(3) by simp
  have below: "\<forall>k<j0. \<not> 0 < active_threads (coords ?b ! k) \<and> dir_queue (coords ?b ! k) = []"
  proof (intro allI impI)
    fix k assume k: "k < j0"
    then have "\<not> ?P k" unfolding j0_def by (rule not_less_Least)
    moreover have "k < length (coords s)" using k P0 by simp
    ultimately show "\<not> 0 < active_threads (coords ?b ! k) \<and> dir_queue (coords ?b ! k) = []"
      using assms(3) by simp
  qed
  have j0l: "j0 < length (coords ?b)" using P0 by simp
  have P0b: "0 < active_threads (coords ?b ! j0) \<or> dir_queue (coords ?b ! j0) \<noteq> []"
    using P0 by simp
  have 1: "step fs w s (move w (Active 0) ?b)" using assms(1,2) by (rule call_locks)
  have 2: "alone fs w (move w (Active 0) ?b) (move w (Work 0) ?b)"
    by (rule scan_active[OF r j0l below P0b]) simp
  have 3: "alone fs w (move w (Work 0) ?b) ((move w Waiting ?b)\<lparr>mutex_work := None\<rparr>)"
    by (rule scan_work_none[OF r em]) simp
  have e: "(move w Waiting ?b)\<lparr>mutex_work := None\<rparr> = move w Waiting s"
    using assms(2) by (cases s) (simp add: move_def)
  from alone.go[OF 1 alone_trans[OF 2 3]] show ?thesis unfolding e .
qed

lemma call_returns_null:
  assumes "at s w Seek \<or> at s w Waiting" "mutex_work s = None"
    and "\<forall>c \<in> set (coords s). idle c"
  shows "alone fs w s (move w Exiting s)"
proof -
  let ?b = "s\<lparr>mutex_work := Some w\<rparr>"
  from assms(1) have r: "proc ?b = Running" "w < length (workers ?b)" by (auto simp add: at_def)
  have em: "\<forall>k<length (coords ?b). \<not> 0 < active_threads (coords ?b ! k) \<and>
                                     dir_queue (coords ?b ! k) = []"
    using assms(3) by (simp add: idle_def)
  have 1: "step fs w s (move w (Active 0) ?b)" using assms(1,2) by (rule call_locks)
  have 2: "alone fs w (move w (Active 0) ?b) ((move w Exiting ?b)\<lparr>mutex_work := None\<rparr>)"
    by (rule scan_active_none[OF r em]) simp
  have e: "(move w Exiting ?b)\<lparr>mutex_work := None\<rparr> = move w Exiting s"
    using assms(2) by (cases s) (simp add: move_def)
  from alone.go[OF 1 2] show ?thesis unfolding e .
qed


subsection \<open>Under any interleaving\<close>

lemma located:
  assumes "proc s = Running" "w < length (workers s)" "loc (workers s ! w) = l"
  shows "at s w l"
  using assms by (simp add: at_def)

lemma holds_the_mutex:
  assumes "invariant s" "w < length (workers s)" "holds_mutex (loc (workers s ! w))"
  shows "mutex_work s = Some w"
  using assms by (simp add: invariant_def inv_lock_def)

lemma scanned:
  assumes "invariant s" "w < length (workers s)"
  shows "scan_ok (coords s) (loc (workers s ! w))"
  using assms by (simp add: invariant_def inv_scan_def)

lemma protocol_seek:
  assumes "proc s = Running" "w < length (workers s)"
  shows "(loc (workers s ! w) = Seek \<or> loc (workers s ! w) = Waiting \<longrightarrow>
      (\<forall>s'. step fs w s s' \<longleftrightarrow>
         mutex_work s = None \<and> s' = (move w (Active 0) s)\<lparr>mutex_work := Some w\<rparr>) \<and>
      (mutex_work s = None \<longrightarrow>
         (\<forall>j. first_with_work (coords s) j \<longrightarrow>
            alone fs w s
              (move w (Open_dir j (hd (dir_queue (coords s ! j))))
                 (put j ((coords s ! j)\<lparr>dir_queue := tl (dir_queue (coords s ! j)),
                                        active_threads := active_threads (coords s ! j) + 1\<rparr>) s))) \<and>
         ((\<forall>c \<in> set (coords s). dir_queue c = []) \<and> (\<exists>c \<in> set (coords s). 0 < active_threads c) \<longrightarrow>
            alone fs w s (move w Waiting s)) \<and>
         ((\<forall>c \<in> set (coords s). idle c) \<longrightarrow> alone fs w s (move w Exiting s))))"
proof (intro impI conjI allI)
  fix s'
  assume l: "loc (workers s ! w) = Seek \<or> loc (workers s ! w) = Waiting"
  then have a: "at s w Seek \<or> at s w Waiting" using assms by (auto simp add: at_def)
  then show "step fs w s s' \<longleftrightarrow>
         mutex_work s = None \<and> s' = (move w (Active 0) s)\<lparr>mutex_work := Some w\<rparr>"
    using step_Seek[of s w fs s'] step_Waiting[of s w fs s'] by blast
next
  fix j
  assume l: "loc (workers s ! w) = Seek \<or> loc (workers s ! w) = Waiting"
    and m: "mutex_work s = None" and f: "first_with_work (coords s) j"
  from l have a: "at s w Seek \<or> at s w Waiting" using assms by (auto simp add: at_def)
  from a m f show "alone fs w s
              (move w (Open_dir j (hd (dir_queue (coords s ! j))))
                 (put j ((coords s ! j)\<lparr>dir_queue := tl (dir_queue (coords s ! j)),
                                        active_threads := active_threads (coords s ! j) + 1\<rparr>) s))"
    by (rule call_takes)
next
  assume l: "loc (workers s ! w) = Seek \<or> loc (workers s ! w) = Waiting"
    and m: "mutex_work s = None"
    and e: "(\<forall>c \<in> set (coords s). dir_queue c = []) \<and> (\<exists>c \<in> set (coords s). 0 < active_threads c)"
  from l have a: "at s w Seek \<or> at s w Waiting" using assms by (auto simp add: at_def)
  from a m conjunct1[OF e] conjunct2[OF e] show "alone fs w s (move w Waiting s)"
    by (rule call_waits)
next
  assume l: "loc (workers s ! w) = Seek \<or> loc (workers s ! w) = Waiting"
    and m: "mutex_work s = None" and e: "\<forall>c \<in> set (coords s). idle c"
  from l have a: "at s w Seek \<or> at s w Waiting" using assms by (auto simp add: at_def)
  from a m e show "alone fs w s (move w Exiting s)" by (rule call_returns_null)
qed

lemma protocol_active:
  assumes "invariant s" "proc s = Running" "w < length (workers s)"
  shows "(\<forall>i. loc (workers s ! w) = Active i \<longrightarrow>
      mutex_work s = Some w \<and> (\<forall>j<i. idle (coords s ! j)) \<and>
      (\<forall>s'. step fs w s s' \<longleftrightarrow>
         s' = (if i < length (coords s) then
                 (if 0 < get_counter_value (active_threads (coords s ! i)) then move w (Work 0) s
                  else move w (Active_queue i) s)
               else (move w Exiting s)\<lparr>mutex_work := None\<rparr>)))"
proof (intro allI impI conjI)
  fix i assume l: "loc (workers s ! w) = Active i"
  from holds_the_mutex[OF assms(1,3)] l show "mutex_work s = Some w" by simp
next
  fix i j assume l: "loc (workers s ! w) = Active i" and j: "j < i"
  from scanned[OF assms(1,3)] l j show "idle (coords s ! j)" by simp
next
  fix i s' assume l: "loc (workers s ! w) = Active i"
  from step_Active[OF located[OF assms(2,3) l]]
  show "step fs w s s' \<longleftrightarrow>
         s' = (if i < length (coords s) then
                 (if 0 < get_counter_value (active_threads (coords s ! i)) then move w (Work 0) s
                  else move w (Active_queue i) s)
               else (move w Exiting s)\<lparr>mutex_work := None\<rparr>)" .
qed

lemma protocol_active_queue:
  assumes "invariant s" "proc s = Running" "w < length (workers s)"
  shows "(\<forall>i. loc (workers s ! w) = Active_queue i \<longrightarrow>
      mutex_work s = Some w \<and> (\<forall>j<i. idle (coords s ! j)) \<and>
      (\<forall>s'. step fs w s s' \<longleftrightarrow>
         s' = (if dir_queue (coords s ! i) \<noteq> [] then move w (Work 0) s
               else move w (Active (Suc i)) s)))"
proof (intro allI impI conjI)
  fix i assume l: "loc (workers s ! w) = Active_queue i"
  from holds_the_mutex[OF assms(1,3)] l show "mutex_work s = Some w" by simp
next
  fix i j assume l: "loc (workers s ! w) = Active_queue i" and j: "j < i"
  from scanned[OF assms(1,3)] l j show "idle (coords s ! j)" by simp
next
  fix i s' assume l: "loc (workers s ! w) = Active_queue i"
  from scanned[OF assms(1,3)] l have i: "i < length (coords s)" by simp
  from step_Active_queue[OF located[OF assms(2,3) l] i]
  show "step fs w s s' \<longleftrightarrow>
         s' = (if dir_queue (coords s ! i) \<noteq> [] then move w (Work 0) s
               else move w (Active (Suc i)) s)" .
qed

lemma protocol_work:
  assumes "invariant s" "proc s = Running" "w < length (workers s)"
  shows "(\<forall>i. loc (workers s ! w) = Work i \<longrightarrow>
      mutex_work s = Some w \<and>
      (\<forall>j<i. dir_queue (coords s ! j) = [] \<or> 0 < active_threads (coords s ! j)) \<and>
      (\<forall>s'. step fs w s s' \<longleftrightarrow>
         s' = (if i < length (coords s) then
                 (if dir_queue (coords s ! i) \<noteq> [] then move w (Take i) s
                  else move w (Work (Suc i)) s)
               else (move w Waiting s)\<lparr>mutex_work := None\<rparr>)))"
proof (intro allI impI conjI)
  fix i assume l: "loc (workers s ! w) = Work i"
  from holds_the_mutex[OF assms(1,3)] l show "mutex_work s = Some w" by simp
next
  fix i j assume l: "loc (workers s ! w) = Work i" and j: "j < i"
  from scanned[OF assms(1,3)] l j
  show "dir_queue (coords s ! j) = [] \<or> 0 < active_threads (coords s ! j)"
    by (simp add: passed_def)
next
  fix i s' assume l: "loc (workers s ! w) = Work i"
  from step_Work[OF located[OF assms(2,3) l]]
  show "step fs w s s' \<longleftrightarrow>
         s' = (if i < length (coords s) then
                 (if dir_queue (coords s ! i) \<noteq> [] then move w (Take i) s
                  else move w (Work (Suc i)) s)
               else (move w Waiting s)\<lparr>mutex_work := None\<rparr>)" .
qed

lemma protocol_take:
  assumes "invariant s" "proc s = Running" "w < length (workers s)"
  shows "(\<forall>i. loc (workers s ! w) = Take i \<longrightarrow>
      mutex_work s = Some w \<and> i < length (coords s) \<and> dir_queue (coords s ! i) \<noteq> [] \<and>
      (\<forall>j<i. dir_queue (coords s ! j) = [] \<or> 0 < active_threads (coords s ! j)) \<and>
      (\<forall>s'. step fs w s s' \<longleftrightarrow>
         s' = move w (Increment i (hd (dir_queue (coords s ! i))))
                (put i ((coords s ! i)\<lparr>dir_queue := tl (dir_queue (coords s ! i))\<rparr>) s) \<or>
         s' = s\<lparr>proc := Ended Undefined_behaviour\<rparr>))"
proof (intro allI impI conjI)
  fix i assume l: "loc (workers s ! w) = Take i"
  from holds_the_mutex[OF assms(1,3)] l show "mutex_work s = Some w" by simp
next
  fix i assume l: "loc (workers s ! w) = Take i"
  from scanned[OF assms(1,3)] l show "i < length (coords s)" by simp
next
  fix i assume l: "loc (workers s ! w) = Take i"
  from scanned[OF assms(1,3)] l show "dir_queue (coords s ! i) \<noteq> []" by simp
next
  fix i j assume l: "loc (workers s ! w) = Take i" and j: "j < i"
  from scanned[OF assms(1,3)] l j
  show "dir_queue (coords s ! j) = [] \<or> 0 < active_threads (coords s ! j)"
    by (simp add: passed_def)
next
  fix i s' assume l: "loc (workers s ! w) = Take i"
  from scanned[OF assms(1,3)] l have i: "i < length (coords s)" "dir_queue (coords s ! i) \<noteq> []"
    by simp_all
  from step_Take[OF located[OF assms(2,3) l] i]
  show "step fs w s s' \<longleftrightarrow>
         s' = move w (Increment i (hd (dir_queue (coords s ! i))))
                (put i ((coords s ! i)\<lparr>dir_queue := tl (dir_queue (coords s ! i))\<rparr>) s) \<or>
         s' = s\<lparr>proc := Ended Undefined_behaviour\<rparr>" .
qed

lemma protocol_increment:
  assumes "invariant s" "proc s = Running" "w < length (workers s)"
  shows "(\<forall>i path. loc (workers s ! w) = Increment i path \<longrightarrow>
      mutex_work s = Some w \<and> i < length (coords s) \<and>
      (\<forall>s'. step fs w s s' \<longleftrightarrow>
         s' = (move w (Open_dir i path)
                 (put i ((coords s ! i)\<lparr>active_threads :=
                            increment_counter (active_threads (coords s ! i))\<rparr>) s))
              \<lparr>mutex_work := None\<rparr>))"
proof (intro allI impI conjI)
  fix i path assume l: "loc (workers s ! w) = Increment i path"
  from holds_the_mutex[OF assms(1,3)] l show "mutex_work s = Some w" by simp
next
  fix i path assume l: "loc (workers s ! w) = Increment i path"
  from scanned[OF assms(1,3)] l show "i < length (coords s)" by simp
next
  fix i path s' assume l: "loc (workers s ! w) = Increment i path"
  from scanned[OF assms(1,3)] l have i: "i < length (coords s)" by simp
  from step_Increment[OF located[OF assms(2,3) l] i]
  show "step fs w s s' \<longleftrightarrow>
         s' = (move w (Open_dir i path)
                 (put i ((coords s ! i)\<lparr>active_threads :=
                            increment_counter (active_threads (coords s ! i))\<rparr>) s))
              \<lparr>mutex_work := None\<rparr>" .
qed

lemma returns_null:
  assumes "step fs w s s'" "invariant s"
    "loc (workers s ! w) \<noteq> Exiting" "loc (workers s' ! w) = Exiting"
  shows "mutex_work s = Some w \<and> mutex_work s' = None \<and> coords s' = coords s \<and>
         (\<forall>i<length (coords s). active_threads (coords s ! i) = 0 \<and> dir_queue (coords s ! i) = [])"
  using assms
proof (induction rule: step.induct)
  case (active_none s i)
  have "scan_ok (coords s) (Active i)"
    using active_none by (auto simp add: invariant_def inv_scan_def at_def)
  moreover have "mutex_work s = Some w"
    using active_none by (auto simp add: invariant_def inv_lock_def at_def)
  ultimately show ?case using active_none by (auto simp add: idle_def move_def)
next
  case (open_dir s i path directory messages errno')
  then show ?case by (auto simp add: at_def split: option.splits)
qed (auto simp add: at_def move_def put_def)

lemma protocol_null:
  assumes "invariant s"
  shows "(\<forall>s'. step fs w s s' \<and> loc (workers s ! w) \<noteq> Exiting \<and> loc (workers s' ! w) = Exiting \<longrightarrow>
      mutex_work s = Some w \<and> mutex_work s' = None \<and> coords s' = coords s \<and>
      (\<forall>i<length (coords s). active_threads (coords s ! i) = 0 \<and> dir_queue (coords s ! i) = []))"
  using returns_null[OF _ assms] by blast

text \<open>
  Claim C2, as the program has it. One call of \<^verbatim>\<open>get_coordinator_with_work\<close> that runs from the
  lock without another worker moving takes the head of the queue of the first root whose
  queue is not empty, adds one to the counter of that root and leaves, the mutex released,
  with that root and path; it ends in \<^verbatim>\<open>pthread_cond_wait\<close>, the mutex released and nothing
  changed, when no queue holds a path and some counter is positive; it returns \<^verbatim>\<open>NULL\<close> when
  every root has counter 0 and an empty queue. Whatever the other workers do meanwhile, in
  every state the workers can reach: each step of the call can be taken and leads to the
  one state given here (\<^verbatim>\<open>queue_dequeue\<close> apart, whose allocation may fail); the worker holds
  \<^verbatim>\<open>mutex_work\<close> from the lock to the increment; a queue it has passed in the scan of
  \<^verbatim>\<open>get_non_empty_coordinator\<close> is empty or belongs to a root whose counter is positive, so the
  root it takes from is the first one its scan found with work, not always the first with
  work when it dequeues; a wait ends at the head of the loop, with the mutex held; and
  \<^verbatim>\<open>NULL\<close> is returned only from a state, the mutex held, in which every root has counter 0
  and an empty queue.
\<close>

theorem get_coordinator_with_work_protocol:
  assumes "\<forall>c\<in>set cs. active_threads c = 0" and "steps fs (initial cs k) s"
    and "proc s = Running" and "w < length (workers s)"
  shows "(loc (workers s ! w) = Seek \<or> loc (workers s ! w) = Waiting \<longrightarrow>
      (\<forall>s'. step fs w s s' \<longleftrightarrow>
         mutex_work s = None \<and> s' = (move w (Active 0) s)\<lparr>mutex_work := Some w\<rparr>) \<and>
      (mutex_work s = None \<longrightarrow>
         (\<forall>j. first_with_work (coords s) j \<longrightarrow>
            alone fs w s
              (move w (Open_dir j (hd (dir_queue (coords s ! j))))
                 (put j ((coords s ! j)\<lparr>dir_queue := tl (dir_queue (coords s ! j)),
                                        active_threads := active_threads (coords s ! j) + 1\<rparr>) s))) \<and>
         ((\<forall>c \<in> set (coords s). dir_queue c = []) \<and> (\<exists>c \<in> set (coords s). 0 < active_threads c) \<longrightarrow>
            alone fs w s (move w Waiting s)) \<and>
         ((\<forall>c \<in> set (coords s). idle c) \<longrightarrow> alone fs w s (move w Exiting s)))) \<and>
   (\<forall>i. loc (workers s ! w) = Active i \<longrightarrow>
      mutex_work s = Some w \<and> (\<forall>j<i. idle (coords s ! j)) \<and>
      (\<forall>s'. step fs w s s' \<longleftrightarrow>
         s' = (if i < length (coords s) then
                 (if 0 < get_counter_value (active_threads (coords s ! i)) then move w (Work 0) s
                  else move w (Active_queue i) s)
               else (move w Exiting s)\<lparr>mutex_work := None\<rparr>))) \<and>
   (\<forall>i. loc (workers s ! w) = Active_queue i \<longrightarrow>
      mutex_work s = Some w \<and> (\<forall>j<i. idle (coords s ! j)) \<and>
      (\<forall>s'. step fs w s s' \<longleftrightarrow>
         s' = (if dir_queue (coords s ! i) \<noteq> [] then move w (Work 0) s
               else move w (Active (Suc i)) s))) \<and>
   (\<forall>i. loc (workers s ! w) = Work i \<longrightarrow>
      mutex_work s = Some w \<and>
      (\<forall>j<i. dir_queue (coords s ! j) = [] \<or> 0 < active_threads (coords s ! j)) \<and>
      (\<forall>s'. step fs w s s' \<longleftrightarrow>
         s' = (if i < length (coords s) then
                 (if dir_queue (coords s ! i) \<noteq> [] then move w (Take i) s
                  else move w (Work (Suc i)) s)
               else (move w Waiting s)\<lparr>mutex_work := None\<rparr>))) \<and>
   (\<forall>i. loc (workers s ! w) = Take i \<longrightarrow>
      mutex_work s = Some w \<and> i < length (coords s) \<and> dir_queue (coords s ! i) \<noteq> [] \<and>
      (\<forall>j<i. dir_queue (coords s ! j) = [] \<or> 0 < active_threads (coords s ! j)) \<and>
      (\<forall>s'. step fs w s s' \<longleftrightarrow>
         s' = move w (Increment i (hd (dir_queue (coords s ! i))))
                (put i ((coords s ! i)\<lparr>dir_queue := tl (dir_queue (coords s ! i))\<rparr>) s) \<or>
         s' = s\<lparr>proc := Ended Undefined_behaviour\<rparr>)) \<and>
   (\<forall>i path. loc (workers s ! w) = Increment i path \<longrightarrow>
      mutex_work s = Some w \<and> i < length (coords s) \<and>
      (\<forall>s'. step fs w s s' \<longleftrightarrow>
         s' = (move w (Open_dir i path)
                 (put i ((coords s ! i)\<lparr>active_threads :=
                            increment_counter (active_threads (coords s ! i))\<rparr>) s))
              \<lparr>mutex_work := None\<rparr>)) \<and>
   (\<forall>s'. step fs w s s' \<and> loc (workers s ! w) \<noteq> Exiting \<and> loc (workers s' ! w) = Exiting \<longrightarrow>
      mutex_work s = Some w \<and> mutex_work s' = None \<and> coords s' = coords s \<and>
      (\<forall>i<length (coords s). active_threads (coords s ! i) = 0 \<and> dir_queue (coords s ! i) = []))"
proof -
  have inv: "invariant s"
    using invariant_steps[OF assms(2) invariant_initial[OF assms(1)]] .
  from protocol_seek[OF assms(3,4)] protocol_active[OF inv assms(3,4)]
    protocol_active_queue[OF inv assms(3,4)] protocol_work[OF inv assms(3,4)]
    protocol_take[OF inv assms(3,4)] protocol_increment[OF inv assms(3,4)] protocol_null[OF inv]
  show ?thesis by (intro conjI)
qed

theorem get_coordinator_with_work_protocol_witness:
  "steps \<lparr>lstat = (\<lambda>p. if p = ''R'' then Some \<lparr>st_mode = 0x41ED, st_blocks = 8\<rparr> else if p = ''T'' then Some \<lparr>st_mode = 0x41ED, st_blocks = 8\<rparr> else None), opendir = (\<lambda>p. if p = ''R'' then Inr [''.'', ''..''] else if p = ''T'' then Inr [''.'', ''..''] else Inl ENOTDIR)\<rparr>
     (initial (map (seed_coordinator \<lparr>lstat = (\<lambda>p. if p = ''R'' then Some \<lparr>st_mode = 0x41ED, st_blocks = 8\<rparr> else if p = ''T'' then Some \<lparr>st_mode = 0x41ED, st_blocks = 8\<rparr> else None), opendir = (\<lambda>p. if p = ''R'' then Inr [''.'', ''..''] else if p = ''T'' then Inr [''.'', ''..''] else Inl ENOTDIR)\<rparr>) [''R'', ''T'']) 2)
     \<lparr>coords = [\<lparr>active_threads = 0, tot_sum = 8, dir_queue = [''R'']\<rparr>, \<lparr>active_threads = 0, tot_sum = 8, dir_queue = [''T'']\<rparr>], workers = [\<lparr>loc = Take 0, errno = 0\<rparr>, \<lparr>loc = Seek, errno = 0\<rparr>, \<lparr>loc = Seek, errno = 0\<rparr>], mutex_work = Some 0, stderr = [], proc = Running\<rparr> \<and>
   step \<lparr>lstat = (\<lambda>p. if p = ''R'' then Some \<lparr>st_mode = 0x41ED, st_blocks = 8\<rparr> else if p = ''T'' then Some \<lparr>st_mode = 0x41ED, st_blocks = 8\<rparr> else None), opendir = (\<lambda>p. if p = ''R'' then Inr [''.'', ''..''] else if p = ''T'' then Inr [''.'', ''..''] else Inl ENOTDIR)\<rparr> 0
     \<lparr>coords = [\<lparr>active_threads = 0, tot_sum = 8, dir_queue = [''R'']\<rparr>, \<lparr>active_threads = 0, tot_sum = 8, dir_queue = [''T'']\<rparr>], workers = [\<lparr>loc = Take 0, errno = 0\<rparr>, \<lparr>loc = Seek, errno = 0\<rparr>, \<lparr>loc = Seek, errno = 0\<rparr>], mutex_work = Some 0, stderr = [], proc = Running\<rparr>
     \<lparr>coords = [\<lparr>active_threads = 0, tot_sum = 8, dir_queue = []\<rparr>, \<lparr>active_threads = 0, tot_sum = 8, dir_queue = [''T'']\<rparr>], workers = [\<lparr>loc = Increment 0 ''R'', errno = 0\<rparr>, \<lparr>loc = Seek, errno = 0\<rparr>, \<lparr>loc = Seek, errno = 0\<rparr>], mutex_work = Some 0, stderr = [], proc = Running\<rparr> \<and>
   step \<lparr>lstat = (\<lambda>p. if p = ''R'' then Some \<lparr>st_mode = 0x41ED, st_blocks = 8\<rparr> else if p = ''T'' then Some \<lparr>st_mode = 0x41ED, st_blocks = 8\<rparr> else None), opendir = (\<lambda>p. if p = ''R'' then Inr [''.'', ''..''] else if p = ''T'' then Inr [''.'', ''..''] else Inl ENOTDIR)\<rparr> 0
     \<lparr>coords = [\<lparr>active_threads = 0, tot_sum = 8, dir_queue = []\<rparr>, \<lparr>active_threads = 0, tot_sum = 8, dir_queue = [''T'']\<rparr>], workers = [\<lparr>loc = Increment 0 ''R'', errno = 0\<rparr>, \<lparr>loc = Seek, errno = 0\<rparr>, \<lparr>loc = Seek, errno = 0\<rparr>], mutex_work = Some 0, stderr = [], proc = Running\<rparr>
     \<lparr>coords = [\<lparr>active_threads = 1, tot_sum = 8, dir_queue = []\<rparr>, \<lparr>active_threads = 0, tot_sum = 8, dir_queue = [''T'']\<rparr>], workers = [\<lparr>loc = Open_dir 0 ''R'', errno = 0\<rparr>, \<lparr>loc = Seek, errno = 0\<rparr>, \<lparr>loc = Seek, errno = 0\<rparr>], mutex_work = None, stderr = [], proc = Running\<rparr> \<and>
   first_with_work (coords \<lparr>coords = [\<lparr>active_threads = 1, tot_sum = 8, dir_queue = []\<rparr>, \<lparr>active_threads = 0, tot_sum = 8, dir_queue = [''T'']\<rparr>], workers = [\<lparr>loc = Open_dir 0 ''R'', errno = 0\<rparr>, \<lparr>loc = Seek, errno = 0\<rparr>, \<lparr>loc = Seek, errno = 0\<rparr>], mutex_work = None, stderr = [], proc = Running\<rparr>) 1 \<and>
   alone \<lparr>lstat = (\<lambda>p. if p = ''R'' then Some \<lparr>st_mode = 0x41ED, st_blocks = 8\<rparr> else if p = ''T'' then Some \<lparr>st_mode = 0x41ED, st_blocks = 8\<rparr> else None), opendir = (\<lambda>p. if p = ''R'' then Inr [''.'', ''..''] else if p = ''T'' then Inr [''.'', ''..''] else Inl ENOTDIR)\<rparr> 1
     \<lparr>coords = [\<lparr>active_threads = 1, tot_sum = 8, dir_queue = []\<rparr>, \<lparr>active_threads = 0, tot_sum = 8, dir_queue = [''T'']\<rparr>], workers = [\<lparr>loc = Open_dir 0 ''R'', errno = 0\<rparr>, \<lparr>loc = Seek, errno = 0\<rparr>, \<lparr>loc = Seek, errno = 0\<rparr>], mutex_work = None, stderr = [], proc = Running\<rparr>
     \<lparr>coords = [\<lparr>active_threads = 1, tot_sum = 8, dir_queue = []\<rparr>, \<lparr>active_threads = 1, tot_sum = 8, dir_queue = []\<rparr>], workers = [\<lparr>loc = Open_dir 0 ''R'', errno = 0\<rparr>, \<lparr>loc = Open_dir 1 ''T'', errno = 0\<rparr>, \<lparr>loc = Seek, errno = 0\<rparr>], mutex_work = None, stderr = [], proc = Running\<rparr> \<and>
   alone \<lparr>lstat = (\<lambda>p. if p = ''R'' then Some \<lparr>st_mode = 0x41ED, st_blocks = 8\<rparr> else if p = ''T'' then Some \<lparr>st_mode = 0x41ED, st_blocks = 8\<rparr> else None), opendir = (\<lambda>p. if p = ''R'' then Inr [''.'', ''..''] else if p = ''T'' then Inr [''.'', ''..''] else Inl ENOTDIR)\<rparr> 2
     \<lparr>coords = [\<lparr>active_threads = 1, tot_sum = 8, dir_queue = []\<rparr>, \<lparr>active_threads = 1, tot_sum = 8, dir_queue = []\<rparr>], workers = [\<lparr>loc = Open_dir 0 ''R'', errno = 0\<rparr>, \<lparr>loc = Open_dir 1 ''T'', errno = 0\<rparr>, \<lparr>loc = Seek, errno = 0\<rparr>], mutex_work = None, stderr = [], proc = Running\<rparr>
     \<lparr>coords = [\<lparr>active_threads = 1, tot_sum = 8, dir_queue = []\<rparr>, \<lparr>active_threads = 1, tot_sum = 8, dir_queue = []\<rparr>], workers = [\<lparr>loc = Open_dir 0 ''R'', errno = 0\<rparr>, \<lparr>loc = Open_dir 1 ''T'', errno = 0\<rparr>, \<lparr>loc = Waiting, errno = 0\<rparr>], mutex_work = None, stderr = [], proc = Running\<rparr> \<and>
   steps \<lparr>lstat = (\<lambda>p. if p = ''R'' then Some \<lparr>st_mode = 0x41ED, st_blocks = 8\<rparr> else if p = ''T'' then Some \<lparr>st_mode = 0x41ED, st_blocks = 8\<rparr> else None), opendir = (\<lambda>p. if p = ''R'' then Inr [''.'', ''..''] else if p = ''T'' then Inr [''.'', ''..''] else Inl ENOTDIR)\<rparr>
     (initial (map (seed_coordinator \<lparr>lstat = (\<lambda>p. if p = ''R'' then Some \<lparr>st_mode = 0x41ED, st_blocks = 8\<rparr> else if p = ''T'' then Some \<lparr>st_mode = 0x41ED, st_blocks = 8\<rparr> else None), opendir = (\<lambda>p. if p = ''R'' then Inr [''.'', ''..''] else if p = ''T'' then Inr [''.'', ''..''] else Inl ENOTDIR)\<rparr>) [''R'', ''T'']) 2)
     \<lparr>coords = [\<lparr>active_threads = 0, tot_sum = 8, dir_queue = []\<rparr>, \<lparr>active_threads = 0, tot_sum = 8, dir_queue = []\<rparr>], workers = [\<lparr>loc = Seek, errno = 0\<rparr>, \<lparr>loc = Seek, errno = 0\<rparr>, \<lparr>loc = Waiting, errno = 0\<rparr>], mutex_work = None, stderr = [], proc = Running\<rparr> \<and>
   alone \<lparr>lstat = (\<lambda>p. if p = ''R'' then Some \<lparr>st_mode = 0x41ED, st_blocks = 8\<rparr> else if p = ''T'' then Some \<lparr>st_mode = 0x41ED, st_blocks = 8\<rparr> else None), opendir = (\<lambda>p. if p = ''R'' then Inr [''.'', ''..''] else if p = ''T'' then Inr [''.'', ''..''] else Inl ENOTDIR)\<rparr> 2
     \<lparr>coords = [\<lparr>active_threads = 0, tot_sum = 8, dir_queue = []\<rparr>, \<lparr>active_threads = 0, tot_sum = 8, dir_queue = []\<rparr>], workers = [\<lparr>loc = Seek, errno = 0\<rparr>, \<lparr>loc = Seek, errno = 0\<rparr>, \<lparr>loc = Waiting, errno = 0\<rparr>], mutex_work = None, stderr = [], proc = Running\<rparr>
     \<lparr>coords = [\<lparr>active_threads = 0, tot_sum = 8, dir_queue = []\<rparr>, \<lparr>active_threads = 0, tot_sum = 8, dir_queue = []\<rparr>], workers = [\<lparr>loc = Seek, errno = 0\<rparr>, \<lparr>loc = Seek, errno = 0\<rparr>, \<lparr>loc = Exiting, errno = 0\<rparr>], mutex_work = None, stderr = [], proc = Running\<rparr>"
proof -
  let ?fs = "\<lparr>lstat = (\<lambda>p. if p = ''R'' then Some \<lparr>st_mode = 0x41ED, st_blocks = 8\<rparr> else if p = ''T'' then Some \<lparr>st_mode = 0x41ED, st_blocks = 8\<rparr> else None), opendir = (\<lambda>p. if p = ''R'' then Inr [''.'', ''..''] else if p = ''T'' then Inr [''.'', ''..''] else Inl ENOTDIR)\<rparr>"
  let ?s0 = "\<lparr>coords = [\<lparr>active_threads = 0, tot_sum = 8, dir_queue = [''R'']\<rparr>, \<lparr>active_threads = 0, tot_sum = 8, dir_queue = [''T'']\<rparr>], workers = [\<lparr>loc = Seek, errno = 0\<rparr>, \<lparr>loc = Seek, errno = 0\<rparr>, \<lparr>loc = Seek, errno = 0\<rparr>], mutex_work = None, stderr = [], proc = Running\<rparr>"
  let ?s1 = "\<lparr>coords = [\<lparr>active_threads = 0, tot_sum = 8, dir_queue = [''R'']\<rparr>, \<lparr>active_threads = 0, tot_sum = 8, dir_queue = [''T'']\<rparr>], workers = [\<lparr>loc = Active 0, errno = 0\<rparr>, \<lparr>loc = Seek, errno = 0\<rparr>, \<lparr>loc = Seek, errno = 0\<rparr>], mutex_work = Some 0, stderr = [], proc = Running\<rparr>"
  let ?s2 = "\<lparr>coords = [\<lparr>active_threads = 0, tot_sum = 8, dir_queue = [''R'']\<rparr>, \<lparr>active_threads = 0, tot_sum = 8, dir_queue = [''T'']\<rparr>], workers = [\<lparr>loc = Active_queue 0, errno = 0\<rparr>, \<lparr>loc = Seek, errno = 0\<rparr>, \<lparr>loc = Seek, errno = 0\<rparr>], mutex_work = Some 0, stderr = [], proc = Running\<rparr>"
  let ?s3 = "\<lparr>coords = [\<lparr>active_threads = 0, tot_sum = 8, dir_queue = [''R'']\<rparr>, \<lparr>active_threads = 0, tot_sum = 8, dir_queue = [''T'']\<rparr>], workers = [\<lparr>loc = Work 0, errno = 0\<rparr>, \<lparr>loc = Seek, errno = 0\<rparr>, \<lparr>loc = Seek, errno = 0\<rparr>], mutex_work = Some 0, stderr = [], proc = Running\<rparr>"
  let ?s4 = "\<lparr>coords = [\<lparr>active_threads = 0, tot_sum = 8, dir_queue = [''R'']\<rparr>, \<lparr>active_threads = 0, tot_sum = 8, dir_queue = [''T'']\<rparr>], workers = [\<lparr>loc = Take 0, errno = 0\<rparr>, \<lparr>loc = Seek, errno = 0\<rparr>, \<lparr>loc = Seek, errno = 0\<rparr>], mutex_work = Some 0, stderr = [], proc = Running\<rparr>"
  let ?s5 = "\<lparr>coords = [\<lparr>active_threads = 0, tot_sum = 8, dir_queue = []\<rparr>, \<lparr>active_threads = 0, tot_sum = 8, dir_queue = [''T'']\<rparr>], workers = [\<lparr>loc = Increment 0 ''R'', errno = 0\<rparr>, \<lparr>loc = Seek, errno = 0\<rparr>, \<lparr>loc = Seek, errno = 0\<rparr>], mutex_work = Some 0, stderr = [], proc = Running\<rparr>"
  let ?s6 = "\<lparr>coords = [\<lparr>active_threads = 1, tot_sum = 8, dir_queue = []\<rparr>, \<lparr>active_threads = 0, tot_sum = 8, dir_queue = [''T'']\<rparr>], workers = [\<lparr>loc = Open_dir 0 ''R'', errno = 0\<rparr>, \<lparr>loc = Seek, errno = 0\<rparr>, \<lparr>loc = Seek, errno = 0\<rparr>], mutex_work = None, stderr = [], proc = Running\<rparr>"
  let ?s7 = "\<lparr>coords = [\<lparr>active_threads = 1, tot_sum = 8, dir_queue = []\<rparr>, \<lparr>active_threads = 0, tot_sum = 8, dir_queue = [''T'']\<rparr>], workers = [\<lparr>loc = Open_dir 0 ''R'', errno = 0\<rparr>, \<lparr>loc = Active 0, errno = 0\<rparr>, \<lparr>loc = Seek, errno = 0\<rparr>], mutex_work = Some 1, stderr = [], proc = Running\<rparr>"
  let ?s8 = "\<lparr>coords = [\<lparr>active_threads = 1, tot_sum = 8, dir_queue = []\<rparr>, \<lparr>active_threads = 0, tot_sum = 8, dir_queue = [''T'']\<rparr>], workers = [\<lparr>loc = Open_dir 0 ''R'', errno = 0\<rparr>, \<lparr>loc = Work 0, errno = 0\<rparr>, \<lparr>loc = Seek, errno = 0\<rparr>], mutex_work = Some 1, stderr = [], proc = Running\<rparr>"
  let ?s9 = "\<lparr>coords = [\<lparr>active_threads = 1, tot_sum = 8, dir_queue = []\<rparr>, \<lparr>active_threads = 0, tot_sum = 8, dir_queue = [''T'']\<rparr>], workers = [\<lparr>loc = Open_dir 0 ''R'', errno = 0\<rparr>, \<lparr>loc = Work 1, errno = 0\<rparr>, \<lparr>loc = Seek, errno = 0\<rparr>], mutex_work = Some 1, stderr = [], proc = Running\<rparr>"
  let ?s10 = "\<lparr>coords = [\<lparr>active_threads = 1, tot_sum = 8, dir_queue = []\<rparr>, \<lparr>active_threads = 0, tot_sum = 8, dir_queue = [''T'']\<rparr>], workers = [\<lparr>loc = Open_dir 0 ''R'', errno = 0\<rparr>, \<lparr>loc = Take 1, errno = 0\<rparr>, \<lparr>loc = Seek, errno = 0\<rparr>], mutex_work = Some 1, stderr = [], proc = Running\<rparr>"
  let ?s11 = "\<lparr>coords = [\<lparr>active_threads = 1, tot_sum = 8, dir_queue = []\<rparr>, \<lparr>active_threads = 0, tot_sum = 8, dir_queue = []\<rparr>], workers = [\<lparr>loc = Open_dir 0 ''R'', errno = 0\<rparr>, \<lparr>loc = Increment 1 ''T'', errno = 0\<rparr>, \<lparr>loc = Seek, errno = 0\<rparr>], mutex_work = Some 1, stderr = [], proc = Running\<rparr>"
  let ?s12 = "\<lparr>coords = [\<lparr>active_threads = 1, tot_sum = 8, dir_queue = []\<rparr>, \<lparr>active_threads = 1, tot_sum = 8, dir_queue = []\<rparr>], workers = [\<lparr>loc = Open_dir 0 ''R'', errno = 0\<rparr>, \<lparr>loc = Open_dir 1 ''T'', errno = 0\<rparr>, \<lparr>loc = Seek, errno = 0\<rparr>], mutex_work = None, stderr = [], proc = Running\<rparr>"
  let ?s13 = "\<lparr>coords = [\<lparr>active_threads = 1, tot_sum = 8, dir_queue = []\<rparr>, \<lparr>active_threads = 1, tot_sum = 8, dir_queue = []\<rparr>], workers = [\<lparr>loc = Open_dir 0 ''R'', errno = 0\<rparr>, \<lparr>loc = Open_dir 1 ''T'', errno = 0\<rparr>, \<lparr>loc = Active 0, errno = 0\<rparr>], mutex_work = Some 2, stderr = [], proc = Running\<rparr>"
  let ?s14 = "\<lparr>coords = [\<lparr>active_threads = 1, tot_sum = 8, dir_queue = []\<rparr>, \<lparr>active_threads = 1, tot_sum = 8, dir_queue = []\<rparr>], workers = [\<lparr>loc = Open_dir 0 ''R'', errno = 0\<rparr>, \<lparr>loc = Open_dir 1 ''T'', errno = 0\<rparr>, \<lparr>loc = Work 0, errno = 0\<rparr>], mutex_work = Some 2, stderr = [], proc = Running\<rparr>"
  let ?s15 = "\<lparr>coords = [\<lparr>active_threads = 1, tot_sum = 8, dir_queue = []\<rparr>, \<lparr>active_threads = 1, tot_sum = 8, dir_queue = []\<rparr>], workers = [\<lparr>loc = Open_dir 0 ''R'', errno = 0\<rparr>, \<lparr>loc = Open_dir 1 ''T'', errno = 0\<rparr>, \<lparr>loc = Work 1, errno = 0\<rparr>], mutex_work = Some 2, stderr = [], proc = Running\<rparr>"
  let ?s16 = "\<lparr>coords = [\<lparr>active_threads = 1, tot_sum = 8, dir_queue = []\<rparr>, \<lparr>active_threads = 1, tot_sum = 8, dir_queue = []\<rparr>], workers = [\<lparr>loc = Open_dir 0 ''R'', errno = 0\<rparr>, \<lparr>loc = Open_dir 1 ''T'', errno = 0\<rparr>, \<lparr>loc = Work 2, errno = 0\<rparr>], mutex_work = Some 2, stderr = [], proc = Running\<rparr>"
  let ?s17 = "\<lparr>coords = [\<lparr>active_threads = 1, tot_sum = 8, dir_queue = []\<rparr>, \<lparr>active_threads = 1, tot_sum = 8, dir_queue = []\<rparr>], workers = [\<lparr>loc = Open_dir 0 ''R'', errno = 0\<rparr>, \<lparr>loc = Open_dir 1 ''T'', errno = 0\<rparr>, \<lparr>loc = Waiting, errno = 0\<rparr>], mutex_work = None, stderr = [], proc = Running\<rparr>"
  let ?s18 = "\<lparr>coords = [\<lparr>active_threads = 1, tot_sum = 8, dir_queue = []\<rparr>, \<lparr>active_threads = 1, tot_sum = 8, dir_queue = []\<rparr>], workers = [\<lparr>loc = Read_dir 0 ''R'' [''.'', ''..''] 0, errno = 0\<rparr>, \<lparr>loc = Open_dir 1 ''T'', errno = 0\<rparr>, \<lparr>loc = Waiting, errno = 0\<rparr>], mutex_work = None, stderr = [], proc = Running\<rparr>"
  let ?s19 = "\<lparr>coords = [\<lparr>active_threads = 1, tot_sum = 8, dir_queue = []\<rparr>, \<lparr>active_threads = 1, tot_sum = 8, dir_queue = []\<rparr>], workers = [\<lparr>loc = Read_dir 0 ''R'' [''..''] 0, errno = 0\<rparr>, \<lparr>loc = Open_dir 1 ''T'', errno = 0\<rparr>, \<lparr>loc = Waiting, errno = 0\<rparr>], mutex_work = None, stderr = [], proc = Running\<rparr>"
  let ?s20 = "\<lparr>coords = [\<lparr>active_threads = 1, tot_sum = 8, dir_queue = []\<rparr>, \<lparr>active_threads = 1, tot_sum = 8, dir_queue = []\<rparr>], workers = [\<lparr>loc = Read_dir 0 ''R'' [] 0, errno = 0\<rparr>, \<lparr>loc = Open_dir 1 ''T'', errno = 0\<rparr>, \<lparr>loc = Waiting, errno = 0\<rparr>], mutex_work = None, stderr = [], proc = Running\<rparr>"
  let ?s21 = "\<lparr>coords = [\<lparr>active_threads = 1, tot_sum = 8, dir_queue = []\<rparr>, \<lparr>active_threads = 1, tot_sum = 8, dir_queue = []\<rparr>], workers = [\<lparr>loc = Finish 0, errno = 0\<rparr>, \<lparr>loc = Open_dir 1 ''T'', errno = 0\<rparr>, \<lparr>loc = Waiting, errno = 0\<rparr>], mutex_work = None, stderr = [], proc = Running\<rparr>"
  let ?s22 = "\<lparr>coords = [\<lparr>active_threads = 0, tot_sum = 8, dir_queue = []\<rparr>, \<lparr>active_threads = 1, tot_sum = 8, dir_queue = []\<rparr>], workers = [\<lparr>loc = Seek, errno = 0\<rparr>, \<lparr>loc = Open_dir 1 ''T'', errno = 0\<rparr>, \<lparr>loc = Waiting, errno = 0\<rparr>], mutex_work = None, stderr = [], proc = Running\<rparr>"
  let ?s23 = "\<lparr>coords = [\<lparr>active_threads = 0, tot_sum = 8, dir_queue = []\<rparr>, \<lparr>active_threads = 1, tot_sum = 8, dir_queue = []\<rparr>], workers = [\<lparr>loc = Seek, errno = 0\<rparr>, \<lparr>loc = Read_dir 1 ''T'' [''.'', ''..''] 0, errno = 0\<rparr>, \<lparr>loc = Waiting, errno = 0\<rparr>], mutex_work = None, stderr = [], proc = Running\<rparr>"
  let ?s24 = "\<lparr>coords = [\<lparr>active_threads = 0, tot_sum = 8, dir_queue = []\<rparr>, \<lparr>active_threads = 1, tot_sum = 8, dir_queue = []\<rparr>], workers = [\<lparr>loc = Seek, errno = 0\<rparr>, \<lparr>loc = Read_dir 1 ''T'' [''..''] 0, errno = 0\<rparr>, \<lparr>loc = Waiting, errno = 0\<rparr>], mutex_work = None, stderr = [], proc = Running\<rparr>"
  let ?s25 = "\<lparr>coords = [\<lparr>active_threads = 0, tot_sum = 8, dir_queue = []\<rparr>, \<lparr>active_threads = 1, tot_sum = 8, dir_queue = []\<rparr>], workers = [\<lparr>loc = Seek, errno = 0\<rparr>, \<lparr>loc = Read_dir 1 ''T'' [] 0, errno = 0\<rparr>, \<lparr>loc = Waiting, errno = 0\<rparr>], mutex_work = None, stderr = [], proc = Running\<rparr>"
  let ?s26 = "\<lparr>coords = [\<lparr>active_threads = 0, tot_sum = 8, dir_queue = []\<rparr>, \<lparr>active_threads = 1, tot_sum = 8, dir_queue = []\<rparr>], workers = [\<lparr>loc = Seek, errno = 0\<rparr>, \<lparr>loc = Finish 1, errno = 0\<rparr>, \<lparr>loc = Waiting, errno = 0\<rparr>], mutex_work = None, stderr = [], proc = Running\<rparr>"
  let ?s27 = "\<lparr>coords = [\<lparr>active_threads = 0, tot_sum = 8, dir_queue = []\<rparr>, \<lparr>active_threads = 0, tot_sum = 8, dir_queue = []\<rparr>], workers = [\<lparr>loc = Seek, errno = 0\<rparr>, \<lparr>loc = Seek, errno = 0\<rparr>, \<lparr>loc = Waiting, errno = 0\<rparr>], mutex_work = None, stderr = [], proc = Running\<rparr>"
  have sr0: "steps ?fs ?s0 ?s0" by (rule steps.here)
  have se1: "(move 0 (Active 0) (?s0))\<lparr>mutex_work := Some 0\<rparr> = ?s1"
    by (simp add: step_defs)
  have "step ?fs 0 ?s0 ((move 0 (Active 0) (?s0))\<lparr>mutex_work := Some 0\<rparr>)"
    by (rule step.lock) (simp_all add: step_defs)
  then have st1: "step ?fs 0 ?s0 ?s1"
    unfolding se1 .
  have sr1: "steps ?fs ?s0 ?s1" by (rule steps.further[OF sr0 st1])
  have se2: "move 0 (Active_queue 0) (?s1) = ?s2"
    by (simp add: step_defs)
  have "step ?fs 0 ?s1 (move 0 (Active_queue 0) (?s1))"
    by (rule step.active_no_counter[where i = 0]) (simp_all add: step_defs)
  then have st2: "step ?fs 0 ?s1 ?s2"
    unfolding se2 .
  have sr2: "steps ?fs ?s0 ?s2" by (rule steps.further[OF sr1 st2])
  have se3: "move 0 (Work 0) (?s2) = ?s3"
    by (simp add: step_defs)
  have "step ?fs 0 ?s2 (move 0 (Work 0) (?s2))"
    by (rule step.active_queue[where i = 0]) (simp_all add: step_defs)
  then have st3: "step ?fs 0 ?s2 ?s3"
    unfolding se3 .
  have sr3: "steps ?fs ?s0 ?s3" by (rule steps.further[OF sr2 st3])
  have se4: "move 0 (Take 0) (?s3) = ?s4"
    by (simp add: step_defs)
  have "step ?fs 0 ?s3 (move 0 (Take 0) (?s3))"
    by (rule step.work_found[where i = 0]) (simp_all add: step_defs)
  then have st4: "step ?fs 0 ?s3 ?s4"
    unfolding se4 .
  have sr4: "steps ?fs ?s0 ?s4" by (rule steps.further[OF sr3 st4])
  have se5: "move 0 (Increment 0 ''R'') (put 0 ((coords ?s4 ! 0)\<lparr>dir_queue := []\<rparr>) ?s4) = ?s5"
    by (simp add: step_defs)
  have "step ?fs 0 ?s4 (move 0 (Increment 0 ''R'') (put 0 ((coords ?s4 ! 0)\<lparr>dir_queue := []\<rparr>) ?s4))"
    by (rule step.take[where i = 0 and path = "''R''" and rest = "[]"]) (simp_all add: step_defs)
  then have st5: "step ?fs 0 ?s4 ?s5"
    unfolding se5 .
  have sr5: "steps ?fs ?s0 ?s5" by (rule steps.further[OF sr4 st5])
  have se6: "(move 0 (Open_dir 0 ''R'') (put 0 ((coords ?s5 ! 0)\<lparr>active_threads := increment_counter (active_threads (coords ?s5 ! 0))\<rparr>) ?s5))\<lparr>mutex_work := None\<rparr> = ?s6"
    by (simp add: step_defs)
  have "step ?fs 0 ?s5 ((move 0 (Open_dir 0 ''R'') (put 0 ((coords ?s5 ! 0)\<lparr>active_threads := increment_counter (active_threads (coords ?s5 ! 0))\<rparr>) ?s5))\<lparr>mutex_work := None\<rparr>)"
    by (rule step.increment[where i = 0 and path = "''R''"]) (simp_all add: step_defs)
  then have st6: "step ?fs 0 ?s5 ?s6"
    unfolding se6 .
  have sr6: "steps ?fs ?s0 ?s6" by (rule steps.further[OF sr5 st6])
  have se7: "(move 1 (Active 0) (?s6))\<lparr>mutex_work := Some 1\<rparr> = ?s7"
    by (simp add: step_defs)
  have "step ?fs 1 ?s6 ((move 1 (Active 0) (?s6))\<lparr>mutex_work := Some 1\<rparr>)"
    by (rule step.lock) (simp_all add: step_defs)
  then have st7: "step ?fs 1 ?s6 ?s7"
    unfolding se7 .
  have sr7: "steps ?fs ?s0 ?s7" by (rule steps.further[OF sr6 st7])
  have se8: "move 1 (Work 0) (?s7) = ?s8"
    by (simp add: step_defs)
  have "step ?fs 1 ?s7 (move 1 (Work 0) (?s7))"
    by (rule step.active_counter[where i = 0]) (simp_all add: step_defs)
  then have st8: "step ?fs 1 ?s7 ?s8"
    unfolding se8 .
  have sr8: "steps ?fs ?s0 ?s8" by (rule steps.further[OF sr7 st8])
  have se9: "move 1 (Work (Suc 0)) ?s8 = ?s9"
    by (simp add: step_defs)
  have "step ?fs 1 ?s8 (move 1 (Work (Suc 0)) ?s8)"
    by (rule step.work_next[where i = 0]) (simp_all add: step_defs)
  then have st9: "step ?fs 1 ?s8 ?s9"
    unfolding se9 .
  have sr9: "steps ?fs ?s0 ?s9" by (rule steps.further[OF sr8 st9])
  have se10: "move 1 (Take 1) (?s9) = ?s10"
    by (simp add: step_defs)
  have "step ?fs 1 ?s9 (move 1 (Take 1) (?s9))"
    by (rule step.work_found[where i = 1]) (simp_all add: step_defs)
  then have st10: "step ?fs 1 ?s9 ?s10"
    unfolding se10 .
  have sr10: "steps ?fs ?s0 ?s10" by (rule steps.further[OF sr9 st10])
  have se11: "move 1 (Increment 1 ''T'') (put 1 ((coords ?s10 ! 1)\<lparr>dir_queue := []\<rparr>) ?s10) = ?s11"
    by (simp add: step_defs)
  have "step ?fs 1 ?s10 (move 1 (Increment 1 ''T'') (put 1 ((coords ?s10 ! 1)\<lparr>dir_queue := []\<rparr>) ?s10))"
    by (rule step.take[where i = 1 and path = "''T''" and rest = "[]"]) (simp_all add: step_defs)
  then have st11: "step ?fs 1 ?s10 ?s11"
    unfolding se11 .
  have sr11: "steps ?fs ?s0 ?s11" by (rule steps.further[OF sr10 st11])
  have se12: "(move 1 (Open_dir 1 ''T'') (put 1 ((coords ?s11 ! 1)\<lparr>active_threads := increment_counter (active_threads (coords ?s11 ! 1))\<rparr>) ?s11))\<lparr>mutex_work := None\<rparr> = ?s12"
    by (simp add: step_defs)
  have "step ?fs 1 ?s11 ((move 1 (Open_dir 1 ''T'') (put 1 ((coords ?s11 ! 1)\<lparr>active_threads := increment_counter (active_threads (coords ?s11 ! 1))\<rparr>) ?s11))\<lparr>mutex_work := None\<rparr>)"
    by (rule step.increment[where i = 1 and path = "''T''"]) (simp_all add: step_defs)
  then have st12: "step ?fs 1 ?s11 ?s12"
    unfolding se12 .
  have sr12: "steps ?fs ?s0 ?s12" by (rule steps.further[OF sr11 st12])
  have se13: "(move 2 (Active 0) (?s12))\<lparr>mutex_work := Some 2\<rparr> = ?s13"
    by (simp add: step_defs)
  have "step ?fs 2 ?s12 ((move 2 (Active 0) (?s12))\<lparr>mutex_work := Some 2\<rparr>)"
    by (rule step.lock) (simp_all add: step_defs)
  then have st13: "step ?fs 2 ?s12 ?s13"
    unfolding se13 .
  have sr13: "steps ?fs ?s0 ?s13" by (rule steps.further[OF sr12 st13])
  have se14: "move 2 (Work 0) (?s13) = ?s14"
    by (simp add: step_defs)
  have "step ?fs 2 ?s13 (move 2 (Work 0) (?s13))"
    by (rule step.active_counter[where i = 0]) (simp_all add: step_defs)
  then have st14: "step ?fs 2 ?s13 ?s14"
    unfolding se14 .
  have sr14: "steps ?fs ?s0 ?s14" by (rule steps.further[OF sr13 st14])
  have se15: "move 2 (Work (Suc 0)) ?s14 = ?s15"
    by (simp add: step_defs)
  have "step ?fs 2 ?s14 (move 2 (Work (Suc 0)) ?s14)"
    by (rule step.work_next[where i = 0]) (simp_all add: step_defs)
  then have st15: "step ?fs 2 ?s14 ?s15"
    unfolding se15 .
  have sr15: "steps ?fs ?s0 ?s15" by (rule steps.further[OF sr14 st15])
  have se16: "move 2 (Work (Suc 1)) ?s15 = ?s16"
    by (simp add: step_defs)
  have "step ?fs 2 ?s15 (move 2 (Work (Suc 1)) ?s15)"
    by (rule step.work_next[where i = 1]) (simp_all add: step_defs)
  then have st16: "step ?fs 2 ?s15 ?s16"
    unfolding se16 .
  have sr16: "steps ?fs ?s0 ?s16" by (rule steps.further[OF sr15 st16])
  have se17: "(move 2 (Waiting) (?s16))\<lparr>mutex_work := None\<rparr> = ?s17"
    by (simp add: step_defs)
  have "step ?fs 2 ?s16 ((move 2 (Waiting) (?s16))\<lparr>mutex_work := None\<rparr>)"
    by (rule step.work_none[where i = 2]) (simp_all add: step_defs)
  then have st17: "step ?fs 2 ?s16 ?s17"
    unfolding se17 .
  have sr17: "steps ?fs ?s0 ?s17" by (rule steps.further[OF sr16 st17])
  have se18: "?s17\<lparr>workers := (workers ?s17)[0 := \<lparr>loc = (case Some [''.'', ''..''] of None \<Rightarrow> Finish 0 | Some names \<Rightarrow> Read_dir 0 ''R'' names 0), errno = 0\<rparr>], stderr := stderr ?s17 @ []\<rparr> = ?s18"
    by (simp add: step_defs)
  have "step ?fs 0 ?s17 (?s17\<lparr>workers := (workers ?s17)[0 := \<lparr>loc = (case Some [''.'', ''..''] of None \<Rightarrow> Finish 0 | Some names \<Rightarrow> Read_dir 0 ''R'' names 0), errno = 0\<rparr>], stderr := stderr ?s17 @ []\<rparr>)"
    by (rule step.open_dir[where i = 0 and path = "''R''" and directory = "Some [''.'', ''..'']" and messages = "[]" and errno' = 0]) (simp_all add: step_defs)
  then have st18: "step ?fs 0 ?s17 ?s18"
    unfolding se18 .
  have sr18: "steps ?fs ?s0 ?s18" by (rule steps.further[OF sr17 st18])
  have se19: "move 0 (Read_dir 0 ''R'' [''..''] 0) (?s18) = ?s19"
    by (simp add: step_defs)
  have "step ?fs 0 ?s18 (move 0 (Read_dir 0 ''R'' [''..''] 0) (?s18))"
    by (rule step.read_skip[where i = 0 and path = "''R''" and name = "''.''" and names = "[''..'']" and sm = 0]) (simp_all add: step_defs)
  then have st19: "step ?fs 0 ?s18 ?s19"
    unfolding se19 .
  have sr19: "steps ?fs ?s0 ?s19" by (rule steps.further[OF sr18 st19])
  have se20: "move 0 (Read_dir 0 ''R'' [] 0) (?s19) = ?s20"
    by (simp add: step_defs)
  have "step ?fs 0 ?s19 (move 0 (Read_dir 0 ''R'' [] 0) (?s19))"
    by (rule step.read_skip[where i = 0 and path = "''R''" and name = "''..''" and names = "[]" and sm = 0]) (simp_all add: step_defs)
  then have st20: "step ?fs 0 ?s19 ?s20"
    unfolding se20 .
  have sr20: "steps ?fs ?s0 ?s20" by (rule steps.further[OF sr19 st20])
  have se21: "move 0 (Finish 0) (put 0 (update_total_sum 0 (coords ?s20 ! 0)) ?s20) = ?s21"
    by (simp add: step_defs)
  have "step ?fs 0 ?s20 (move 0 (Finish 0) (put 0 (update_total_sum 0 (coords ?s20 ! 0)) ?s20))"
    by (rule step.read_end[where i = 0 and path = "''R''" and sm = 0]) (simp_all add: step_defs)
  then have st21: "step ?fs 0 ?s20 ?s21"
    unfolding se21 .
  have sr21: "steps ?fs ?s0 ?s21" by (rule steps.further[OF sr20 st21])
  have se22: "move 0 (Seek) (put 0 ((coords ?s21 ! 0)\<lparr>active_threads := decrement_counter (active_threads (coords ?s21 ! 0))\<rparr>) ?s21) = ?s22"
    by (simp add: step_defs)
  have "step ?fs 0 ?s21 (move 0 (Seek) (put 0 ((coords ?s21 ! 0)\<lparr>active_threads := decrement_counter (active_threads (coords ?s21 ! 0))\<rparr>) ?s21))"
    by (rule step.finish[where i = 0]) (simp_all add: step_defs)
  then have st22: "step ?fs 0 ?s21 ?s22"
    unfolding se22 .
  have sr22: "steps ?fs ?s0 ?s22" by (rule steps.further[OF sr21 st22])
  have se23: "?s22\<lparr>workers := (workers ?s22)[1 := \<lparr>loc = (case Some [''.'', ''..''] of None \<Rightarrow> Finish 1 | Some names \<Rightarrow> Read_dir 1 ''T'' names 0), errno = 0\<rparr>], stderr := stderr ?s22 @ []\<rparr> = ?s23"
    by (simp add: step_defs)
  have "step ?fs 1 ?s22 (?s22\<lparr>workers := (workers ?s22)[1 := \<lparr>loc = (case Some [''.'', ''..''] of None \<Rightarrow> Finish 1 | Some names \<Rightarrow> Read_dir 1 ''T'' names 0), errno = 0\<rparr>], stderr := stderr ?s22 @ []\<rparr>)"
    by (rule step.open_dir[where i = 1 and path = "''T''" and directory = "Some [''.'', ''..'']" and messages = "[]" and errno' = 0]) (simp_all add: step_defs)
  then have st23: "step ?fs 1 ?s22 ?s23"
    unfolding se23 .
  have sr23: "steps ?fs ?s0 ?s23" by (rule steps.further[OF sr22 st23])
  have se24: "move 1 (Read_dir 1 ''T'' [''..''] 0) (?s23) = ?s24"
    by (simp add: step_defs)
  have "step ?fs 1 ?s23 (move 1 (Read_dir 1 ''T'' [''..''] 0) (?s23))"
    by (rule step.read_skip[where i = 1 and path = "''T''" and name = "''.''" and names = "[''..'']" and sm = 0]) (simp_all add: step_defs)
  then have st24: "step ?fs 1 ?s23 ?s24"
    unfolding se24 .
  have sr24: "steps ?fs ?s0 ?s24" by (rule steps.further[OF sr23 st24])
  have se25: "move 1 (Read_dir 1 ''T'' [] 0) (?s24) = ?s25"
    by (simp add: step_defs)
  have "step ?fs 1 ?s24 (move 1 (Read_dir 1 ''T'' [] 0) (?s24))"
    by (rule step.read_skip[where i = 1 and path = "''T''" and name = "''..''" and names = "[]" and sm = 0]) (simp_all add: step_defs)
  then have st25: "step ?fs 1 ?s24 ?s25"
    unfolding se25 .
  have sr25: "steps ?fs ?s0 ?s25" by (rule steps.further[OF sr24 st25])
  have se26: "move 1 (Finish 1) (put 1 (update_total_sum 0 (coords ?s25 ! 1)) ?s25) = ?s26"
    by (simp add: step_defs)
  have "step ?fs 1 ?s25 (move 1 (Finish 1) (put 1 (update_total_sum 0 (coords ?s25 ! 1)) ?s25))"
    by (rule step.read_end[where i = 1 and path = "''T''" and sm = 0]) (simp_all add: step_defs)
  then have st26: "step ?fs 1 ?s25 ?s26"
    unfolding se26 .
  have sr26: "steps ?fs ?s0 ?s26" by (rule steps.further[OF sr25 st26])
  have se27: "move 1 (Seek) (put 1 ((coords ?s26 ! 1)\<lparr>active_threads := decrement_counter (active_threads (coords ?s26 ! 1))\<rparr>) ?s26) = ?s27"
    by (simp add: step_defs)
  have "step ?fs 1 ?s26 (move 1 (Seek) (put 1 ((coords ?s26 ! 1)\<lparr>active_threads := decrement_counter (active_threads (coords ?s26 ! 1))\<rparr>) ?s26))"
    by (rule step.finish[where i = 1]) (simp_all add: step_defs)
  then have st27: "step ?fs 1 ?s26 ?s27"
    unfolding se27 .
  have sr27: "steps ?fs ?s0 ?s27" by (rule steps.further[OF sr26 st27])
  let ?fin = "\<lparr>coords = [\<lparr>active_threads = 0, tot_sum = 8, dir_queue = []\<rparr>, \<lparr>active_threads = 0, tot_sum = 8, dir_queue = []\<rparr>], workers = [\<lparr>loc = Seek, errno = 0\<rparr>, \<lparr>loc = Seek, errno = 0\<rparr>, \<lparr>loc = Exiting, errno = 0\<rparr>], mutex_work = None, stderr = [], proc = Running\<rparr>"
  let ?cs = "map (seed_coordinator ?fs) [''R'', ''T'']"
  have i: "initial ?cs 2 = ?s0"
    by (simp add: initial_def seed_coordinator_def own_blocks_def numeral_2_eq_2)
  have c: "\<forall>c\<in>set ?cs. active_threads c = 0"
    by (simp add: seed_coordinator_def)
  have r4: "steps ?fs (initial ?cs 2) ?s4" unfolding i by (rule sr4)
  have r5: "steps ?fs (initial ?cs 2) ?s5" unfolding i by (rule sr5)
  have r6: "steps ?fs (initial ?cs 2) ?s6" unfolding i by (rule sr6)
  have r12: "steps ?fs (initial ?cs 2) ?s12" unfolding i by (rule sr12)
  have r27: "steps ?fs (initial ?cs 2) ?s27" unfolding i by (rule sr27)
  have p4: "proc ?s4 = Running" and l4: "0 < length (workers ?s4)" by simp_all
  have p5: "proc ?s5 = Running" and l5: "0 < length (workers ?s5)" by simp_all
  have p6: "proc ?s6 = Running" and l6: "1 < length (workers ?s6)" by simp_all
  have p12: "proc ?s12 = Running" and l12: "2 < length (workers ?s12)" by simp_all
  have p27: "proc ?s27 = Running" and l27: "2 < length (workers ?s27)" by simp_all
  note T4 = get_coordinator_with_work_protocol[OF c r4 p4 l4]
  note T5 = get_coordinator_with_work_protocol[OF c r5 p5 l5]
  note T6 = get_coordinator_with_work_protocol[OF c r6 p6 l6]
  note T12 = get_coordinator_with_work_protocol[OF c r12 p12 l12]
  note T27 = get_coordinator_with_work_protocol[OF c r27 p27 l27]
  have k4: "loc (workers ?s4 ! 0) = Take 0" by simp
  from T4[THEN conjunct2, THEN conjunct2, THEN conjunct2, THEN conjunct2, THEN conjunct1,
      THEN spec, THEN mp, OF k4, THEN conjunct2, THEN conjunct2, THEN conjunct2, THEN conjunct2]
  have "\<forall>s'. step ?fs 0 ?s4 s' \<longleftrightarrow>
          s' = move 0 (Increment 0 (hd (dir_queue (coords ?s4 ! 0))))
                 (put 0 ((coords ?s4 ! 0)\<lparr>dir_queue := tl (dir_queue (coords ?s4 ! 0))\<rparr>) ?s4) \<or>
          s' = ?s4\<lparr>proc := Ended Undefined_behaviour\<rparr>"
    .
  then have "step ?fs 0 ?s4 ?s5 \<longleftrightarrow>
          ?s5 = move 0 (Increment 0 (hd (dir_queue (coords ?s4 ! 0))))
                 (put 0 ((coords ?s4 ! 0)\<lparr>dir_queue := tl (dir_queue (coords ?s4 ! 0))\<rparr>) ?s4) \<or>
          ?s5 = ?s4\<lparr>proc := Ended Undefined_behaviour\<rparr>"
    by (rule spec)
  moreover have "?s5 = move 0 (Increment 0 (hd (dir_queue (coords ?s4 ! 0))))
                 (put 0 ((coords ?s4 ! 0)\<lparr>dir_queue := tl (dir_queue (coords ?s4 ! 0))\<rparr>) ?s4)"
    by (simp add: move_def put_def)
  ultimately have a: "step ?fs 0 ?s4 ?s5" by (simp only: simp_thms)
  have k5: "loc (workers ?s5 ! 0) = Increment 0 ''R''" by simp
  from T5[THEN conjunct2, THEN conjunct2, THEN conjunct2, THEN conjunct2, THEN conjunct2,
      THEN conjunct1, THEN spec, THEN spec, THEN mp, OF k5, THEN conjunct2, THEN conjunct2]
  have "\<forall>s'. step ?fs 0 ?s5 s' \<longleftrightarrow>
          s' = (move 0 (Open_dir 0 ''R'')
                 (put 0 ((coords ?s5 ! 0)\<lparr>active_threads :=
                            increment_counter (active_threads (coords ?s5 ! 0))\<rparr>) ?s5))
               \<lparr>mutex_work := None\<rparr>"
    .
  then have "step ?fs 0 ?s5 ?s6 \<longleftrightarrow>
          ?s6 = (move 0 (Open_dir 0 ''R'')
                 (put 0 ((coords ?s5 ! 0)\<lparr>active_threads :=
                            increment_counter (active_threads (coords ?s5 ! 0))\<rparr>) ?s5))
               \<lparr>mutex_work := None\<rparr>"
    by (rule spec)
  moreover have "?s6 = (move 0 (Open_dir 0 ''R'')
                 (put 0 ((coords ?s5 ! 0)\<lparr>active_threads :=
                            increment_counter (active_threads (coords ?s5 ! 0))\<rparr>) ?s5))
               \<lparr>mutex_work := None\<rparr>"
    by (simp add: move_def put_def increment_counter_def)
  ultimately have b: "step ?fs 0 ?s5 ?s6" by (simp only: simp_thms)
  have k6: "loc (workers ?s6 ! 1) = Seek \<or> loc (workers ?s6 ! 1) = Waiting" by simp
  have m6: "mutex_work ?s6 = None" by simp
  have f6: "first_with_work (coords ?s6) 1" by (simp add: first_with_work_def)
  from T6[THEN conjunct1, THEN mp, OF k6, THEN conjunct2, THEN mp, OF m6, THEN conjunct1,
      THEN spec, THEN mp, OF f6]
  have "alone ?fs 1 ?s6
          (move 1 (Open_dir 1 (hd (dir_queue (coords ?s6 ! 1))))
             (put 1 ((coords ?s6 ! 1)\<lparr>dir_queue := tl (dir_queue (coords ?s6 ! 1)),
                                       active_threads := active_threads (coords ?s6 ! 1) + 1\<rparr>) ?s6))" .
  moreover have "move 1 (Open_dir 1 (hd (dir_queue (coords ?s6 ! 1))))
             (put 1 ((coords ?s6 ! 1)\<lparr>dir_queue := tl (dir_queue (coords ?s6 ! 1)),
                                       active_threads := active_threads (coords ?s6 ! 1) + 1\<rparr>) ?s6) = ?s12"
    by (simp add: move_def put_def)
  ultimately have d: "alone ?fs 1 ?s6 ?s12" by (simp only:)
  have k12: "loc (workers ?s12 ! 2) = Seek \<or> loc (workers ?s12 ! 2) = Waiting" by simp
  have m12: "mutex_work ?s12 = None" by simp
  have e12: "(\<forall>c \<in> set (coords ?s12). dir_queue c = []) \<and>
             (\<exists>c \<in> set (coords ?s12). 0 < active_threads c)" by simp
  from T12[THEN conjunct1, THEN mp, OF k12, THEN conjunct2, THEN mp, OF m12, THEN conjunct2,
      THEN conjunct1, THEN mp, OF e12]
  have "alone ?fs 2 ?s12 (move 2 Waiting ?s12)" .
  moreover have "move 2 Waiting ?s12 = ?s17" by (simp add: move_def)
  ultimately have e: "alone ?fs 2 ?s12 ?s17" by (simp only:)
  have k27: "loc (workers ?s27 ! 2) = Seek \<or> loc (workers ?s27 ! 2) = Waiting" by simp
  have m27: "mutex_work ?s27 = None" by simp
  have e27: "\<forall>c \<in> set (coords ?s27). idle c" by (simp add: idle_def)
  from T27[THEN conjunct1, THEN mp, OF k27, THEN conjunct2, THEN mp, OF m27, THEN conjunct2,
      THEN conjunct2, THEN mp, OF e27]
  have "alone ?fs 2 ?s27 (move 2 Exiting ?s27)" .
  moreover have "move 2 Exiting ?s27 = ?fin" by (simp add: move_def)
  ultimately have f: "alone ?fs 2 ?s27 ?fin" by (simp only:)
  from r4 a b f6 d e r27 f show ?thesis by (intro conjI)
qed

text \<open>
  Two roots \<^verbatim>\<open>R\<close> and \<^verbatim>\<open>T\<close>, \<^verbatim>\<open>R\<close> holding the directory \<^verbatim>\<open>S\<close>, and two workers. The first
  worker takes \<^verbatim>\<open>R\<close> and reads it; the second finds the queue of \<^verbatim>\<open>R\<close> empty and the queue of
  \<^verbatim>\<open>T\<close> not; the first then puts \<^verbatim>\<open>R/S\<close> in the queue of \<^verbatim>\<open>R\<close>, which \<^verbatim>\<open>mutex_work\<close> does not
  prevent; the second, holding the mutex, dequeues \<^verbatim>\<open>T\<close> from the second root while the queue
  of the first root holds a path.
\<close>

theorem takes_from_a_later_root:
  "steps \<lparr>lstat = (\<lambda>p. if p = ''R'' then Some \<lparr>st_mode = 0x41ED, st_blocks = 8\<rparr> else if p = ''R/S'' then Some \<lparr>st_mode = 0x41ED, st_blocks = 8\<rparr> else if p = ''T'' then Some \<lparr>st_mode = 0x41ED, st_blocks = 8\<rparr> else None), opendir = (\<lambda>p. if p = ''R'' then Inr [''.'', ''..'', ''S''] else if p = ''R/S'' then Inr [''.'', ''..''] else if p = ''T'' then Inr [''.'', ''..''] else Inl ENOTDIR)\<rparr>
     (initial (map (seed_coordinator \<lparr>lstat = (\<lambda>p. if p = ''R'' then Some \<lparr>st_mode = 0x41ED, st_blocks = 8\<rparr> else if p = ''R/S'' then Some \<lparr>st_mode = 0x41ED, st_blocks = 8\<rparr> else if p = ''T'' then Some \<lparr>st_mode = 0x41ED, st_blocks = 8\<rparr> else None), opendir = (\<lambda>p. if p = ''R'' then Inr [''.'', ''..'', ''S''] else if p = ''R/S'' then Inr [''.'', ''..''] else if p = ''T'' then Inr [''.'', ''..''] else Inl ENOTDIR)\<rparr>) [''R'', ''T'']) 1)
     \<lparr>coords = [\<lparr>active_threads = 1, tot_sum = 8, dir_queue = [''R/S'']\<rparr>, \<lparr>active_threads = 0, tot_sum = 8, dir_queue = [''T'']\<rparr>], workers = [\<lparr>loc = Read_dir 0 ''R'' [] 8, errno = 0\<rparr>, \<lparr>loc = Take 1, errno = 0\<rparr>], mutex_work = Some 1, stderr = [], proc = Running\<rparr> \<and>
   mutex_work \<lparr>coords = [\<lparr>active_threads = 1, tot_sum = 8, dir_queue = [''R/S'']\<rparr>, \<lparr>active_threads = 0, tot_sum = 8, dir_queue = [''T'']\<rparr>], workers = [\<lparr>loc = Read_dir 0 ''R'' [] 8, errno = 0\<rparr>, \<lparr>loc = Take 1, errno = 0\<rparr>], mutex_work = Some 1, stderr = [], proc = Running\<rparr> = Some 1 \<and>
   first_with_work (coords \<lparr>coords = [\<lparr>active_threads = 1, tot_sum = 8, dir_queue = [''R/S'']\<rparr>, \<lparr>active_threads = 0, tot_sum = 8, dir_queue = [''T'']\<rparr>], workers = [\<lparr>loc = Read_dir 0 ''R'' [] 8, errno = 0\<rparr>, \<lparr>loc = Take 1, errno = 0\<rparr>], mutex_work = Some 1, stderr = [], proc = Running\<rparr>) 0 \<and>
   step \<lparr>lstat = (\<lambda>p. if p = ''R'' then Some \<lparr>st_mode = 0x41ED, st_blocks = 8\<rparr> else if p = ''R/S'' then Some \<lparr>st_mode = 0x41ED, st_blocks = 8\<rparr> else if p = ''T'' then Some \<lparr>st_mode = 0x41ED, st_blocks = 8\<rparr> else None), opendir = (\<lambda>p. if p = ''R'' then Inr [''.'', ''..'', ''S''] else if p = ''R/S'' then Inr [''.'', ''..''] else if p = ''T'' then Inr [''.'', ''..''] else Inl ENOTDIR)\<rparr> 1
     \<lparr>coords = [\<lparr>active_threads = 1, tot_sum = 8, dir_queue = [''R/S'']\<rparr>, \<lparr>active_threads = 0, tot_sum = 8, dir_queue = [''T'']\<rparr>], workers = [\<lparr>loc = Read_dir 0 ''R'' [] 8, errno = 0\<rparr>, \<lparr>loc = Take 1, errno = 0\<rparr>], mutex_work = Some 1, stderr = [], proc = Running\<rparr>
     \<lparr>coords = [\<lparr>active_threads = 1, tot_sum = 8, dir_queue = [''R/S'']\<rparr>, \<lparr>active_threads = 0, tot_sum = 8, dir_queue = []\<rparr>], workers = [\<lparr>loc = Read_dir 0 ''R'' [] 8, errno = 0\<rparr>, \<lparr>loc = Increment 1 ''T'', errno = 0\<rparr>], mutex_work = Some 1, stderr = [], proc = Running\<rparr> \<and>
   loc (workers \<lparr>coords = [\<lparr>active_threads = 1, tot_sum = 8, dir_queue = [''R/S'']\<rparr>, \<lparr>active_threads = 0, tot_sum = 8, dir_queue = []\<rparr>], workers = [\<lparr>loc = Read_dir 0 ''R'' [] 8, errno = 0\<rparr>, \<lparr>loc = Increment 1 ''T'', errno = 0\<rparr>], mutex_work = Some 1, stderr = [], proc = Running\<rparr> ! 1) = Increment 1 ''T'' \<and>
   dir_queue (coords \<lparr>coords = [\<lparr>active_threads = 1, tot_sum = 8, dir_queue = [''R/S'']\<rparr>, \<lparr>active_threads = 0, tot_sum = 8, dir_queue = []\<rparr>], workers = [\<lparr>loc = Read_dir 0 ''R'' [] 8, errno = 0\<rparr>, \<lparr>loc = Increment 1 ''T'', errno = 0\<rparr>], mutex_work = Some 1, stderr = [], proc = Running\<rparr> ! 0) = [''R/S''] \<and>
   dir_queue (coords \<lparr>coords = [\<lparr>active_threads = 1, tot_sum = 8, dir_queue = [''R/S'']\<rparr>, \<lparr>active_threads = 0, tot_sum = 8, dir_queue = []\<rparr>], workers = [\<lparr>loc = Read_dir 0 ''R'' [] 8, errno = 0\<rparr>, \<lparr>loc = Increment 1 ''T'', errno = 0\<rparr>], mutex_work = Some 1, stderr = [], proc = Running\<rparr> ! 1) = []"
proof -
  let ?fs = "\<lparr>lstat = (\<lambda>p. if p = ''R'' then Some \<lparr>st_mode = 0x41ED, st_blocks = 8\<rparr> else if p = ''R/S'' then Some \<lparr>st_mode = 0x41ED, st_blocks = 8\<rparr> else if p = ''T'' then Some \<lparr>st_mode = 0x41ED, st_blocks = 8\<rparr> else None), opendir = (\<lambda>p. if p = ''R'' then Inr [''.'', ''..'', ''S''] else if p = ''R/S'' then Inr [''.'', ''..''] else if p = ''T'' then Inr [''.'', ''..''] else Inl ENOTDIR)\<rparr>"
  let ?t0 = "\<lparr>coords = [\<lparr>active_threads = 0, tot_sum = 8, dir_queue = [''R'']\<rparr>, \<lparr>active_threads = 0, tot_sum = 8, dir_queue = [''T'']\<rparr>], workers = [\<lparr>loc = Seek, errno = 0\<rparr>, \<lparr>loc = Seek, errno = 0\<rparr>], mutex_work = None, stderr = [], proc = Running\<rparr>"
  let ?t1 = "\<lparr>coords = [\<lparr>active_threads = 0, tot_sum = 8, dir_queue = [''R'']\<rparr>, \<lparr>active_threads = 0, tot_sum = 8, dir_queue = [''T'']\<rparr>], workers = [\<lparr>loc = Active 0, errno = 0\<rparr>, \<lparr>loc = Seek, errno = 0\<rparr>], mutex_work = Some 0, stderr = [], proc = Running\<rparr>"
  let ?t2 = "\<lparr>coords = [\<lparr>active_threads = 0, tot_sum = 8, dir_queue = [''R'']\<rparr>, \<lparr>active_threads = 0, tot_sum = 8, dir_queue = [''T'']\<rparr>], workers = [\<lparr>loc = Active_queue 0, errno = 0\<rparr>, \<lparr>loc = Seek, errno = 0\<rparr>], mutex_work = Some 0, stderr = [], proc = Running\<rparr>"
  let ?t3 = "\<lparr>coords = [\<lparr>active_threads = 0, tot_sum = 8, dir_queue = [''R'']\<rparr>, \<lparr>active_threads = 0, tot_sum = 8, dir_queue = [''T'']\<rparr>], workers = [\<lparr>loc = Work 0, errno = 0\<rparr>, \<lparr>loc = Seek, errno = 0\<rparr>], mutex_work = Some 0, stderr = [], proc = Running\<rparr>"
  let ?t4 = "\<lparr>coords = [\<lparr>active_threads = 0, tot_sum = 8, dir_queue = [''R'']\<rparr>, \<lparr>active_threads = 0, tot_sum = 8, dir_queue = [''T'']\<rparr>], workers = [\<lparr>loc = Take 0, errno = 0\<rparr>, \<lparr>loc = Seek, errno = 0\<rparr>], mutex_work = Some 0, stderr = [], proc = Running\<rparr>"
  let ?t5 = "\<lparr>coords = [\<lparr>active_threads = 0, tot_sum = 8, dir_queue = []\<rparr>, \<lparr>active_threads = 0, tot_sum = 8, dir_queue = [''T'']\<rparr>], workers = [\<lparr>loc = Increment 0 ''R'', errno = 0\<rparr>, \<lparr>loc = Seek, errno = 0\<rparr>], mutex_work = Some 0, stderr = [], proc = Running\<rparr>"
  let ?t6 = "\<lparr>coords = [\<lparr>active_threads = 1, tot_sum = 8, dir_queue = []\<rparr>, \<lparr>active_threads = 0, tot_sum = 8, dir_queue = [''T'']\<rparr>], workers = [\<lparr>loc = Open_dir 0 ''R'', errno = 0\<rparr>, \<lparr>loc = Seek, errno = 0\<rparr>], mutex_work = None, stderr = [], proc = Running\<rparr>"
  let ?t7 = "\<lparr>coords = [\<lparr>active_threads = 1, tot_sum = 8, dir_queue = []\<rparr>, \<lparr>active_threads = 0, tot_sum = 8, dir_queue = [''T'']\<rparr>], workers = [\<lparr>loc = Read_dir 0 ''R'' [''.'', ''..'', ''S''] 0, errno = 0\<rparr>, \<lparr>loc = Seek, errno = 0\<rparr>], mutex_work = None, stderr = [], proc = Running\<rparr>"
  let ?t8 = "\<lparr>coords = [\<lparr>active_threads = 1, tot_sum = 8, dir_queue = []\<rparr>, \<lparr>active_threads = 0, tot_sum = 8, dir_queue = [''T'']\<rparr>], workers = [\<lparr>loc = Read_dir 0 ''R'' [''..'', ''S''] 0, errno = 0\<rparr>, \<lparr>loc = Seek, errno = 0\<rparr>], mutex_work = None, stderr = [], proc = Running\<rparr>"
  let ?t9 = "\<lparr>coords = [\<lparr>active_threads = 1, tot_sum = 8, dir_queue = []\<rparr>, \<lparr>active_threads = 0, tot_sum = 8, dir_queue = [''T'']\<rparr>], workers = [\<lparr>loc = Read_dir 0 ''R'' [''S''] 0, errno = 0\<rparr>, \<lparr>loc = Seek, errno = 0\<rparr>], mutex_work = None, stderr = [], proc = Running\<rparr>"
  let ?t10 = "\<lparr>coords = [\<lparr>active_threads = 1, tot_sum = 8, dir_queue = []\<rparr>, \<lparr>active_threads = 0, tot_sum = 8, dir_queue = [''T'']\<rparr>], workers = [\<lparr>loc = Read_dir 0 ''R'' [''S''] 0, errno = 0\<rparr>, \<lparr>loc = Active 0, errno = 0\<rparr>], mutex_work = Some 1, stderr = [], proc = Running\<rparr>"
  let ?t11 = "\<lparr>coords = [\<lparr>active_threads = 1, tot_sum = 8, dir_queue = []\<rparr>, \<lparr>active_threads = 0, tot_sum = 8, dir_queue = [''T'']\<rparr>], workers = [\<lparr>loc = Read_dir 0 ''R'' [''S''] 0, errno = 0\<rparr>, \<lparr>loc = Work 0, errno = 0\<rparr>], mutex_work = Some 1, stderr = [], proc = Running\<rparr>"
  let ?t12 = "\<lparr>coords = [\<lparr>active_threads = 1, tot_sum = 8, dir_queue = []\<rparr>, \<lparr>active_threads = 0, tot_sum = 8, dir_queue = [''T'']\<rparr>], workers = [\<lparr>loc = Read_dir 0 ''R'' [''S''] 0, errno = 0\<rparr>, \<lparr>loc = Work 1, errno = 0\<rparr>], mutex_work = Some 1, stderr = [], proc = Running\<rparr>"
  let ?t13 = "\<lparr>coords = [\<lparr>active_threads = 1, tot_sum = 8, dir_queue = []\<rparr>, \<lparr>active_threads = 0, tot_sum = 8, dir_queue = [''T'']\<rparr>], workers = [\<lparr>loc = Read_dir 0 ''R'' [''S''] 0, errno = 0\<rparr>, \<lparr>loc = Take 1, errno = 0\<rparr>], mutex_work = Some 1, stderr = [], proc = Running\<rparr>"
  let ?t14 = "\<lparr>coords = [\<lparr>active_threads = 1, tot_sum = 8, dir_queue = [''R/S'']\<rparr>, \<lparr>active_threads = 0, tot_sum = 8, dir_queue = [''T'']\<rparr>], workers = [\<lparr>loc = Read_dir 0 ''R'' [] 8, errno = 0\<rparr>, \<lparr>loc = Take 1, errno = 0\<rparr>], mutex_work = Some 1, stderr = [], proc = Running\<rparr>"
  let ?t15 = "\<lparr>coords = [\<lparr>active_threads = 1, tot_sum = 8, dir_queue = [''R/S'']\<rparr>, \<lparr>active_threads = 0, tot_sum = 8, dir_queue = []\<rparr>], workers = [\<lparr>loc = Read_dir 0 ''R'' [] 8, errno = 0\<rparr>, \<lparr>loc = Increment 1 ''T'', errno = 0\<rparr>], mutex_work = Some 1, stderr = [], proc = Running\<rparr>"
  have tr0: "steps ?fs ?t0 ?t0" by (rule steps.here)
  have te1: "(move 0 (Active 0) (?t0))\<lparr>mutex_work := Some 0\<rparr> = ?t1"
    by (simp add: step_defs)
  have "step ?fs 0 ?t0 ((move 0 (Active 0) (?t0))\<lparr>mutex_work := Some 0\<rparr>)"
    by (rule step.lock) (simp_all add: step_defs)
  then have tt1: "step ?fs 0 ?t0 ?t1"
    unfolding te1 .
  have tr1: "steps ?fs ?t0 ?t1" by (rule steps.further[OF tr0 tt1])
  have te2: "move 0 (Active_queue 0) (?t1) = ?t2"
    by (simp add: step_defs)
  have "step ?fs 0 ?t1 (move 0 (Active_queue 0) (?t1))"
    by (rule step.active_no_counter[where i = 0]) (simp_all add: step_defs)
  then have tt2: "step ?fs 0 ?t1 ?t2"
    unfolding te2 .
  have tr2: "steps ?fs ?t0 ?t2" by (rule steps.further[OF tr1 tt2])
  have te3: "move 0 (Work 0) (?t2) = ?t3"
    by (simp add: step_defs)
  have "step ?fs 0 ?t2 (move 0 (Work 0) (?t2))"
    by (rule step.active_queue[where i = 0]) (simp_all add: step_defs)
  then have tt3: "step ?fs 0 ?t2 ?t3"
    unfolding te3 .
  have tr3: "steps ?fs ?t0 ?t3" by (rule steps.further[OF tr2 tt3])
  have te4: "move 0 (Take 0) (?t3) = ?t4"
    by (simp add: step_defs)
  have "step ?fs 0 ?t3 (move 0 (Take 0) (?t3))"
    by (rule step.work_found[where i = 0]) (simp_all add: step_defs)
  then have tt4: "step ?fs 0 ?t3 ?t4"
    unfolding te4 .
  have tr4: "steps ?fs ?t0 ?t4" by (rule steps.further[OF tr3 tt4])
  have te5: "move 0 (Increment 0 ''R'') (put 0 ((coords ?t4 ! 0)\<lparr>dir_queue := []\<rparr>) ?t4) = ?t5"
    by (simp add: step_defs)
  have "step ?fs 0 ?t4 (move 0 (Increment 0 ''R'') (put 0 ((coords ?t4 ! 0)\<lparr>dir_queue := []\<rparr>) ?t4))"
    by (rule step.take[where i = 0 and path = "''R''" and rest = "[]"]) (simp_all add: step_defs)
  then have tt5: "step ?fs 0 ?t4 ?t5"
    unfolding te5 .
  have tr5: "steps ?fs ?t0 ?t5" by (rule steps.further[OF tr4 tt5])
  have te6: "(move 0 (Open_dir 0 ''R'') (put 0 ((coords ?t5 ! 0)\<lparr>active_threads := increment_counter (active_threads (coords ?t5 ! 0))\<rparr>) ?t5))\<lparr>mutex_work := None\<rparr> = ?t6"
    by (simp add: step_defs)
  have "step ?fs 0 ?t5 ((move 0 (Open_dir 0 ''R'') (put 0 ((coords ?t5 ! 0)\<lparr>active_threads := increment_counter (active_threads (coords ?t5 ! 0))\<rparr>) ?t5))\<lparr>mutex_work := None\<rparr>)"
    by (rule step.increment[where i = 0 and path = "''R''"]) (simp_all add: step_defs)
  then have tt6: "step ?fs 0 ?t5 ?t6"
    unfolding te6 .
  have tr6: "steps ?fs ?t0 ?t6" by (rule steps.further[OF tr5 tt6])
  have te7: "?t6\<lparr>workers := (workers ?t6)[0 := \<lparr>loc = (case Some [''.'', ''..'', ''S''] of None \<Rightarrow> Finish 0 | Some names \<Rightarrow> Read_dir 0 ''R'' names 0), errno = 0\<rparr>], stderr := stderr ?t6 @ []\<rparr> = ?t7"
    by (simp add: step_defs)
  have "step ?fs 0 ?t6 (?t6\<lparr>workers := (workers ?t6)[0 := \<lparr>loc = (case Some [''.'', ''..'', ''S''] of None \<Rightarrow> Finish 0 | Some names \<Rightarrow> Read_dir 0 ''R'' names 0), errno = 0\<rparr>], stderr := stderr ?t6 @ []\<rparr>)"
    by (rule step.open_dir[where i = 0 and path = "''R''" and directory = "Some [''.'', ''..'', ''S'']" and messages = "[]" and errno' = 0]) (simp_all add: step_defs)
  then have tt7: "step ?fs 0 ?t6 ?t7"
    unfolding te7 .
  have tr7: "steps ?fs ?t0 ?t7" by (rule steps.further[OF tr6 tt7])
  have te8: "move 0 (Read_dir 0 ''R'' [''..'', ''S''] 0) (?t7) = ?t8"
    by (simp add: step_defs)
  have "step ?fs 0 ?t7 (move 0 (Read_dir 0 ''R'' [''..'', ''S''] 0) (?t7))"
    by (rule step.read_skip[where i = 0 and path = "''R''" and name = "''.''" and names = "[''..'', ''S'']" and sm = 0]) (simp_all add: step_defs)
  then have tt8: "step ?fs 0 ?t7 ?t8"
    unfolding te8 .
  have tr8: "steps ?fs ?t0 ?t8" by (rule steps.further[OF tr7 tt8])
  have te9: "move 0 (Read_dir 0 ''R'' [''S''] 0) (?t8) = ?t9"
    by (simp add: step_defs)
  have "step ?fs 0 ?t8 (move 0 (Read_dir 0 ''R'' [''S''] 0) (?t8))"
    by (rule step.read_skip[where i = 0 and path = "''R''" and name = "''..''" and names = "[''S'']" and sm = 0]) (simp_all add: step_defs)
  then have tt9: "step ?fs 0 ?t8 ?t9"
    unfolding te9 .
  have tr9: "steps ?fs ?t0 ?t9" by (rule steps.further[OF tr8 tt9])
  have te10: "(move 1 (Active 0) (?t9))\<lparr>mutex_work := Some 1\<rparr> = ?t10"
    by (simp add: step_defs)
  have "step ?fs 1 ?t9 ((move 1 (Active 0) (?t9))\<lparr>mutex_work := Some 1\<rparr>)"
    by (rule step.lock) (simp_all add: step_defs)
  then have tt10: "step ?fs 1 ?t9 ?t10"
    unfolding te10 .
  have tr10: "steps ?fs ?t0 ?t10" by (rule steps.further[OF tr9 tt10])
  have te11: "move 1 (Work 0) (?t10) = ?t11"
    by (simp add: step_defs)
  have "step ?fs 1 ?t10 (move 1 (Work 0) (?t10))"
    by (rule step.active_counter[where i = 0]) (simp_all add: step_defs)
  then have tt11: "step ?fs 1 ?t10 ?t11"
    unfolding te11 .
  have tr11: "steps ?fs ?t0 ?t11" by (rule steps.further[OF tr10 tt11])
  have te12: "move 1 (Work (Suc 0)) ?t11 = ?t12"
    by (simp add: step_defs)
  have "step ?fs 1 ?t11 (move 1 (Work (Suc 0)) ?t11)"
    by (rule step.work_next[where i = 0]) (simp_all add: step_defs)
  then have tt12: "step ?fs 1 ?t11 ?t12"
    unfolding te12 .
  have tr12: "steps ?fs ?t0 ?t12" by (rule steps.further[OF tr11 tt12])
  have te13: "move 1 (Take 1) (?t12) = ?t13"
    by (simp add: step_defs)
  have "step ?fs 1 ?t12 (move 1 (Take 1) (?t12))"
    by (rule step.work_found[where i = 1]) (simp_all add: step_defs)
  then have tt13: "step ?fs 1 ?t12 ?t13"
    unfolding te13 .
  have tr13: "steps ?fs ?t0 ?t13" by (rule steps.further[OF tr12 tt13])
  have te14: "move 0 (Read_dir 0 ''R'' [] 8) (put 0 (\<lparr>active_threads = 1, tot_sum = 8, dir_queue = [''R/S'']\<rparr>) ?t13) = ?t14"
    by (simp add: step_defs)
  have "step ?fs 0 ?t13 (move 0 (Read_dir 0 ''R'' [] 8) (put 0 (\<lparr>active_threads = 1, tot_sum = 8, dir_queue = [''R/S'']\<rparr>) ?t13))"
    by (rule step.read_entry[where i = 0 and path = "''R''" and name = "''S''" and names = "[]" and sm = 0 and sm' = 8 and c' = "\<lparr>active_threads = 1, tot_sum = 8, dir_queue = [''R/S'']\<rparr>" and d = Exit_failure]) (simp_all add: step_defs)
  then have tt14: "step ?fs 0 ?t13 ?t14"
    unfolding te14 .
  have tr14: "steps ?fs ?t0 ?t14" by (rule steps.further[OF tr13 tt14])
  have te15: "move 1 (Increment 1 ''T'') (put 1 ((coords ?t14 ! 1)\<lparr>dir_queue := []\<rparr>) ?t14) = ?t15"
    by (simp add: step_defs)
  have "step ?fs 1 ?t14 (move 1 (Increment 1 ''T'') (put 1 ((coords ?t14 ! 1)\<lparr>dir_queue := []\<rparr>) ?t14))"
    by (rule step.take[where i = 1 and path = "''T''" and rest = "[]"]) (simp_all add: step_defs)
  then have tt15: "step ?fs 1 ?t14 ?t15"
    unfolding te15 .
  have tr15: "steps ?fs ?t0 ?t15" by (rule steps.further[OF tr14 tt15])
  let ?cs = "map (seed_coordinator ?fs) [''R'', ''T'']"
  have i: "initial ?cs 1 = ?t0"
    by (simp add: initial_def seed_coordinator_def own_blocks_def)
  have r: "steps ?fs (initial ?cs 1) ?t14" unfolding i by (rule tr14)
  have m: "mutex_work ?t14 = Some 1" by simp
  have f: "first_with_work (coords ?t14) 0" by (simp add: first_with_work_def)
  have l: "loc (workers ?t15 ! 1) = Increment 1 ''T''" by simp
  have q0: "dir_queue (coords ?t15 ! 0) = [''R/S'']" by simp
  have q1: "dir_queue (coords ?t15 ! 1) = []" by simp
  from r m f tt15 l q0 q1 show ?thesis by (intro conjI)
qed


section \<open>The workers cannot get stuck\<close>










section \<open>What the queues hold\<close>


lemma full_path_of_eq: "full_path_of dir_name file_name = dir_name @ ''/'' @ file_name"
  by (simp add: full_path_of_def get_path_length_def)

lemma full_path_not_dot: "\<not> is_dot_or_dot_dot (full_path_of dir_name file_name)"
proof
  assume "is_dot_or_dot_dot (full_path_of dir_name file_name)"
  then have "dir_name @ ''/'' @ file_name = ''.'' \<or> dir_name @ ''/'' @ file_name = ''..''"
    by (simp add: is_dot_or_dot_dot_def full_path_of_eq)
  then have "CHR ''/'' \<in> set ''.'' \<or> CHR ''/'' \<in> set ''..''"
    by (metis in_set_conv_decomp append_Cons append_Nil)
  then show False by simp
qed

lemma process_directory_entry_Inr:
  assumes "process_directory_entry fs p sm c d = Inr (sm', c')"
  shows "\<exists>st. lstat fs p = Some st \<and> sm' = sm + scast (st_blocks st) \<and>
              c' = (if is_dictionary st then c\<lparr>dir_queue := dir_queue c @ [p]\<rparr> else c)"
  using assms by (auto simp add: process_directory_entry_def safe_lstat_def split: option.splits)

lemma queue_step:
  assumes "step fs w s s'" "path \<in> set (dir_queue (coords s' ! i))" "i < length (coords s)"
  shows "path \<in> set (dir_queue (coords s ! i)) \<or>
         (\<exists>dir name. path = full_path_of dir name \<and> \<not> is_dot_or_dot_dot name)"
  using assms
proof (induction rule: step.induct)
  case (read_entry s j dir name names sm d sm' c')
  from process_directory_entry_Inr[OF read_entry(4)] obtain st where
    c': "c' = (if is_dictionary st then (coords s ! j)\<lparr>dir_queue := dir_queue (coords s ! j) @ [full_path_of dir name]\<rparr>
              else coords s ! j)" by blast
  show ?case
  proof (cases "i = j")
    case True
    with read_entry c' show ?thesis
      by (auto simp add: move_def put_def split: if_splits)
  next
    case False
    with read_entry show ?thesis by (simp add: move_def put_def)
  qed
next
  case (take s j p rest)
  then show ?case by (cases "i = j") (auto simp add: move_def put_def)
next
  case (increment s j p)
  then show ?case by (cases "i = j") (auto simp add: move_def put_def)
next
  case (read_end s j sm)
  then show ?case by (cases "i = j") (auto simp add: move_def put_def update_total_sum_def)
next
  case (finish s j)
  then show ?case by (cases "i = j") (auto simp add: move_def put_def)
qed (simp_all add: move_def put_def)

lemma steps_lengths:
  "steps fs s s' \<Longrightarrow>
   length (coords s') = length (coords s) \<and> length (workers s') = length (workers s)"
  by (induction rule: steps.induct) (auto dest: step_lengths)

lemma queue_steps:
  assumes "steps fs s s'" "path \<in> set (dir_queue (coords s' ! i))" "i < length (coords s)"
  shows "path \<in> set (dir_queue (coords s ! i)) \<or>
         (\<exists>dir name. path = full_path_of dir name \<and> \<not> is_dot_or_dot_dot name)"
  using assms
proof (induction rule: steps.induct)
  case (here s)
  then show ?case by simp
next
  case (further s s' w s'')
  from further(1,5) have "i < length (coords s')" by (simp add: steps_lengths)
  from queue_step[OF further(2,4) this] further(3,5) show ?case by blast
qed


lemma step_Read_skip:
  assumes "at s w (Read_dir i path (name # names) sm)" "is_dot_or_dot_dot name"
  shows "step fs w s s' \<longleftrightarrow> s' = move w (Read_dir i path names sm) s"
proof
  assume "step fs w s s'"
  then show "s' = move w (Read_dir i path names sm) s"
    using assms by (cases rule: step.cases) (simp_all add: at_def)
next
  assume "s' = move w (Read_dir i path names sm) s"
  with assms show "step fs w s s'" by (simp add: step.read_skip)
qed

text \<open>
  Claim C6, as the program has it. After the seeding, in every state the workers can reach:
  a path in the queue of a root is the directory argument of that root, as it was written on
  the command line, or it is \<open>dir/name\<close> for an entry \<open>name\<close> other than \<^verbatim>\<open>.\<close> and \<^verbatim>\<open>..\<close>, which is
  neither \<^verbatim>\<open>.\<close> nor \<^verbatim>\<open>..\<close>; and a worker that reads an entry named \<^verbatim>\<open>.\<close> or \<^verbatim>\<open>..\<close> goes on to the
  next entry, the queues and the totals unchanged.
\<close>

theorem queues_hold_no_dot_entries:
  assumes "create_thread_context mem = Inr cm"
    and "traverse_input_arguments fs optind argv cm = Inr (tc, m)"
    and "live_coordinators tc = Some cs"
    and "steps fs (initial cs k) s"
  shows "(\<forall>i path. i < length (coords s) \<and> path \<in> set (dir_queue (coords s ! i)) \<longrightarrow>
            path = directory_arguments fs optind argv ! i \<or>
            \<not> is_dot_or_dot_dot path \<and>
            (\<exists>dir name. path = full_path_of dir name \<and> \<not> is_dot_or_dot_dot name)) \<and>
         (\<forall>w i path name names sm.
            at s w (Read_dir i path (name # names) sm) \<and> is_dot_or_dot_dot name \<longrightarrow>
            (\<forall>s'. step fs w s s' \<longleftrightarrow> s' = move w (Read_dir i path names sm) s) \<and>
            coords (move w (Read_dir i path names sm) s) = coords s)"
proof (intro conjI allI impI)
  fix i path
  assume a: "i < length (coords s) \<and> path \<in> set (dir_queue (coords s ! i))"
  let ?dirs = "directory_arguments fs optind argv"
  from seeding_result[OF assms(1,2)] assms(3)
  have cs: "cs = map (seed_coordinator fs) ?dirs" by simp
  from a steps_lengths[OF assms(4)] have i: "i < length (coords (initial cs k))" by simp
  then have il: "i < length ?dirs" by (simp add: initial_def cs)
  from queue_steps[OF assms(4) conjunct2[OF a] i]
  have "path \<in> set (dir_queue (coords (initial cs k) ! i)) \<or>
        (\<exists>dir name. path = full_path_of dir name \<and> \<not> is_dot_or_dot_dot name)" .
  then show "path = ?dirs ! i \<or>
            \<not> is_dot_or_dot_dot path \<and>
            (\<exists>dir name. path = full_path_of dir name \<and> \<not> is_dot_or_dot_dot name)"
  proof
    assume "path \<in> set (dir_queue (coords (initial cs k) ! i))"
    with il show ?thesis by (simp add: initial_def cs seed_coordinator_def)
  next
    assume e: "\<exists>dir name. path = full_path_of dir name \<and> \<not> is_dot_or_dot_dot name"
    then have "\<not> is_dot_or_dot_dot path" using full_path_not_dot by auto
    with e show ?thesis by simp
  qed
next
  fix w i path name names sm s'
  assume "at s w (Read_dir i path (name # names) sm) \<and> is_dot_or_dot_dot name"
  then show "step fs w s s' \<longleftrightarrow> s' = move w (Read_dir i path names sm) s"
    using step_Read_skip by blast
next
  fix w i path name names sm
  show "coords (move w (Read_dir i path names sm) s) = coords s" by (simp add: move_def)
qed

theorem queues_hold_no_dot_entries_witness:
  "create_thread_context 100 = Inr (\<lparr>coordinator = [None, None], dir_num = 0, size_tc = 2\<rparr>, 98) \<and>
   traverse_input_arguments \<lparr>lstat = (\<lambda>p. if p = ''R'' then Some \<lparr>st_mode = 0x41ED, st_blocks = 8\<rparr> else if p = ''R/S'' then Some \<lparr>st_mode = 0x41ED, st_blocks = 8\<rparr> else None), opendir = (\<lambda>p. if p = ''R'' then Inr [''.'', ''..'', ''S''] else if p = ''R/S'' then Inr [''.'', ''..''] else Inl ENOTDIR)\<rparr> 1 [''mdu'', ''R''] (\<lparr>coordinator = [None, None], dir_num = 0, size_tc = 2\<rparr>, 98) =
     Inr (\<lparr>coordinator = [Some \<lparr>active_threads = 0, tot_sum = 8, dir_queue = [''R'']\<rparr>, None], dir_num = 1, size_tc = 2\<rparr>, 93) \<and>
   live_coordinators \<lparr>coordinator = [Some \<lparr>active_threads = 0, tot_sum = 8, dir_queue = [''R'']\<rparr>, None], dir_num = 1, size_tc = 2\<rparr> = Some [\<lparr>active_threads = 0, tot_sum = 8, dir_queue = [''R'']\<rparr>] \<and>
   steps \<lparr>lstat = (\<lambda>p. if p = ''R'' then Some \<lparr>st_mode = 0x41ED, st_blocks = 8\<rparr> else if p = ''R/S'' then Some \<lparr>st_mode = 0x41ED, st_blocks = 8\<rparr> else None), opendir = (\<lambda>p. if p = ''R'' then Inr [''.'', ''..'', ''S''] else if p = ''R/S'' then Inr [''.'', ''..''] else Inl ENOTDIR)\<rparr>
     (initial [\<lparr>active_threads = 0, tot_sum = 8, dir_queue = [''R'']\<rparr>] 0)
     \<lparr>coords = [\<lparr>active_threads = 1, tot_sum = 8, dir_queue = [''R/S'']\<rparr>], workers = [\<lparr>loc = Read_dir 0 ''R'' [] 8, errno = 0\<rparr>], mutex_work = None, stderr = [], proc = Running\<rparr> \<and>
   ''R/S'' \<in> set (dir_queue (coords \<lparr>coords = [\<lparr>active_threads = 1, tot_sum = 8, dir_queue = [''R/S'']\<rparr>], workers = [\<lparr>loc = Read_dir 0 ''R'' [] 8, errno = 0\<rparr>], mutex_work = None, stderr = [], proc = Running\<rparr> ! 0)) \<and>
   \<not> is_dot_or_dot_dot ''R/S'' \<and>
   step \<lparr>lstat = (\<lambda>p. if p = ''R'' then Some \<lparr>st_mode = 0x41ED, st_blocks = 8\<rparr> else if p = ''R/S'' then Some \<lparr>st_mode = 0x41ED, st_blocks = 8\<rparr> else None), opendir = (\<lambda>p. if p = ''R'' then Inr [''.'', ''..'', ''S''] else if p = ''R/S'' then Inr [''.'', ''..''] else Inl ENOTDIR)\<rparr> 0
     \<lparr>coords = [\<lparr>active_threads = 1, tot_sum = 8, dir_queue = []\<rparr>], workers = [\<lparr>loc = Read_dir 0 ''R'' [''.'', ''..'', ''S''] 0, errno = 0\<rparr>], mutex_work = None, stderr = [], proc = Running\<rparr>
     \<lparr>coords = [\<lparr>active_threads = 1, tot_sum = 8, dir_queue = []\<rparr>], workers = [\<lparr>loc = Read_dir 0 ''R'' [''..'', ''S''] 0, errno = 0\<rparr>], mutex_work = None, stderr = [], proc = Running\<rparr>"
proof -
  let ?fs = "\<lparr>lstat = (\<lambda>p. if p = ''R'' then Some \<lparr>st_mode = 0x41ED, st_blocks = 8\<rparr> else if p = ''R/S'' then Some \<lparr>st_mode = 0x41ED, st_blocks = 8\<rparr> else None), opendir = (\<lambda>p. if p = ''R'' then Inr [''.'', ''..'', ''S''] else if p = ''R/S'' then Inr [''.'', ''..''] else Inl ENOTDIR)\<rparr>"
  let ?tc = "\<lparr>coordinator = [Some \<lparr>active_threads = 0, tot_sum = 8, dir_queue = [''R'']\<rparr>, None], dir_num = 1, size_tc = 2\<rparr>"
  let ?cs = "[\<lparr>active_threads = 0, tot_sum = 8, dir_queue = [''R'']\<rparr>]"
  let ?s0 = "\<lparr>coords = [\<lparr>active_threads = 0, tot_sum = 8, dir_queue = [''R'']\<rparr>], workers = [\<lparr>loc = Seek, errno = 0\<rparr>], mutex_work = None, stderr = [], proc = Running\<rparr>"
  let ?s1 = "\<lparr>coords = [\<lparr>active_threads = 0, tot_sum = 8, dir_queue = [''R'']\<rparr>], workers = [\<lparr>loc = Active 0, errno = 0\<rparr>], mutex_work = Some 0, stderr = [], proc = Running\<rparr>"
  let ?s2 = "\<lparr>coords = [\<lparr>active_threads = 0, tot_sum = 8, dir_queue = [''R'']\<rparr>], workers = [\<lparr>loc = Active_queue 0, errno = 0\<rparr>], mutex_work = Some 0, stderr = [], proc = Running\<rparr>"
  let ?s3 = "\<lparr>coords = [\<lparr>active_threads = 0, tot_sum = 8, dir_queue = [''R'']\<rparr>], workers = [\<lparr>loc = Work 0, errno = 0\<rparr>], mutex_work = Some 0, stderr = [], proc = Running\<rparr>"
  let ?s4 = "\<lparr>coords = [\<lparr>active_threads = 0, tot_sum = 8, dir_queue = [''R'']\<rparr>], workers = [\<lparr>loc = Take 0, errno = 0\<rparr>], mutex_work = Some 0, stderr = [], proc = Running\<rparr>"
  let ?s5 = "\<lparr>coords = [\<lparr>active_threads = 0, tot_sum = 8, dir_queue = []\<rparr>], workers = [\<lparr>loc = Increment 0 ''R'', errno = 0\<rparr>], mutex_work = Some 0, stderr = [], proc = Running\<rparr>"
  let ?s6 = "\<lparr>coords = [\<lparr>active_threads = 1, tot_sum = 8, dir_queue = []\<rparr>], workers = [\<lparr>loc = Open_dir 0 ''R'', errno = 0\<rparr>], mutex_work = None, stderr = [], proc = Running\<rparr>"
  let ?s7 = "\<lparr>coords = [\<lparr>active_threads = 1, tot_sum = 8, dir_queue = []\<rparr>], workers = [\<lparr>loc = Read_dir 0 ''R'' [''.'', ''..'', ''S''] 0, errno = 0\<rparr>], mutex_work = None, stderr = [], proc = Running\<rparr>"
  let ?s8 = "\<lparr>coords = [\<lparr>active_threads = 1, tot_sum = 8, dir_queue = []\<rparr>], workers = [\<lparr>loc = Read_dir 0 ''R'' [''..'', ''S''] 0, errno = 0\<rparr>], mutex_work = None, stderr = [], proc = Running\<rparr>"
  let ?s9 = "\<lparr>coords = [\<lparr>active_threads = 1, tot_sum = 8, dir_queue = []\<rparr>], workers = [\<lparr>loc = Read_dir 0 ''R'' [''S''] 0, errno = 0\<rparr>], mutex_work = None, stderr = [], proc = Running\<rparr>"
  let ?s10 = "\<lparr>coords = [\<lparr>active_threads = 1, tot_sum = 8, dir_queue = [''R/S'']\<rparr>], workers = [\<lparr>loc = Read_dir 0 ''R'' [] 8, errno = 0\<rparr>], mutex_work = None, stderr = [], proc = Running\<rparr>"
  have sr0: "steps ?fs ?s0 ?s0" by (rule steps.here)
  have se1: "(move 0 (Active 0) (?s0))\<lparr>mutex_work := Some 0\<rparr> = ?s1"
    by (simp add: step_defs)
  have "step ?fs 0 ?s0 ((move 0 (Active 0) (?s0))\<lparr>mutex_work := Some 0\<rparr>)"
    by (rule step.lock) (simp_all add: step_defs)
  then have st1: "step ?fs 0 ?s0 ?s1"
    unfolding se1 .
  have sr1: "steps ?fs ?s0 ?s1" by (rule steps.further[OF sr0 st1])
  have se2: "move 0 (Active_queue 0) (?s1) = ?s2"
    by (simp add: step_defs)
  have "step ?fs 0 ?s1 (move 0 (Active_queue 0) (?s1))"
    by (rule step.active_no_counter[where i = 0]) (simp_all add: step_defs)
  then have st2: "step ?fs 0 ?s1 ?s2"
    unfolding se2 .
  have sr2: "steps ?fs ?s0 ?s2" by (rule steps.further[OF sr1 st2])
  have se3: "move 0 (Work 0) (?s2) = ?s3"
    by (simp add: step_defs)
  have "step ?fs 0 ?s2 (move 0 (Work 0) (?s2))"
    by (rule step.active_queue[where i = 0]) (simp_all add: step_defs)
  then have st3: "step ?fs 0 ?s2 ?s3"
    unfolding se3 .
  have sr3: "steps ?fs ?s0 ?s3" by (rule steps.further[OF sr2 st3])
  have se4: "move 0 (Take 0) (?s3) = ?s4"
    by (simp add: step_defs)
  have "step ?fs 0 ?s3 (move 0 (Take 0) (?s3))"
    by (rule step.work_found[where i = 0]) (simp_all add: step_defs)
  then have st4: "step ?fs 0 ?s3 ?s4"
    unfolding se4 .
  have sr4: "steps ?fs ?s0 ?s4" by (rule steps.further[OF sr3 st4])
  have se5: "move 0 (Increment 0 ''R'') (put 0 ((coords ?s4 ! 0)\<lparr>dir_queue := []\<rparr>) ?s4) = ?s5"
    by (simp add: step_defs)
  have "step ?fs 0 ?s4 (move 0 (Increment 0 ''R'') (put 0 ((coords ?s4 ! 0)\<lparr>dir_queue := []\<rparr>) ?s4))"
    by (rule step.take[where i = 0 and path = "''R''" and rest = "[]"]) (simp_all add: step_defs)
  then have st5: "step ?fs 0 ?s4 ?s5"
    unfolding se5 .
  have sr5: "steps ?fs ?s0 ?s5" by (rule steps.further[OF sr4 st5])
  have se6: "(move 0 (Open_dir 0 ''R'') (put 0 ((coords ?s5 ! 0)\<lparr>active_threads := increment_counter (active_threads (coords ?s5 ! 0))\<rparr>) ?s5))\<lparr>mutex_work := None\<rparr> = ?s6"
    by (simp add: step_defs)
  have "step ?fs 0 ?s5 ((move 0 (Open_dir 0 ''R'') (put 0 ((coords ?s5 ! 0)\<lparr>active_threads := increment_counter (active_threads (coords ?s5 ! 0))\<rparr>) ?s5))\<lparr>mutex_work := None\<rparr>)"
    by (rule step.increment[where i = 0 and path = "''R''"]) (simp_all add: step_defs)
  then have st6: "step ?fs 0 ?s5 ?s6"
    unfolding se6 .
  have sr6: "steps ?fs ?s0 ?s6" by (rule steps.further[OF sr5 st6])
  have se7: "?s6\<lparr>workers := (workers ?s6)[0 := \<lparr>loc = (case Some [''.'', ''..'', ''S''] of None \<Rightarrow> Finish 0 | Some names \<Rightarrow> Read_dir 0 ''R'' names 0), errno = 0\<rparr>], stderr := stderr ?s6 @ []\<rparr> = ?s7"
    by (simp add: step_defs)
  have "step ?fs 0 ?s6 (?s6\<lparr>workers := (workers ?s6)[0 := \<lparr>loc = (case Some [''.'', ''..'', ''S''] of None \<Rightarrow> Finish 0 | Some names \<Rightarrow> Read_dir 0 ''R'' names 0), errno = 0\<rparr>], stderr := stderr ?s6 @ []\<rparr>)"
    by (rule step.open_dir[where i = 0 and path = "''R''" and directory = "Some [''.'', ''..'', ''S'']" and messages = "[]" and errno' = 0]) (simp_all add: step_defs)
  then have st7: "step ?fs 0 ?s6 ?s7"
    unfolding se7 .
  have sr7: "steps ?fs ?s0 ?s7" by (rule steps.further[OF sr6 st7])
  have se8: "move 0 (Read_dir 0 ''R'' [''..'', ''S''] 0) (?s7) = ?s8"
    by (simp add: step_defs)
  have "step ?fs 0 ?s7 (move 0 (Read_dir 0 ''R'' [''..'', ''S''] 0) (?s7))"
    by (rule step.read_skip[where i = 0 and path = "''R''" and name = "''.''" and names = "[''..'', ''S'']" and sm = 0]) (simp_all add: step_defs)
  then have st8: "step ?fs 0 ?s7 ?s8"
    unfolding se8 .
  have sr8: "steps ?fs ?s0 ?s8" by (rule steps.further[OF sr7 st8])
  have se9: "move 0 (Read_dir 0 ''R'' [''S''] 0) (?s8) = ?s9"
    by (simp add: step_defs)
  have "step ?fs 0 ?s8 (move 0 (Read_dir 0 ''R'' [''S''] 0) (?s8))"
    by (rule step.read_skip[where i = 0 and path = "''R''" and name = "''..''" and names = "[''S'']" and sm = 0]) (simp_all add: step_defs)
  then have st9: "step ?fs 0 ?s8 ?s9"
    unfolding se9 .
  have sr9: "steps ?fs ?s0 ?s9" by (rule steps.further[OF sr8 st9])
  have se10: "move 0 (Read_dir 0 ''R'' [] 8) (put 0 (\<lparr>active_threads = 1, tot_sum = 8, dir_queue = [''R/S'']\<rparr>) ?s9) = ?s10"
    by (simp add: step_defs)
  have "step ?fs 0 ?s9 (move 0 (Read_dir 0 ''R'' [] 8) (put 0 (\<lparr>active_threads = 1, tot_sum = 8, dir_queue = [''R/S'']\<rparr>) ?s9))"
    by (rule step.read_entry[where i = 0 and path = "''R''" and name = "''S''" and names = "[]" and sm = 0 and sm' = 8 and c' = "\<lparr>active_threads = 1, tot_sum = 8, dir_queue = [''R/S'']\<rparr>" and d = Exit_failure]) (simp_all add: step_defs)
  then have st10: "step ?fs 0 ?s9 ?s10"
    unfolding se10 .
  have sr10: "steps ?fs ?s0 ?s10" by (rule steps.further[OF sr9 st10])
  have c: "create_thread_context 100 = Inr (\<lparr>coordinator = [None, None], dir_num = 0, size_tc = 2\<rparr>, 98)"
    by (simp add: create_thread_context_def safe_malloc_def safe_calloc_def)
  have p: "process_argument ?fs 1 1 ''R'' (\<lparr>coordinator = [None, None], dir_num = 0, size_tc = 2\<rparr>, 98) = Inr (?tc, 93)"
    by (simp add: seed_step_defs)
  have t: "traverse_input_arguments ?fs 1 [''mdu'', ''R''] (\<lparr>coordinator = [None, None], dir_num = 0, size_tc = 2\<rparr>, 98) = Inr (?tc, 93)"
    by (simp add: traverse_input_arguments_def p)
  have n1: "nat 1 = Suc 0" by simp
  have lc: "live_coordinators ?tc = Some ?cs"
    by (simp add: live_coordinators_def n1)
  have i: "initial ?cs 0 = ?s0"
    by (simp add: initial_def)
  have r10: "steps ?fs (initial ?cs 0) ?s10" unfolding i by (rule sr10)
  have r7: "steps ?fs (initial ?cs 0) ?s7" unfolding i by (rule sr7)
  have d: "directory_arguments ?fs 1 [''mdu'', ''R''] = [''R'']"
    by (simp add: directory_arguments_def path_arguments_def names_directory_def is_flag_arg_def
        is_dictionary_def S_IFMT_def S_IFDIR_def)
  have q: "0 < length (coords ?s10) \<and> ''R/S'' \<in> set (dir_queue (coords ?s10 ! 0))" by simp
  note T10 = queues_hold_no_dot_entries[OF c t lc r10, unfolded d]
  from T10[THEN conjunct1, THEN spec, THEN spec, THEN mp, OF q]
  have "''R/S'' = [''R''] ! 0 \<or>
        \<not> is_dot_or_dot_dot ''R/S'' \<and>
        (\<exists>dir name. ''R/S'' = full_path_of dir name \<and> \<not> is_dot_or_dot_dot name)" .
  then have nd: "\<not> is_dot_or_dot_dot ''R/S''" by simp
  have a: "at ?s7 0 (Read_dir 0 ''R'' (''.'' # [''..'', ''S'']) 0) \<and> is_dot_or_dot_dot ''.''"
    by (simp add: at_def is_dot_or_dot_dot_def)
  note T7 = queues_hold_no_dot_entries[OF c t lc r7]
  from T7[THEN conjunct2, THEN spec, THEN spec, THEN spec, THEN spec, THEN spec, THEN spec,
      THEN mp, OF a, THEN conjunct1, THEN spec]
  have "step ?fs 0 ?s7 ?s8 \<longleftrightarrow> ?s8 = move 0 (Read_dir 0 ''R'' [''..'', ''S''] 0) ?s7" .
  moreover have "?s8 = move 0 (Read_dir 0 ''R'' [''..'', ''S''] 0) ?s7"
    by (simp add: move_def)
  ultimately have k: "step ?fs 0 ?s7 ?s8" by (simp only: simp_thms)
  from c t lc r10 conjunct2[OF q] nd k show ?thesis by (intro conjI)
qed

text \<open>
  The command line \<^verbatim>\<open>mdu .\<close>: the seeding puts the argument \<^verbatim>\<open>.\<close> itself in the queue of its
  root, and the worker takes it from there.
\<close>

theorem seed_path_is_dot:
  "create_thread_context 100 = Inr (\<lparr>coordinator = [None, None], dir_num = 0, size_tc = 2\<rparr>, 98) \<and>
   traverse_input_arguments \<lparr>lstat = (\<lambda>p. if p = ''.'' then Some \<lparr>st_mode = 0x41ED, st_blocks = 8\<rparr> else None), opendir = (\<lambda>p. if p = ''.'' then Inr [''.'', ''..''] else Inl ENOTDIR)\<rparr> 1 [''mdu'', ''.''] (\<lparr>coordinator = [None, None], dir_num = 0, size_tc = 2\<rparr>, 98) =
     Inr (\<lparr>coordinator = [Some \<lparr>active_threads = 0, tot_sum = 8, dir_queue = [''.'']\<rparr>, None], dir_num = 1, size_tc = 2\<rparr>, 93) \<and>
   live_coordinators \<lparr>coordinator = [Some \<lparr>active_threads = 0, tot_sum = 8, dir_queue = [''.'']\<rparr>, None], dir_num = 1, size_tc = 2\<rparr> = Some [\<lparr>active_threads = 0, tot_sum = 8, dir_queue = [''.'']\<rparr>] \<and>
   steps \<lparr>lstat = (\<lambda>p. if p = ''.'' then Some \<lparr>st_mode = 0x41ED, st_blocks = 8\<rparr> else None), opendir = (\<lambda>p. if p = ''.'' then Inr [''.'', ''..''] else Inl ENOTDIR)\<rparr>
     (initial [\<lparr>active_threads = 0, tot_sum = 8, dir_queue = [''.'']\<rparr>] 0)
     \<lparr>coords = [\<lparr>active_threads = 0, tot_sum = 8, dir_queue = [''.'']\<rparr>], workers = [\<lparr>loc = Take 0, errno = 0\<rparr>], mutex_work = Some 0, stderr = [], proc = Running\<rparr> \<and>
   ''.'' \<in> set (dir_queue (coords \<lparr>coords = [\<lparr>active_threads = 0, tot_sum = 8, dir_queue = [''.'']\<rparr>], workers = [\<lparr>loc = Take 0, errno = 0\<rparr>], mutex_work = Some 0, stderr = [], proc = Running\<rparr> ! 0)) \<and>
   is_dot_or_dot_dot ''.'' \<and>
   step \<lparr>lstat = (\<lambda>p. if p = ''.'' then Some \<lparr>st_mode = 0x41ED, st_blocks = 8\<rparr> else None), opendir = (\<lambda>p. if p = ''.'' then Inr [''.'', ''..''] else Inl ENOTDIR)\<rparr> 0
     \<lparr>coords = [\<lparr>active_threads = 0, tot_sum = 8, dir_queue = [''.'']\<rparr>], workers = [\<lparr>loc = Take 0, errno = 0\<rparr>], mutex_work = Some 0, stderr = [], proc = Running\<rparr>
     \<lparr>coords = [\<lparr>active_threads = 0, tot_sum = 8, dir_queue = []\<rparr>], workers = [\<lparr>loc = Increment 0 ''.'', errno = 0\<rparr>], mutex_work = Some 0, stderr = [], proc = Running\<rparr>"
proof -
  let ?fs = "\<lparr>lstat = (\<lambda>p. if p = ''.'' then Some \<lparr>st_mode = 0x41ED, st_blocks = 8\<rparr> else None), opendir = (\<lambda>p. if p = ''.'' then Inr [''.'', ''..''] else Inl ENOTDIR)\<rparr>"
  let ?tc = "\<lparr>coordinator = [Some \<lparr>active_threads = 0, tot_sum = 8, dir_queue = [''.'']\<rparr>, None], dir_num = 1, size_tc = 2\<rparr>"
  let ?cs = "[\<lparr>active_threads = 0, tot_sum = 8, dir_queue = [''.'']\<rparr>]"
  let ?t0 = "\<lparr>coords = [\<lparr>active_threads = 0, tot_sum = 8, dir_queue = [''.'']\<rparr>], workers = [\<lparr>loc = Seek, errno = 0\<rparr>], mutex_work = None, stderr = [], proc = Running\<rparr>"
  let ?t1 = "\<lparr>coords = [\<lparr>active_threads = 0, tot_sum = 8, dir_queue = [''.'']\<rparr>], workers = [\<lparr>loc = Active 0, errno = 0\<rparr>], mutex_work = Some 0, stderr = [], proc = Running\<rparr>"
  let ?t2 = "\<lparr>coords = [\<lparr>active_threads = 0, tot_sum = 8, dir_queue = [''.'']\<rparr>], workers = [\<lparr>loc = Active_queue 0, errno = 0\<rparr>], mutex_work = Some 0, stderr = [], proc = Running\<rparr>"
  let ?t3 = "\<lparr>coords = [\<lparr>active_threads = 0, tot_sum = 8, dir_queue = [''.'']\<rparr>], workers = [\<lparr>loc = Work 0, errno = 0\<rparr>], mutex_work = Some 0, stderr = [], proc = Running\<rparr>"
  let ?t4 = "\<lparr>coords = [\<lparr>active_threads = 0, tot_sum = 8, dir_queue = [''.'']\<rparr>], workers = [\<lparr>loc = Take 0, errno = 0\<rparr>], mutex_work = Some 0, stderr = [], proc = Running\<rparr>"
  let ?t5 = "\<lparr>coords = [\<lparr>active_threads = 0, tot_sum = 8, dir_queue = []\<rparr>], workers = [\<lparr>loc = Increment 0 ''.'', errno = 0\<rparr>], mutex_work = Some 0, stderr = [], proc = Running\<rparr>"
  have tr0: "steps ?fs ?t0 ?t0" by (rule steps.here)
  have te1: "(move 0 (Active 0) (?t0))\<lparr>mutex_work := Some 0\<rparr> = ?t1"
    by (simp add: step_defs)
  have "step ?fs 0 ?t0 ((move 0 (Active 0) (?t0))\<lparr>mutex_work := Some 0\<rparr>)"
    by (rule step.lock) (simp_all add: step_defs)
  then have tt1: "step ?fs 0 ?t0 ?t1"
    unfolding te1 .
  have tr1: "steps ?fs ?t0 ?t1" by (rule steps.further[OF tr0 tt1])
  have te2: "move 0 (Active_queue 0) (?t1) = ?t2"
    by (simp add: step_defs)
  have "step ?fs 0 ?t1 (move 0 (Active_queue 0) (?t1))"
    by (rule step.active_no_counter[where i = 0]) (simp_all add: step_defs)
  then have tt2: "step ?fs 0 ?t1 ?t2"
    unfolding te2 .
  have tr2: "steps ?fs ?t0 ?t2" by (rule steps.further[OF tr1 tt2])
  have te3: "move 0 (Work 0) (?t2) = ?t3"
    by (simp add: step_defs)
  have "step ?fs 0 ?t2 (move 0 (Work 0) (?t2))"
    by (rule step.active_queue[where i = 0]) (simp_all add: step_defs)
  then have tt3: "step ?fs 0 ?t2 ?t3"
    unfolding te3 .
  have tr3: "steps ?fs ?t0 ?t3" by (rule steps.further[OF tr2 tt3])
  have te4: "move 0 (Take 0) (?t3) = ?t4"
    by (simp add: step_defs)
  have "step ?fs 0 ?t3 (move 0 (Take 0) (?t3))"
    by (rule step.work_found[where i = 0]) (simp_all add: step_defs)
  then have tt4: "step ?fs 0 ?t3 ?t4"
    unfolding te4 .
  have tr4: "steps ?fs ?t0 ?t4" by (rule steps.further[OF tr3 tt4])
  have te5: "move 0 (Increment 0 ''.'') (put 0 ((coords ?t4 ! 0)\<lparr>dir_queue := []\<rparr>) ?t4) = ?t5"
    by (simp add: step_defs)
  have "step ?fs 0 ?t4 (move 0 (Increment 0 ''.'') (put 0 ((coords ?t4 ! 0)\<lparr>dir_queue := []\<rparr>) ?t4))"
    by (rule step.take[where i = 0 and path = "''.''" and rest = "[]"]) (simp_all add: step_defs)
  then have tt5: "step ?fs 0 ?t4 ?t5"
    unfolding te5 .
  have tr5: "steps ?fs ?t0 ?t5" by (rule steps.further[OF tr4 tt5])
  have c: "create_thread_context 100 = Inr (\<lparr>coordinator = [None, None], dir_num = 0, size_tc = 2\<rparr>, 98)"
    by (simp add: create_thread_context_def safe_malloc_def safe_calloc_def)
  have p: "process_argument ?fs 1 1 ''.'' (\<lparr>coordinator = [None, None], dir_num = 0, size_tc = 2\<rparr>, 98) = Inr (?tc, 93)"
    by (simp add: seed_step_defs)
  have t: "traverse_input_arguments ?fs 1 [''mdu'', ''.''] (\<lparr>coordinator = [None, None], dir_num = 0, size_tc = 2\<rparr>, 98) = Inr (?tc, 93)"
    by (simp add: traverse_input_arguments_def p)
  have n1: "nat 1 = Suc 0" by simp
  have lc: "live_coordinators ?tc = Some ?cs"
    by (simp add: live_coordinators_def n1)
  have i: "initial ?cs 0 = ?t0"
    by (simp add: initial_def)
  have r: "steps ?fs (initial ?cs 0) ?t4" unfolding i by (rule tr4)
  have q: "''.'' \<in> set (dir_queue (coords ?t4 ! 0))" by simp
  have dd: "is_dot_or_dot_dot ''.''" by (simp add: is_dot_or_dot_dot_def)
  from c t lc r q dd tt5 show ?thesis by (intro conjI)
qed


section \<open>The total of a root\<close>






















lemma finished_loc:
  assumes "finished s" "v < length (workers s)"
  shows "\<exists>x. loc (workers s ! v) = Exited x"
proof -
  from assms have "exit_value (loc (workers s ! v)) \<noteq> None" by (simp add: finished_def)
  then show ?thesis by (cases "loc (workers s ! v)") simp_all
qed












section \<open>The lines of \<^verbatim>\<open>print_results\<close>\<close>


lemma print_from_flag:
  "is_flag_arg optind i \<Longrightarrow>
   print_from fs optind cs mem i dn (arg # args) = print_from fs optind cs mem (i + 1) dn args"
  by simp

lemma print_from_path:
  assumes "\<not> is_flag_arg optind i" "print_from fs optind cs mem i dn (arg # args) = (out, None)"
  shows "\<exists>st out'. lstat fs arg = Some st \<and>
           (is_dictionary st \<longrightarrow>
              dn < length cs \<and> out = result_line (tot_sum (cs ! dn)) arg # out' \<and>
              print_from fs optind cs mem (i + 1) (dn + 1) args = (out', None)) \<and>
           (\<not> is_dictionary st \<longrightarrow>
              out = result_line (scast (st_blocks st)) arg # out' \<and>
              print_from fs optind cs mem (i + 1) dn args = (out', None))"
  using assms
  by (cases "lstat fs arg") (auto simp add: safe_lstat_def split: if_splits prod.splits)

lemma path_args_flag:
  "is_flag_arg optind i \<Longrightarrow> path_args_from optind i (arg # args) = path_args_from optind (i + 1) args"
  by simp

lemma path_args_path:
  "\<not> is_flag_arg optind i \<Longrightarrow>
   path_args_from optind i (arg # args) = arg # path_args_from optind (i + 1) args"
  by simp

lemma print_from_length:
  "print_from fs optind cs mem i dn args = (out, None) \<Longrightarrow>
   length out = length (path_args_from optind i args)"
proof (induction args arbitrary: i dn out)
  case Nil
  then show ?case by simp
next
  case (Cons arg args)
  show ?case
  proof (cases "is_flag_arg optind i")
    case True
    from Cons.prems have "print_from fs optind cs mem (i + 1) dn args = (out, None)"
      unfolding print_from_flag[OF True] .
    from Cons.IH[OF this] show ?thesis unfolding path_args_flag[OF True] .
  next
    case False
    from print_from_path[OF False Cons.prems] obtain st out' where
      d: "is_dictionary st \<longrightarrow>
              dn < length cs \<and> out = result_line (tot_sum (cs ! dn)) arg # out' \<and>
              print_from fs optind cs mem (i + 1) (dn + 1) args = (out', None)"
      and f: "\<not> is_dictionary st \<longrightarrow>
              out = result_line (scast (st_blocks st)) arg # out' \<and>
              print_from fs optind cs mem (i + 1) dn args = (out', None)"
      by blast
    have "length out = Suc (length (path_args_from optind (i + 1) args))"
    proof (cases "is_dictionary st")
      case True
      with d Cons.IH[of "i + 1" "dn + 1" out'] show ?thesis by simp
    next
      case False
      with f Cons.IH[of "i + 1" dn out'] show ?thesis by simp
    qed
    then show ?thesis unfolding path_args_path[OF False] by simp
  qed
qed

lemma print_from_nth:
  "print_from fs optind cs mem i dn args = (out, None) \<Longrightarrow>
   k < length (path_args_from optind i args) \<Longrightarrow>
   \<exists>st. lstat fs (path_args_from optind i args ! k) = Some st \<and>
     (is_dictionary st \<longrightarrow>
        out ! k =
          result_line
            (tot_sum (cs ! (dn + length (filter (names_directory fs)
                                           (take k (path_args_from optind i args))))))
            (path_args_from optind i args ! k)) \<and>
     (\<not> is_dictionary st \<longrightarrow>
        out ! k = result_line (scast (st_blocks st)) (path_args_from optind i args ! k))"
proof (induction args arbitrary: i dn out k)
  case Nil
  then show ?case by simp
next
  case (Cons arg args)
  show ?case
  proof (cases "is_flag_arg optind i")
    case True
    from Cons.prems(1) have p: "print_from fs optind cs mem (i + 1) dn args = (out, None)"
      unfolding print_from_flag[OF True] .
    from Cons.prems(2) have k: "k < length (path_args_from optind (i + 1) args)"
      unfolding path_args_flag[OF True] .
    from Cons.IH[OF p k] show ?thesis unfolding path_args_flag[OF True] .
  next
    case False
    note pa = path_args_path[OF False, of arg args]
    from print_from_path[OF False Cons.prems(1)] obtain st out' where
      st: "lstat fs arg = Some st"
      and d: "is_dictionary st \<longrightarrow>
              dn < length cs \<and> out = result_line (tot_sum (cs ! dn)) arg # out' \<and>
              print_from fs optind cs mem (i + 1) (dn + 1) args = (out', None)"
      and f: "\<not> is_dictionary st \<longrightarrow>
              out = result_line (scast (st_blocks st)) arg # out' \<and>
              print_from fs optind cs mem (i + 1) dn args = (out', None)"
      by blast
    have nd: "names_directory fs arg \<longleftrightarrow> is_dictionary st"
      using st by (simp add: names_directory_def)
    show ?thesis
    proof (cases k)
      case 0
      have "lstat fs arg = Some st \<and>
            (is_dictionary st \<longrightarrow> out ! 0 = result_line (tot_sum (cs ! (dn + 0))) arg) \<and>
            (\<not> is_dictionary st \<longrightarrow> out ! 0 = result_line (scast (st_blocks st)) arg)"
        using st d f by auto
      then show ?thesis unfolding pa 0 by (intro exI[of _ st]) simp
    next
      case (Suc k')
      with Cons.prems(2) have k': "k' < length (path_args_from optind (i + 1) args)"
        unfolding pa by simp
      show ?thesis
      proof (cases "is_dictionary st")
        case True
        with d have o: "out = result_line (tot_sum (cs ! dn)) arg # out'"
          and p: "print_from fs optind cs mem (i + 1) (dn + 1) args = (out', None)" by simp_all
        from Cons.IH[OF p k'] obtain st' where
          "lstat fs (path_args_from optind (i + 1) args ! k') = Some st' \<and>
     (is_dictionary st' \<longrightarrow>
        out' ! k' =
          result_line
            (tot_sum (cs ! (dn + 1 + length (filter (names_directory fs)
                                           (take k' (path_args_from optind (i + 1) args))))))
            (path_args_from optind (i + 1) args ! k')) \<and>
     (\<not> is_dictionary st' \<longrightarrow>
        out' ! k' = result_line (scast (st_blocks st')) (path_args_from optind (i + 1) args ! k'))"
          by blast
        then show ?thesis unfolding pa Suc o using nd True
          by (intro exI[of _ st']) simp
      next
        case False
        with f have o: "out = result_line (scast (st_blocks st)) arg # out'"
          and p: "print_from fs optind cs mem (i + 1) dn args = (out', None)" by simp_all
        from Cons.IH[OF p k'] obtain st' where
          "lstat fs (path_args_from optind (i + 1) args ! k') = Some st' \<and>
     (is_dictionary st' \<longrightarrow>
        out' ! k' =
          result_line
            (tot_sum (cs ! (dn + length (filter (names_directory fs)
                                           (take k' (path_args_from optind (i + 1) args))))))
            (path_args_from optind (i + 1) args ! k')) \<and>
     (\<not> is_dictionary st' \<longrightarrow>
        out' ! k' = result_line (scast (st_blocks st')) (path_args_from optind (i + 1) args ! k'))"
          by blast
        then show ?thesis unfolding pa Suc o using nd False
          by (intro exI[of _ st']) simp
      qed
    qed
  qed
qed

lemma print_from_total:
  assumes "\<forall>arg\<in>set (path_args_from optind i args). lstat fs arg \<noteq> None"
    and "dn + length (filter (names_directory fs) (path_args_from optind i args)) \<le> length cs"
  shows "\<exists>out. print_from fs optind cs mem i dn args = (out, None)"
  using assms
proof (induction args arbitrary: i dn)
  case Nil
  then show ?case by simp
next
  case (Cons arg args)
  show ?case
  proof (cases "is_flag_arg optind i")
    case True
    with Cons show ?thesis by simp
  next
    case nf: False
    with Cons.prems obtain st where st: "lstat fs arg = Some st" by auto
    show ?thesis
    proof (cases "is_dictionary st")
      case True
      then have nd: "names_directory fs arg" using st by (simp add: names_directory_def)
      from Cons.prems nf nd have
        "\<forall>arg\<in>set (path_args_from optind (i + 1) args). lstat fs arg \<noteq> None"
        "dn + 1 + length (filter (names_directory fs) (path_args_from optind (i + 1) args)) \<le> length cs"
        by simp_all
      from Cons.IH[OF this] obtain out' where
        "print_from fs optind cs mem (i + 1) (dn + 1) args = (out', None)" by blast
      moreover have "dn < length cs" using Cons.prems(2) nf nd by simp
      ultimately show ?thesis using nf st True by (simp add: safe_lstat_def)
    next
      case False
      then have nd: "\<not> names_directory fs arg" using st by (simp add: names_directory_def)
      from Cons.prems nf nd have
        "\<forall>arg\<in>set (path_args_from optind (i + 1) args). lstat fs arg \<noteq> None"
        "dn + length (filter (names_directory fs) (path_args_from optind (i + 1) args)) \<le> length cs"
        by simp_all
      from Cons.IH[OF this] obtain out' where
        "print_from fs optind cs mem (i + 1) dn args = (out', None)" by blast
      then show ?thesis using nf st False by (simp add: safe_lstat_def)
    qed
  qed
qed

lemma sint_in_range:
  assumes "- 2147483648 \<le> x" "x < 2147483648"
  shows "sint (word_of_int x :: 32 word) = x"
proof -
  have "(x + 2147483648) mod 4294967296 = x + 2147483648"
    using assms by (intro mod_pos_pos_trivial) simp_all
  then show ?thesis by (simp add: int_word_sint)
qed

lemma int_of_blocks:
  assumes "- 2147483648 \<le> sint (b :: 64 word)" "sint b < 2147483648"
  shows "sint (scast b :: 32 word) = sint b"
  unfolding scast_eq[of b] using assms by (rule sint_in_range)


lemma show_int_0: "show_int 0 = ''0''"
  by (simp add: show_int_def dec_digits.simps[of 0] char_of_def bit_Suc_0_iff)

lemma show_int_1: "show_int 1 = ''1''"
  by (simp add: show_int_def dec_digits.simps[of "Suc 0"] char_of_def bit_Suc_0_iff)

lemma show_int_19: "show_int 19 = ''19''"
  by (simp add: show_int_def dec_digits.simps[of 19] dec_digits.simps[of "Suc 0"] char_of_def
      bit_Suc_0_iff)

text \<open>
  Claim C8, with the arithmetic of the program. When \<^verbatim>\<open>print_results\<close> returns, it has written
  one line for each path argument, in the order of the command line: the value in decimal,
  a tab, the argument, a newline. For an argument that \<^verbatim>\<open>lstat\<close> reports as a directory the
  value is \<^verbatim>\<open>tot_sum\<close> of the next coordinator, that is the coordinator whose index is the
  number of directories among the arguments before it; for any other argument it is
  \<^verbatim>\<open>st_blocks\<close> of that file, read again by \<^verbatim>\<open>lstat\<close> and converted to \<^verbatim>\<open>int\<close>, which is
  \<^verbatim>\<open>st_blocks\<close> itself when that is below \<open>2^31\<close>. And \<^verbatim>\<open>print_results\<close> does return when \<^verbatim>\<open>lstat\<close>
  succeeds on every path argument and there is a coordinator for every directory among them.
\<close>

theorem print_results_lines:
  "(print_results fs optind argv cs mem = (out, None) \<longrightarrow>
      length out = length (path_arguments optind argv) \<and>
      (\<forall>k<length (path_arguments optind argv).
         \<exists>st. lstat fs (path_arguments optind argv ! k) = Some st \<and>
           (is_dictionary st \<longrightarrow>
              out ! k =
                show_int (sint (tot_sum (cs ! length (filter (names_directory fs)
                                                       (take k (path_arguments optind argv)))))) @
                [CHR 0x09] @ path_arguments optind argv ! k @ [CHR 0x0A]) \<and>
           (\<not> is_dictionary st \<longrightarrow>
              out ! k =
                show_int (sint (scast (st_blocks st) :: 32 word)) @
                [CHR 0x09] @ path_arguments optind argv ! k @ [CHR 0x0A] \<and>
              (- 2147483648 \<le> sint (st_blocks st) \<and> sint (st_blocks st) < 2147483648 \<longrightarrow>
                 sint (scast (st_blocks st) :: 32 word) = sint (st_blocks st))))) \<and>
   ((\<forall>arg\<in>set (path_arguments optind argv). lstat fs arg \<noteq> None) \<and>
    length (filter (names_directory fs) (path_arguments optind argv)) \<le> length cs \<longrightarrow>
      (\<exists>lines. print_results fs optind argv cs mem = (lines, None)))"
proof (intro conjI impI allI)
  assume p: "print_results fs optind argv cs mem = (out, None)"
  then show "length out = length (path_arguments optind argv)"
    unfolding print_results_def path_arguments_def by (rule print_from_length)
next
  fix k
  assume p: "print_results fs optind argv cs mem = (out, None)"
    and k: "k < length (path_arguments optind argv)"
  from print_from_nth[OF p[unfolded print_results_def] k[unfolded path_arguments_def]]
  obtain st where
    st: "lstat fs (path_arguments optind argv ! k) = Some st"
    and d: "is_dictionary st \<longrightarrow>
        out ! k =
          result_line
            (tot_sum (cs ! (0 + length (filter (names_directory fs)
                                          (take k (path_arguments optind argv))))))
            (path_arguments optind argv ! k)"
    and f: "\<not> is_dictionary st \<longrightarrow>
        out ! k = result_line (scast (st_blocks st)) (path_arguments optind argv ! k)"
    unfolding path_arguments_def by blast
  have r: "- 2147483648 \<le> sint (st_blocks st) \<and> sint (st_blocks st) < 2147483648 \<longrightarrow>
                 sint (scast (st_blocks st) :: 32 word) = sint (st_blocks st)"
    using int_of_blocks by blast
  show "\<exists>st. lstat fs (path_arguments optind argv ! k) = Some st \<and>
           (is_dictionary st \<longrightarrow>
              out ! k =
                show_int (sint (tot_sum (cs ! length (filter (names_directory fs)
                                                       (take k (path_arguments optind argv)))))) @
                [CHR 0x09] @ path_arguments optind argv ! k @ [CHR 0x0A]) \<and>
           (\<not> is_dictionary st \<longrightarrow>
              out ! k =
                show_int (sint (scast (st_blocks st) :: 32 word)) @
                [CHR 0x09] @ path_arguments optind argv ! k @ [CHR 0x0A] \<and>
              (- 2147483648 \<le> sint (st_blocks st) \<and> sint (st_blocks st) < 2147483648 \<longrightarrow>
                 sint (scast (st_blocks st) :: 32 word) = sint (st_blocks st)))"
    using st d f r by (intro exI[of _ st]) (simp add: result_line_def)
next
  assume a: "(\<forall>arg\<in>set (path_arguments optind argv). lstat fs arg \<noteq> None) \<and>
    length (filter (names_directory fs) (path_arguments optind argv)) \<le> length cs"
  from a have 1: "\<forall>arg\<in>set (path_args_from optind 1 (tl argv)). lstat fs arg \<noteq> None"
    by (simp add: path_arguments_def)
  from a have 2: "0 + length (filter (names_directory fs) (path_args_from optind 1 (tl argv))) \<le> length cs"
    by (simp add: path_arguments_def)
  from print_from_total[OF 1 2]
  show "\<exists>lines. print_results fs optind argv cs mem = (lines, None)"
    by (simp add: print_results_def)
qed

theorem print_results_lines_witness:
  "path_arguments 3 [''mdu'', ''-j'', ''2'', ''R'', ''a''] = [''R'', ''a''] \<and>
   print_results
     \<lparr>lstat = (\<lambda>p. if p = ''R'' then Some \<lparr>st_mode = 0x41ED, st_blocks = 8\<rparr>
                   else if p = ''a'' then Some \<lparr>st_mode = 0x81A4, st_blocks = 1\<rparr> else None),
      opendir = (\<lambda>p. Inl ENOTDIR)\<rparr>
     3 [''mdu'', ''-j'', ''2'', ''R'', ''a'']
     [\<lparr>active_threads = 0, tot_sum = 19, dir_queue = []\<rparr>] 0 =
     ([[CHR ''1'', CHR ''9'', CHR 0x09, CHR ''R'', CHR 0x0A],
       [CHR ''1'', CHR 0x09, CHR ''a'', CHR 0x0A]], None) \<and>
   length [[CHR ''1'', CHR ''9'', CHR 0x09, CHR ''R'', CHR 0x0A],
           [CHR ''1'', CHR 0x09, CHR ''a'', CHR 0x0A]] =
     length (path_arguments 3 [''mdu'', ''-j'', ''2'', ''R'', ''a''])"
proof -
  let ?fs = "\<lparr>lstat = (\<lambda>p. if p = ''R'' then Some \<lparr>st_mode = 0x41ED, st_blocks = 8\<rparr>
                   else if p = ''a'' then Some \<lparr>st_mode = 0x81A4, st_blocks = 1\<rparr> else None),
      opendir = (\<lambda>p. Inl ENOTDIR)\<rparr>"
  let ?argv = "[''mdu'', ''-j'', ''2'', ''R'', ''a'']"
  let ?cs = "[\<lparr>active_threads = 0, tot_sum = 19, dir_queue = []\<rparr>]"
  let ?out = "[[CHR ''1'', CHR ''9'', CHR 0x09, CHR ''R'', CHR 0x0A],
               [CHR ''1'', CHR 0x09, CHR ''a'', CHR 0x0A]]"
  have pa: "path_arguments 3 ?argv = [''R'', ''a'']"
    by (simp add: path_arguments_def is_flag_arg_def)
  have a: "(\<forall>arg\<in>set (path_arguments 3 ?argv). lstat ?fs arg \<noteq> None) \<and>
    length (filter (names_directory ?fs) (path_arguments 3 ?argv)) \<le> length ?cs"
    unfolding pa
    by (simp add: names_directory_def is_dictionary_def S_IFMT_def S_IFDIR_def)
  from print_results_lines[of ?fs 3 ?argv ?cs 0, THEN conjunct2, THEN mp, OF a]
  have "\<exists>lines. print_results ?fs 3 ?argv ?cs 0 = (lines, None)" .
  have p: "print_results ?fs 3 ?argv ?cs 0 = (?out, None)"
    by (simp add: print_results_def is_flag_arg_def safe_lstat_def is_dictionary_def S_IFMT_def
        S_IFDIR_def result_line_def show_int_19 show_int_1)
  from print_results_lines[of ?fs 3 ?argv ?cs 0 ?out, THEN conjunct1, THEN mp, OF p]
  have l: "length ?out = length (path_arguments 3 ?argv)" by (rule conjunct1)
  from pa p l show ?thesis by (intro conjI)
qed

text \<open>
  A plain file of \<open>2^32\<close> blocks is printed with 0 blocks.
\<close>

theorem plain_file_block_count_is_truncated:
  "print_results
     \<lparr>lstat = (\<lambda>p. if p = ''f'' then Some \<lparr>st_mode = 0x81A4, st_blocks = 4294967296\<rparr> else None),
      opendir = (\<lambda>p. Inl ENOTDIR)\<rparr>
     1 [''mdu'', ''f''] [] 0 =
     ([[CHR ''0'', CHR 0x09, CHR ''f'', CHR 0x0A]], None) \<and>
   own_blocks
     \<lparr>lstat = (\<lambda>p. if p = ''f'' then Some \<lparr>st_mode = 0x81A4, st_blocks = 4294967296\<rparr> else None),
      opendir = (\<lambda>p. Inl ENOTDIR)\<rparr> ''f'' = 4294967296"
  by (simp add: print_results_def is_flag_arg_def safe_lstat_def is_dictionary_def S_IFMT_def
      S_IFDIR_def result_line_def show_int_0 own_blocks_def)


section \<open>A directory that cannot be opened\<close>


lemma step_Open_dir_failed:
  assumes "at s w (Open_dir i path)" "opendir fs path = Inl e"
  shows "step fs w s s' \<longleftrightarrow>
         s' = s\<lparr>workers := (workers s)[w := \<lparr>loc = Finish i, errno = errno_value e\<rparr>],
                stderr := stderr s @ [Cannot_read_directory path e]\<rparr>"
proof
  assume "step fs w s s'"
  then show "s' = s\<lparr>workers := (workers s)[w := \<lparr>loc = Finish i, errno = errno_value e\<rparr>],
                stderr := stderr s @ [Cannot_read_directory path e]\<rparr>"
    using assms by (cases rule: step.cases) (auto simp add: at_def safe_opendir_def)
next
  have o: "safe_opendir fs path (errno (workers s ! w)) =
             (None, [Cannot_read_directory path e], errno_value e)"
    using assms(2) by (simp add: safe_opendir_def)
  assume "s' = s\<lparr>workers := (workers s)[w := \<lparr>loc = Finish i, errno = errno_value e\<rparr>],
                stderr := stderr s @ [Cannot_read_directory path e]\<rparr>"
  with step.open_dir[OF assms(1) o] show "step fs w s s'" by simp
qed

lemma step_Finish:
  assumes "at s w (Finish i)"
  shows "step fs w s s' \<longleftrightarrow>
         i < length (coords s) \<and> mutex_work s = None \<and>
         s' = move w Seek
                (put i ((coords s ! i)\<lparr>active_threads :=
                           decrement_counter (active_threads (coords s ! i))\<rparr>) s)"
proof
  assume "step fs w s s'"
  then show "i < length (coords s) \<and> mutex_work s = None \<and>
         s' = move w Seek
                (put i ((coords s ! i)\<lparr>active_threads :=
                           decrement_counter (active_threads (coords s ! i))\<rparr>) s)"
    using assms by (cases rule: step.cases) (simp_all add: at_def)
next
  assume "i < length (coords s) \<and> mutex_work s = None \<and>
         s' = move w Seek
                (put i ((coords s ! i)\<lparr>active_threads :=
                           decrement_counter (active_threads (coords s ! i))\<rparr>) s)"
  with assms show "step fs w s s'" by (simp add: step.finish)
qed

lemma errno_value_nonzero: "errno_value e \<noteq> 0"
  by (cases e) simp_all

text \<open>
  A thread that has seen \<^verbatim>\<open>errno\<close> set keeps it set, and returns 1 when it returns.
\<close>

lemma failure_flag_step:
  assumes "step fs v s s'" "w < length (workers s)"
    and "errno (workers s ! w) \<noteq> 0"
    and "\<forall>x. loc (workers s ! w) = Exited x \<longrightarrow> x = 1"
  shows "errno (workers s' ! w) \<noteq> 0 \<and> (\<forall>x. loc (workers s' ! w) = Exited x \<longrightarrow> x = 1)"
proof (cases "v = w")
  case False
  from step_others[OF assms(1), of w] False assms(3,4) show ?thesis by simp
next
  case True
  from assms(1)[unfolded True] assms(2,3,4) show ?thesis
  proof (induction rule: step.induct)
    case (open_dir s i path directory messages errno')
    then show ?case
      by (auto simp add: at_def safe_opendir_def errno_value_nonzero split: sum.splits option.splits)
  qed (auto simp add: at_def move_def put_def)
qed

lemma failure_flag_steps:
  assumes "steps fs s t" "w < length (workers s)"
    and "errno (workers s ! w) \<noteq> 0"
    and "\<forall>x. loc (workers s ! w) = Exited x \<longrightarrow> x = 1"
  shows "errno (workers t ! w) \<noteq> 0 \<and> (\<forall>x. loc (workers t ! w) = Exited x \<longrightarrow> x = 1)"
  using assms
proof (induction rule: steps.induct)
  case (here s)
  then show ?case by simp
next
  case (further s s' v s'')
  from further(3)[OF further(4,5,6)] have
    e: "errno (workers s' ! w) \<noteq> 0" and x: "\<forall>x. loc (workers s' ! w) = Exited x \<longrightarrow> x = 1"
    by simp_all
  from further(1,4) have l: "w < length (workers s')" by (simp add: steps_lengths)
  from failure_flag_step[OF further(2) l e x] show ?case .
qed

lemma collect_failure:
  "collect_thread_exit_statuses vs st = (if EXIT_FAILURE \<in> set vs then EXIT_FAILURE else st)"
  by (induction vs arbitrary: st) simp_all

lemma final_status_failure:
  assumes "w < length (workers t)" "loc (workers t ! w) = Exited 1"
  shows "final_status t = EXIT_FAILURE"
proof -
  let ?vs = "map (\<lambda>x. case exit_value (loc x) of None \<Rightarrow> 0 | Some v \<Rightarrow> v) (workers t)"
  have v: "?vs ! w = 1" using assms by simp
  have ne: "?vs \<noteq> []" using assms(1) by auto
  have "collect_thread_exit_statuses (tl ?vs) (hd ?vs) = EXIT_FAILURE"
  proof (cases w)
    case 0
    with v ne have "hd ?vs = 1" by (simp add: hd_conv_nth)
    then show ?thesis by (simp add: collect_failure EXIT_FAILURE_def)
  next
    case (Suc n)
    with assms(1) have n: "n < length (tl ?vs)" by simp
    have "tl ?vs ! n = 1" using v Suc n by (simp add: nth_tl)
    with n have "1 \<in> set (tl ?vs)" by (metis nth_mem)
    then show ?thesis by (simp add: collect_failure EXIT_FAILURE_def)
  qed
  then show ?thesis by (simp add: final_status_def Let_def EXIT_FAILURE_def EXIT_SUCCESS_def)
qed

text \<open>
  Claim C4. A worker about to open a directory whose \<^verbatim>\<open>opendir\<close> fails has one step: one
  diagnostic is added to stderr, the worker has \<^verbatim>\<open>errno\<close> set and is past
  \<^verbatim>\<open>traverse_directory\<close>; the coordinators (totals and queues), the other workers and the
  process are as before. Its next step gives the path back to the root by decrementing the
  counter, which changes no total and no queue, and it can take that step as soon as the
  mutex is free; then it looks for work again. In every run that continues from there until
  all workers have returned, this worker returns 1 and the status of \<^verbatim>\<open>main\<close> is
  \<^verbatim>\<open>EXIT_FAILURE\<close>.
\<close>

theorem failed_opendir_is_survived:
  assumes "at s w (Open_dir i path)" and "opendir fs path = Inl e"
  shows "(\<forall>s'. step fs w s s' \<longleftrightarrow>
            s' = s\<lparr>workers := (workers s)[w := \<lparr>loc = Finish i, errno = errno_value e\<rparr>],
                   stderr := stderr s @ [Cannot_read_directory path e]\<rparr>) \<and>
         (\<forall>s' s''. step fs w s s' \<and> step fs w s' s'' \<longrightarrow>
            loc (workers s'' ! w) = Seek \<and> proc s'' = Running \<and>
            map tot_sum (coords s'') = map tot_sum (coords s) \<and>
            map dir_queue (coords s'') = map dir_queue (coords s)) \<and>
         (\<forall>s'. step fs w s s' \<and> i < length (coords s) \<and> mutex_work s = None \<longrightarrow>
            (\<exists>s''. step fs w s' s'')) \<and>
         (\<forall>s' t. step fs w s s' \<and> steps fs s' t \<and> finished t \<longrightarrow>
            loc (workers t ! w) = Exited 1 \<and> final_status t = EXIT_FAILURE)"
proof (intro conjI allI impI)
  fix s'
  show "step fs w s s' \<longleftrightarrow>
            s' = s\<lparr>workers := (workers s)[w := \<lparr>loc = Finish i, errno = errno_value e\<rparr>],
                   stderr := stderr s @ [Cannot_read_directory path e]\<rparr>"
    using assms by (rule step_Open_dir_failed)
next
  fix s' s''
  assume a: "step fs w s s' \<and> step fs w s' s''"
  let ?s' = "s\<lparr>workers := (workers s)[w := \<lparr>loc = Finish i, errno = errno_value e\<rparr>],
                   stderr := stderr s @ [Cannot_read_directory path e]\<rparr>"
  from a have s': "s' = ?s'" using step_Open_dir_failed[OF assms] by blast
  have at': "at ?s' w (Finish i)" using assms(1) by (simp add: at_def)
  from a have "step fs w ?s' s''" unfolding s' by simp
  then have i: "i < length (coords ?s')"
    and s'': "s'' = move w Seek
                (put i ((coords ?s' ! i)\<lparr>active_threads :=
                           decrement_counter (active_threads (coords ?s' ! i))\<rparr>) ?s')"
    unfolding step_Finish[OF at'] by simp_all
  have w: "w < length (workers s)" using assms(1) by (simp add: at_def)
  show "loc (workers s'' ! w) = Seek" unfolding s'' using w by (simp add: move_def put_def)
  show "proc s'' = Running" unfolding s'' using assms(1) by (simp add: move_def put_def at_def)
  show "map tot_sum (coords s'') = map tot_sum (coords s)"
    unfolding s'' using i by (simp add: move_def put_def map_update list_update_same_conv)
  show "map dir_queue (coords s'') = map dir_queue (coords s)"
    unfolding s'' using i by (simp add: move_def put_def map_update list_update_same_conv)
next
  fix s'
  assume a: "step fs w s s' \<and> i < length (coords s) \<and> mutex_work s = None"
  let ?s' = "s\<lparr>workers := (workers s)[w := \<lparr>loc = Finish i, errno = errno_value e\<rparr>],
                   stderr := stderr s @ [Cannot_read_directory path e]\<rparr>"
  from a have s': "s' = ?s'" using step_Open_dir_failed[OF assms] by blast
  have at': "at ?s' w (Finish i)" using assms(1) by (simp add: at_def)
  from a have "i < length (coords ?s')" "mutex_work ?s' = None" by simp_all
  from step.finish[OF at' this] show "\<exists>s''. step fs w s' s''" unfolding s' ..
next
  fix s' t
  assume a: "step fs w s s' \<and> steps fs s' t \<and> finished t"
  let ?s' = "s\<lparr>workers := (workers s)[w := \<lparr>loc = Finish i, errno = errno_value e\<rparr>],
                   stderr := stderr s @ [Cannot_read_directory path e]\<rparr>"
  from a have s': "s' = ?s'" using step_Open_dir_failed[OF assms] by blast
  have w: "w < length (workers s)" using assms(1) by (simp add: at_def)
  have w': "w < length (workers s')" unfolding s' using w by simp
  have e': "errno (workers s' ! w) \<noteq> 0" unfolding s' using w by (simp add: errno_value_nonzero)
  have x': "\<forall>x. loc (workers s' ! w) = Exited x \<longrightarrow> x = 1" unfolding s' using w by simp
  from a have st: "steps fs s' t" and fin: "finished t" by simp_all
  from failure_flag_steps[OF st w' e' x'] have x: "\<forall>x. loc (workers t ! w) = Exited x \<longrightarrow> x = 1"
    by simp
  have wt: "w < length (workers t)" using w' steps_lengths[OF st] by simp
  from finished_loc[OF fin wt] x show l: "loc (workers t ! w) = Exited 1" by auto
  from final_status_failure[OF wt l] show "final_status t = EXIT_FAILURE" .
qed

theorem failed_opendir_is_survived_witness:
  "steps \<lparr>lstat = (\<lambda>p. if p = ''R'' then Some \<lparr>st_mode = 0x41ED, st_blocks = 8\<rparr> else if p = ''R/S'' then Some \<lparr>st_mode = 0x41ED, st_blocks = 8\<rparr> else None), opendir = (\<lambda>p. if p = ''R'' then Inr [''.'', ''..'', ''S''] else if p = ''R/S'' then Inl EACCES else Inl ENOTDIR)\<rparr>
     (initial (map (seed_coordinator \<lparr>lstat = (\<lambda>p. if p = ''R'' then Some \<lparr>st_mode = 0x41ED, st_blocks = 8\<rparr> else if p = ''R/S'' then Some \<lparr>st_mode = 0x41ED, st_blocks = 8\<rparr> else None), opendir = (\<lambda>p. if p = ''R'' then Inr [''.'', ''..'', ''S''] else if p = ''R/S'' then Inl EACCES else Inl ENOTDIR)\<rparr>) [''R'']) 0)
     \<lparr>coords = [\<lparr>active_threads = 1, tot_sum = 16, dir_queue = []\<rparr>], workers = [\<lparr>loc = Open_dir 0 ''R/S'', errno = 0\<rparr>], mutex_work = None, stderr = [], proc = Running\<rparr> \<and>
   step \<lparr>lstat = (\<lambda>p. if p = ''R'' then Some \<lparr>st_mode = 0x41ED, st_blocks = 8\<rparr> else if p = ''R/S'' then Some \<lparr>st_mode = 0x41ED, st_blocks = 8\<rparr> else None), opendir = (\<lambda>p. if p = ''R'' then Inr [''.'', ''..'', ''S''] else if p = ''R/S'' then Inl EACCES else Inl ENOTDIR)\<rparr> 0
     \<lparr>coords = [\<lparr>active_threads = 1, tot_sum = 16, dir_queue = []\<rparr>], workers = [\<lparr>loc = Open_dir 0 ''R/S'', errno = 0\<rparr>], mutex_work = None, stderr = [], proc = Running\<rparr>
     \<lparr>coords = [\<lparr>active_threads = 1, tot_sum = 16, dir_queue = []\<rparr>], workers = [\<lparr>loc = Finish 0, errno = 13\<rparr>], mutex_work = None, stderr = [Cannot_read_directory ''R/S'' EACCES], proc = Running\<rparr> \<and>
   steps \<lparr>lstat = (\<lambda>p. if p = ''R'' then Some \<lparr>st_mode = 0x41ED, st_blocks = 8\<rparr> else if p = ''R/S'' then Some \<lparr>st_mode = 0x41ED, st_blocks = 8\<rparr> else None), opendir = (\<lambda>p. if p = ''R'' then Inr [''.'', ''..'', ''S''] else if p = ''R/S'' then Inl EACCES else Inl ENOTDIR)\<rparr>
     \<lparr>coords = [\<lparr>active_threads = 1, tot_sum = 16, dir_queue = []\<rparr>], workers = [\<lparr>loc = Finish 0, errno = 13\<rparr>], mutex_work = None, stderr = [Cannot_read_directory ''R/S'' EACCES], proc = Running\<rparr>
     \<lparr>coords = [\<lparr>active_threads = 0, tot_sum = 16, dir_queue = []\<rparr>], workers = [\<lparr>loc = Exited 1, errno = 13\<rparr>], mutex_work = None, stderr = [Cannot_read_directory ''R/S'' EACCES], proc = Running\<rparr> \<and>
   finished \<lparr>coords = [\<lparr>active_threads = 0, tot_sum = 16, dir_queue = []\<rparr>], workers = [\<lparr>loc = Exited 1, errno = 13\<rparr>], mutex_work = None, stderr = [Cannot_read_directory ''R/S'' EACCES], proc = Running\<rparr> \<and>
   loc (workers \<lparr>coords = [\<lparr>active_threads = 0, tot_sum = 16, dir_queue = []\<rparr>], workers = [\<lparr>loc = Exited 1, errno = 13\<rparr>], mutex_work = None, stderr = [Cannot_read_directory ''R/S'' EACCES], proc = Running\<rparr> ! 0) = Exited 1 \<and>
   final_status \<lparr>coords = [\<lparr>active_threads = 0, tot_sum = 16, dir_queue = []\<rparr>], workers = [\<lparr>loc = Exited 1, errno = 13\<rparr>], mutex_work = None, stderr = [Cannot_read_directory ''R/S'' EACCES], proc = Running\<rparr> = EXIT_FAILURE"
proof -
  let ?fs = "\<lparr>lstat = (\<lambda>p. if p = ''R'' then Some \<lparr>st_mode = 0x41ED, st_blocks = 8\<rparr> else if p = ''R/S'' then Some \<lparr>st_mode = 0x41ED, st_blocks = 8\<rparr> else None), opendir = (\<lambda>p. if p = ''R'' then Inr [''.'', ''..'', ''S''] else if p = ''R/S'' then Inl EACCES else Inl ENOTDIR)\<rparr>"
  let ?s0 = "\<lparr>coords = [\<lparr>active_threads = 0, tot_sum = 8, dir_queue = [''R'']\<rparr>], workers = [\<lparr>loc = Seek, errno = 0\<rparr>], mutex_work = None, stderr = [], proc = Running\<rparr>"
  let ?s1 = "\<lparr>coords = [\<lparr>active_threads = 0, tot_sum = 8, dir_queue = [''R'']\<rparr>], workers = [\<lparr>loc = Active 0, errno = 0\<rparr>], mutex_work = Some 0, stderr = [], proc = Running\<rparr>"
  let ?s2 = "\<lparr>coords = [\<lparr>active_threads = 0, tot_sum = 8, dir_queue = [''R'']\<rparr>], workers = [\<lparr>loc = Active_queue 0, errno = 0\<rparr>], mutex_work = Some 0, stderr = [], proc = Running\<rparr>"
  let ?s3 = "\<lparr>coords = [\<lparr>active_threads = 0, tot_sum = 8, dir_queue = [''R'']\<rparr>], workers = [\<lparr>loc = Work 0, errno = 0\<rparr>], mutex_work = Some 0, stderr = [], proc = Running\<rparr>"
  let ?s4 = "\<lparr>coords = [\<lparr>active_threads = 0, tot_sum = 8, dir_queue = [''R'']\<rparr>], workers = [\<lparr>loc = Take 0, errno = 0\<rparr>], mutex_work = Some 0, stderr = [], proc = Running\<rparr>"
  let ?s5 = "\<lparr>coords = [\<lparr>active_threads = 0, tot_sum = 8, dir_queue = []\<rparr>], workers = [\<lparr>loc = Increment 0 ''R'', errno = 0\<rparr>], mutex_work = Some 0, stderr = [], proc = Running\<rparr>"
  let ?s6 = "\<lparr>coords = [\<lparr>active_threads = 1, tot_sum = 8, dir_queue = []\<rparr>], workers = [\<lparr>loc = Open_dir 0 ''R'', errno = 0\<rparr>], mutex_work = None, stderr = [], proc = Running\<rparr>"
  let ?s7 = "\<lparr>coords = [\<lparr>active_threads = 1, tot_sum = 8, dir_queue = []\<rparr>], workers = [\<lparr>loc = Read_dir 0 ''R'' [''.'', ''..'', ''S''] 0, errno = 0\<rparr>], mutex_work = None, stderr = [], proc = Running\<rparr>"
  let ?s8 = "\<lparr>coords = [\<lparr>active_threads = 1, tot_sum = 8, dir_queue = []\<rparr>], workers = [\<lparr>loc = Read_dir 0 ''R'' [''..'', ''S''] 0, errno = 0\<rparr>], mutex_work = None, stderr = [], proc = Running\<rparr>"
  let ?s9 = "\<lparr>coords = [\<lparr>active_threads = 1, tot_sum = 8, dir_queue = []\<rparr>], workers = [\<lparr>loc = Read_dir 0 ''R'' [''S''] 0, errno = 0\<rparr>], mutex_work = None, stderr = [], proc = Running\<rparr>"
  let ?s10 = "\<lparr>coords = [\<lparr>active_threads = 1, tot_sum = 8, dir_queue = [''R/S'']\<rparr>], workers = [\<lparr>loc = Read_dir 0 ''R'' [] 8, errno = 0\<rparr>], mutex_work = None, stderr = [], proc = Running\<rparr>"
  let ?s11 = "\<lparr>coords = [\<lparr>active_threads = 1, tot_sum = 16, dir_queue = [''R/S'']\<rparr>], workers = [\<lparr>loc = Finish 0, errno = 0\<rparr>], mutex_work = None, stderr = [], proc = Running\<rparr>"
  let ?s12 = "\<lparr>coords = [\<lparr>active_threads = 0, tot_sum = 16, dir_queue = [''R/S'']\<rparr>], workers = [\<lparr>loc = Seek, errno = 0\<rparr>], mutex_work = None, stderr = [], proc = Running\<rparr>"
  let ?s13 = "\<lparr>coords = [\<lparr>active_threads = 0, tot_sum = 16, dir_queue = [''R/S'']\<rparr>], workers = [\<lparr>loc = Active 0, errno = 0\<rparr>], mutex_work = Some 0, stderr = [], proc = Running\<rparr>"
  let ?s14 = "\<lparr>coords = [\<lparr>active_threads = 0, tot_sum = 16, dir_queue = [''R/S'']\<rparr>], workers = [\<lparr>loc = Active_queue 0, errno = 0\<rparr>], mutex_work = Some 0, stderr = [], proc = Running\<rparr>"
  let ?s15 = "\<lparr>coords = [\<lparr>active_threads = 0, tot_sum = 16, dir_queue = [''R/S'']\<rparr>], workers = [\<lparr>loc = Work 0, errno = 0\<rparr>], mutex_work = Some 0, stderr = [], proc = Running\<rparr>"
  let ?s16 = "\<lparr>coords = [\<lparr>active_threads = 0, tot_sum = 16, dir_queue = [''R/S'']\<rparr>], workers = [\<lparr>loc = Take 0, errno = 0\<rparr>], mutex_work = Some 0, stderr = [], proc = Running\<rparr>"
  let ?s17 = "\<lparr>coords = [\<lparr>active_threads = 0, tot_sum = 16, dir_queue = []\<rparr>], workers = [\<lparr>loc = Increment 0 ''R/S'', errno = 0\<rparr>], mutex_work = Some 0, stderr = [], proc = Running\<rparr>"
  let ?s18 = "\<lparr>coords = [\<lparr>active_threads = 1, tot_sum = 16, dir_queue = []\<rparr>], workers = [\<lparr>loc = Open_dir 0 ''R/S'', errno = 0\<rparr>], mutex_work = None, stderr = [], proc = Running\<rparr>"
  have sr0: "steps ?fs ?s0 ?s0" by (rule steps.here)
  have se1: "(move 0 (Active 0) (?s0))\<lparr>mutex_work := Some 0\<rparr> = ?s1"
    by (simp add: step_defs)
  have "step ?fs 0 ?s0 ((move 0 (Active 0) (?s0))\<lparr>mutex_work := Some 0\<rparr>)"
    by (rule step.lock) (simp_all add: step_defs)
  then have st1: "step ?fs 0 ?s0 ?s1"
    unfolding se1 .
  have sr1: "steps ?fs ?s0 ?s1" by (rule steps.further[OF sr0 st1])
  have se2: "move 0 (Active_queue 0) (?s1) = ?s2"
    by (simp add: step_defs)
  have "step ?fs 0 ?s1 (move 0 (Active_queue 0) (?s1))"
    by (rule step.active_no_counter[where i = 0]) (simp_all add: step_defs)
  then have st2: "step ?fs 0 ?s1 ?s2"
    unfolding se2 .
  have sr2: "steps ?fs ?s0 ?s2" by (rule steps.further[OF sr1 st2])
  have se3: "move 0 (Work 0) (?s2) = ?s3"
    by (simp add: step_defs)
  have "step ?fs 0 ?s2 (move 0 (Work 0) (?s2))"
    by (rule step.active_queue[where i = 0]) (simp_all add: step_defs)
  then have st3: "step ?fs 0 ?s2 ?s3"
    unfolding se3 .
  have sr3: "steps ?fs ?s0 ?s3" by (rule steps.further[OF sr2 st3])
  have se4: "move 0 (Take 0) (?s3) = ?s4"
    by (simp add: step_defs)
  have "step ?fs 0 ?s3 (move 0 (Take 0) (?s3))"
    by (rule step.work_found[where i = 0]) (simp_all add: step_defs)
  then have st4: "step ?fs 0 ?s3 ?s4"
    unfolding se4 .
  have sr4: "steps ?fs ?s0 ?s4" by (rule steps.further[OF sr3 st4])
  have se5: "move 0 (Increment 0 ''R'') (put 0 ((coords ?s4 ! 0)\<lparr>dir_queue := []\<rparr>) ?s4) = ?s5"
    by (simp add: step_defs)
  have "step ?fs 0 ?s4 (move 0 (Increment 0 ''R'') (put 0 ((coords ?s4 ! 0)\<lparr>dir_queue := []\<rparr>) ?s4))"
    by (rule step.take[where i = 0 and path = "''R''" and rest = "[]"]) (simp_all add: step_defs)
  then have st5: "step ?fs 0 ?s4 ?s5"
    unfolding se5 .
  have sr5: "steps ?fs ?s0 ?s5" by (rule steps.further[OF sr4 st5])
  have se6: "(move 0 (Open_dir 0 ''R'') (put 0 ((coords ?s5 ! 0)\<lparr>active_threads := increment_counter (active_threads (coords ?s5 ! 0))\<rparr>) ?s5))\<lparr>mutex_work := None\<rparr> = ?s6"
    by (simp add: step_defs)
  have "step ?fs 0 ?s5 ((move 0 (Open_dir 0 ''R'') (put 0 ((coords ?s5 ! 0)\<lparr>active_threads := increment_counter (active_threads (coords ?s5 ! 0))\<rparr>) ?s5))\<lparr>mutex_work := None\<rparr>)"
    by (rule step.increment[where i = 0 and path = "''R''"]) (simp_all add: step_defs)
  then have st6: "step ?fs 0 ?s5 ?s6"
    unfolding se6 .
  have sr6: "steps ?fs ?s0 ?s6" by (rule steps.further[OF sr5 st6])
  have se7: "?s6\<lparr>workers := (workers ?s6)[0 := \<lparr>loc = (case Some [''.'', ''..'', ''S''] of None \<Rightarrow> Finish 0 | Some names \<Rightarrow> Read_dir 0 ''R'' names 0), errno = 0\<rparr>], stderr := stderr ?s6 @ []\<rparr> = ?s7"
    by (simp add: step_defs)
  have "step ?fs 0 ?s6 (?s6\<lparr>workers := (workers ?s6)[0 := \<lparr>loc = (case Some [''.'', ''..'', ''S''] of None \<Rightarrow> Finish 0 | Some names \<Rightarrow> Read_dir 0 ''R'' names 0), errno = 0\<rparr>], stderr := stderr ?s6 @ []\<rparr>)"
    by (rule step.open_dir[where i = 0 and path = "''R''" and directory = "Some [''.'', ''..'', ''S'']" and messages = "[]" and errno' = 0]) (simp_all add: step_defs)
  then have st7: "step ?fs 0 ?s6 ?s7"
    unfolding se7 .
  have sr7: "steps ?fs ?s0 ?s7" by (rule steps.further[OF sr6 st7])
  have se8: "move 0 (Read_dir 0 ''R'' [''..'', ''S''] 0) (?s7) = ?s8"
    by (simp add: step_defs)
  have "step ?fs 0 ?s7 (move 0 (Read_dir 0 ''R'' [''..'', ''S''] 0) (?s7))"
    by (rule step.read_skip[where i = 0 and path = "''R''" and name = "''.''" and names = "[''..'', ''S'']" and sm = 0]) (simp_all add: step_defs)
  then have st8: "step ?fs 0 ?s7 ?s8"
    unfolding se8 .
  have sr8: "steps ?fs ?s0 ?s8" by (rule steps.further[OF sr7 st8])
  have se9: "move 0 (Read_dir 0 ''R'' [''S''] 0) (?s8) = ?s9"
    by (simp add: step_defs)
  have "step ?fs 0 ?s8 (move 0 (Read_dir 0 ''R'' [''S''] 0) (?s8))"
    by (rule step.read_skip[where i = 0 and path = "''R''" and name = "''..''" and names = "[''S'']" and sm = 0]) (simp_all add: step_defs)
  then have st9: "step ?fs 0 ?s8 ?s9"
    unfolding se9 .
  have sr9: "steps ?fs ?s0 ?s9" by (rule steps.further[OF sr8 st9])
  have se10: "move 0 (Read_dir 0 ''R'' [] 8) (put 0 (\<lparr>active_threads = 1, tot_sum = 8, dir_queue = [''R/S'']\<rparr>) ?s9) = ?s10"
    by (simp add: step_defs)
  have "step ?fs 0 ?s9 (move 0 (Read_dir 0 ''R'' [] 8) (put 0 (\<lparr>active_threads = 1, tot_sum = 8, dir_queue = [''R/S'']\<rparr>) ?s9))"
    by (rule step.read_entry[where i = 0 and path = "''R''" and name = "''S''" and names = "[]" and sm = 0 and sm' = 8 and c' = "\<lparr>active_threads = 1, tot_sum = 8, dir_queue = [''R/S'']\<rparr>" and d = Exit_failure]) (simp_all add: step_defs)
  then have st10: "step ?fs 0 ?s9 ?s10"
    unfolding se10 .
  have sr10: "steps ?fs ?s0 ?s10" by (rule steps.further[OF sr9 st10])
  have se11: "move 0 (Finish 0) (put 0 (update_total_sum 8 (coords ?s10 ! 0)) ?s10) = ?s11"
    by (simp add: step_defs)
  have "step ?fs 0 ?s10 (move 0 (Finish 0) (put 0 (update_total_sum 8 (coords ?s10 ! 0)) ?s10))"
    by (rule step.read_end[where i = 0 and path = "''R''" and sm = 8]) (simp_all add: step_defs)
  then have st11: "step ?fs 0 ?s10 ?s11"
    unfolding se11 .
  have sr11: "steps ?fs ?s0 ?s11" by (rule steps.further[OF sr10 st11])
  have se12: "move 0 (Seek) (put 0 ((coords ?s11 ! 0)\<lparr>active_threads := decrement_counter (active_threads (coords ?s11 ! 0))\<rparr>) ?s11) = ?s12"
    by (simp add: step_defs)
  have "step ?fs 0 ?s11 (move 0 (Seek) (put 0 ((coords ?s11 ! 0)\<lparr>active_threads := decrement_counter (active_threads (coords ?s11 ! 0))\<rparr>) ?s11))"
    by (rule step.finish[where i = 0]) (simp_all add: step_defs)
  then have st12: "step ?fs 0 ?s11 ?s12"
    unfolding se12 .
  have sr12: "steps ?fs ?s0 ?s12" by (rule steps.further[OF sr11 st12])
  have se13: "(move 0 (Active 0) (?s12))\<lparr>mutex_work := Some 0\<rparr> = ?s13"
    by (simp add: step_defs)
  have "step ?fs 0 ?s12 ((move 0 (Active 0) (?s12))\<lparr>mutex_work := Some 0\<rparr>)"
    by (rule step.lock) (simp_all add: step_defs)
  then have st13: "step ?fs 0 ?s12 ?s13"
    unfolding se13 .
  have sr13: "steps ?fs ?s0 ?s13" by (rule steps.further[OF sr12 st13])
  have se14: "move 0 (Active_queue 0) (?s13) = ?s14"
    by (simp add: step_defs)
  have "step ?fs 0 ?s13 (move 0 (Active_queue 0) (?s13))"
    by (rule step.active_no_counter[where i = 0]) (simp_all add: step_defs)
  then have st14: "step ?fs 0 ?s13 ?s14"
    unfolding se14 .
  have sr14: "steps ?fs ?s0 ?s14" by (rule steps.further[OF sr13 st14])
  have se15: "move 0 (Work 0) (?s14) = ?s15"
    by (simp add: step_defs)
  have "step ?fs 0 ?s14 (move 0 (Work 0) (?s14))"
    by (rule step.active_queue[where i = 0]) (simp_all add: step_defs)
  then have st15: "step ?fs 0 ?s14 ?s15"
    unfolding se15 .
  have sr15: "steps ?fs ?s0 ?s15" by (rule steps.further[OF sr14 st15])
  have se16: "move 0 (Take 0) (?s15) = ?s16"
    by (simp add: step_defs)
  have "step ?fs 0 ?s15 (move 0 (Take 0) (?s15))"
    by (rule step.work_found[where i = 0]) (simp_all add: step_defs)
  then have st16: "step ?fs 0 ?s15 ?s16"
    unfolding se16 .
  have sr16: "steps ?fs ?s0 ?s16" by (rule steps.further[OF sr15 st16])
  have se17: "move 0 (Increment 0 ''R/S'') (put 0 ((coords ?s16 ! 0)\<lparr>dir_queue := []\<rparr>) ?s16) = ?s17"
    by (simp add: step_defs)
  have "step ?fs 0 ?s16 (move 0 (Increment 0 ''R/S'') (put 0 ((coords ?s16 ! 0)\<lparr>dir_queue := []\<rparr>) ?s16))"
    by (rule step.take[where i = 0 and path = "''R/S''" and rest = "[]"]) (simp_all add: step_defs)
  then have st17: "step ?fs 0 ?s16 ?s17"
    unfolding se17 .
  have sr17: "steps ?fs ?s0 ?s17" by (rule steps.further[OF sr16 st17])
  have se18: "(move 0 (Open_dir 0 ''R/S'') (put 0 ((coords ?s17 ! 0)\<lparr>active_threads := increment_counter (active_threads (coords ?s17 ! 0))\<rparr>) ?s17))\<lparr>mutex_work := None\<rparr> = ?s18"
    by (simp add: step_defs)
  have "step ?fs 0 ?s17 ((move 0 (Open_dir 0 ''R/S'') (put 0 ((coords ?s17 ! 0)\<lparr>active_threads := increment_counter (active_threads (coords ?s17 ! 0))\<rparr>) ?s17))\<lparr>mutex_work := None\<rparr>)"
    by (rule step.increment[where i = 0 and path = "''R/S''"]) (simp_all add: step_defs)
  then have st18: "step ?fs 0 ?s17 ?s18"
    unfolding se18 .
  have sr18: "steps ?fs ?s0 ?s18" by (rule steps.further[OF sr17 st18])
  let ?u0 = "\<lparr>coords = [\<lparr>active_threads = 1, tot_sum = 16, dir_queue = []\<rparr>], workers = [\<lparr>loc = Finish 0, errno = 13\<rparr>], mutex_work = None, stderr = [Cannot_read_directory ''R/S'' EACCES], proc = Running\<rparr>"
  let ?u1 = "\<lparr>coords = [\<lparr>active_threads = 0, tot_sum = 16, dir_queue = []\<rparr>], workers = [\<lparr>loc = Seek, errno = 13\<rparr>], mutex_work = None, stderr = [Cannot_read_directory ''R/S'' EACCES], proc = Running\<rparr>"
  let ?u2 = "\<lparr>coords = [\<lparr>active_threads = 0, tot_sum = 16, dir_queue = []\<rparr>], workers = [\<lparr>loc = Active 0, errno = 13\<rparr>], mutex_work = Some 0, stderr = [Cannot_read_directory ''R/S'' EACCES], proc = Running\<rparr>"
  let ?u3 = "\<lparr>coords = [\<lparr>active_threads = 0, tot_sum = 16, dir_queue = []\<rparr>], workers = [\<lparr>loc = Active_queue 0, errno = 13\<rparr>], mutex_work = Some 0, stderr = [Cannot_read_directory ''R/S'' EACCES], proc = Running\<rparr>"
  let ?u4 = "\<lparr>coords = [\<lparr>active_threads = 0, tot_sum = 16, dir_queue = []\<rparr>], workers = [\<lparr>loc = Active 1, errno = 13\<rparr>], mutex_work = Some 0, stderr = [Cannot_read_directory ''R/S'' EACCES], proc = Running\<rparr>"
  let ?u5 = "\<lparr>coords = [\<lparr>active_threads = 0, tot_sum = 16, dir_queue = []\<rparr>], workers = [\<lparr>loc = Exiting, errno = 13\<rparr>], mutex_work = None, stderr = [Cannot_read_directory ''R/S'' EACCES], proc = Running\<rparr>"
  let ?u6 = "\<lparr>coords = [\<lparr>active_threads = 0, tot_sum = 16, dir_queue = []\<rparr>], workers = [\<lparr>loc = Exited 1, errno = 13\<rparr>], mutex_work = None, stderr = [Cannot_read_directory ''R/S'' EACCES], proc = Running\<rparr>"
  have ur0: "steps ?fs ?u0 ?u0" by (rule steps.here)
  have ue1: "move 0 (Seek) (put 0 ((coords ?u0 ! 0)\<lparr>active_threads := decrement_counter (active_threads (coords ?u0 ! 0))\<rparr>) ?u0) = ?u1"
    by (simp add: step_defs)
  have "step ?fs 0 ?u0 (move 0 (Seek) (put 0 ((coords ?u0 ! 0)\<lparr>active_threads := decrement_counter (active_threads (coords ?u0 ! 0))\<rparr>) ?u0))"
    by (rule step.finish[where i = 0]) (simp_all add: step_defs)
  then have ut1: "step ?fs 0 ?u0 ?u1"
    unfolding ue1 .
  have ur1: "steps ?fs ?u0 ?u1" by (rule steps.further[OF ur0 ut1])
  have ue2: "(move 0 (Active 0) (?u1))\<lparr>mutex_work := Some 0\<rparr> = ?u2"
    by (simp add: step_defs)
  have "step ?fs 0 ?u1 ((move 0 (Active 0) (?u1))\<lparr>mutex_work := Some 0\<rparr>)"
    by (rule step.lock) (simp_all add: step_defs)
  then have ut2: "step ?fs 0 ?u1 ?u2"
    unfolding ue2 .
  have ur2: "steps ?fs ?u0 ?u2" by (rule steps.further[OF ur1 ut2])
  have ue3: "move 0 (Active_queue 0) (?u2) = ?u3"
    by (simp add: step_defs)
  have "step ?fs 0 ?u2 (move 0 (Active_queue 0) (?u2))"
    by (rule step.active_no_counter[where i = 0]) (simp_all add: step_defs)
  then have ut3: "step ?fs 0 ?u2 ?u3"
    unfolding ue3 .
  have ur3: "steps ?fs ?u0 ?u3" by (rule steps.further[OF ur2 ut3])
  have ue4: "move 0 (Active (Suc 0)) ?u3 = ?u4"
    by (simp add: step_defs)
  have "step ?fs 0 ?u3 (move 0 (Active (Suc 0)) ?u3)"
    by (rule step.active_next[where i = 0]) (simp_all add: step_defs)
  then have ut4: "step ?fs 0 ?u3 ?u4"
    unfolding ue4 .
  have ur4: "steps ?fs ?u0 ?u4" by (rule steps.further[OF ur3 ut4])
  have ue5: "(move 0 (Exiting) (?u4))\<lparr>mutex_work := None\<rparr> = ?u5"
    by (simp add: step_defs)
  have "step ?fs 0 ?u4 ((move 0 (Exiting) (?u4))\<lparr>mutex_work := None\<rparr>)"
    by (rule step.active_none[where i = 1]) (simp_all add: step_defs)
  then have ut5: "step ?fs 0 ?u4 ?u5"
    unfolding ue5 .
  have ur5: "steps ?fs ?u0 ?u5" by (rule steps.further[OF ur4 ut5])
  have ue6: "move 0 (Exited (if errno (workers ?u5 ! 0) \<noteq> 0 then 1 else 0)) ?u5 = ?u6"
    by (simp add: step_defs)
  have "step ?fs 0 ?u5 (move 0 (Exited (if errno (workers ?u5 ! 0) \<noteq> 0 then 1 else 0)) ?u5)"
    by (rule step.return) (simp_all add: step_defs)
  then have ut6: "step ?fs 0 ?u5 ?u6"
    unfolding ue6 .
  have ur6: "steps ?fs ?u0 ?u6" by (rule steps.further[OF ur5 ut6])
  have i: "initial (map (seed_coordinator ?fs) [''R'']) 0 = ?s0"
    by (simp add: initial_def seed_coordinator_def own_blocks_def)
  have r: "steps ?fs (initial (map (seed_coordinator ?fs) [''R'']) 0) ?s18"
    unfolding i by (rule sr18)
  have a: "at ?s18 0 (Open_dir 0 ''R/S'')" by (simp add: at_def)
  have o: "opendir ?fs ''R/S'' = Inl EACCES" by simp
  note T = failed_opendir_is_survived[OF a o]
  from T[THEN conjunct1, THEN spec]
  have "step ?fs 0 ?s18 ?u0 \<longleftrightarrow>
          ?u0 = ?s18\<lparr>workers := (workers ?s18)[0 := \<lparr>loc = Finish 0, errno = errno_value EACCES\<rparr>],
                       stderr := stderr ?s18 @ [Cannot_read_directory ''R/S'' EACCES]\<rparr>" .
  moreover have "?u0 = ?s18\<lparr>workers := (workers ?s18)[0 := \<lparr>loc = Finish 0, errno = errno_value EACCES\<rparr>],
                       stderr := stderr ?s18 @ [Cannot_read_directory ''R/S'' EACCES]\<rparr>"
    by simp
  ultimately have k: "step ?fs 0 ?s18 ?u0" by (simp only: simp_thms)
  have f: "finished ?u6" by (simp add: finished_def)
  have c: "step ?fs 0 ?s18 ?u0 \<and> steps ?fs ?u0 ?u6 \<and> finished ?u6"
    using k ur6 f by (intro conjI)
  from T[THEN conjunct2, THEN conjunct2, THEN conjunct2, THEN spec, THEN spec, THEN mp, OF c]
  have x: "loc (workers ?u6 ! 0) = Exited 1" and v: "final_status ?u6 = EXIT_FAILURE"
    by (rule conjunct1, rule conjunct2)
  from r k ur6 f x v show ?thesis by (intro conjI)
qed


section \<open>An entry that \<^verbatim>\<open>lstat\<close> cannot read\<close>


lemma step_Read_failed:
  assumes "at s w (Read_dir i path (name # names) sm)" "\<not> is_dot_or_dot_dot name"
    and "lstat fs (full_path_of path name) = None"
  shows "step fs w s s' \<longleftrightarrow> (\<exists>f. thread_context_destroy_by s w f \<and> s' = s\<lparr>proc := Ended f\<rparr>)"
proof
  assume "step fs w s s'"
  then show "\<exists>f. thread_context_destroy_by s w f \<and> s' = s\<lparr>proc := Ended f\<rparr>"
    using assms
    by (cases rule: step.cases)
       (auto simp add: at_def process_directory_entry_def safe_lstat_def create_full_path_def
          safe_calloc_def names_directory_def)
next
  assume "\<exists>f. thread_context_destroy_by s w f \<and> s' = s\<lparr>proc := Ended f\<rparr>"
  then obtain f where d: "thread_context_destroy_by s w f" and s': "s' = s\<lparr>proc := Ended f\<rparr>"
    by blast
  have "create_full_path path name 0 f = Inl f"
    by (simp add: create_full_path_def safe_calloc_def)
  from step.no_memory_path[OF assms(1,2) d this] show "step fs w s s'" unfolding s' .
qed

lemma ended_is_final: "proc s \<noteq> Running \<Longrightarrow> \<not> step fs v s s'"
  using step_running by auto

lemma destroy_clean_only:
  assumes "thread_context_destroy_by s w f"
    and "length (workers s) = 1" "\<forall>c\<in>set (coords s). dir_queue c = []" "w < length (workers s)"
  shows "f = Exit_failure"
  using assms by (cases rule: thread_context_destroy_by.cases) auto

lemma destroy_undefined_only:
  assumes "thread_context_destroy_by s w f"
    and "mutex_work s \<noteq> None \<or> Waiting \<in> loc ` set (workers s)"
  shows "f = Undefined_behaviour"
  using assms by (cases rule: thread_context_destroy_by.cases) auto

text \<open>
  Claim C10 against the program. A worker whose \<^verbatim>\<open>lstat\<close> on an entry fails has no step that
  goes on with the traversal: every step it has ends the process, through
  \<^verbatim>\<open>thread_context_destroy\<close>, and no worker moves afterwards. With the main thread as the
  only worker and nothing queued, the process exits with \<^verbatim>\<open>EXIT_FAILURE\<close>. With another
  worker blocked in \<^verbatim>\<open>pthread_cond_wait\<close>, or holding \<^verbatim>\<open>mutex_work\<close>, the condition variable or
  the mutex is destroyed in use: the behaviour is undefined and \<^verbatim>\<open>exit\<close> is not reached by
  anything the program defines.
\<close>

theorem lstat_failure_ends_the_process:
  assumes "at s w (Read_dir i path (name # names) sm)" and "\<not> is_dot_or_dot_dot name"
    and "lstat fs (full_path_of path name) = None"
  shows "(\<forall>s'. step fs w s s' \<longleftrightarrow>
            (\<exists>f. thread_context_destroy_by s w f \<and> s' = s\<lparr>proc := Ended f\<rparr>)) \<and>
         (\<forall>s' v s''. step fs w s s' \<longrightarrow> \<not> step fs v s' s'') \<and>
         (length (workers s) = 1 \<and> (\<forall>c\<in>set (coords s). dir_queue c = []) \<and> mutex_work s = None \<longrightarrow>
            (\<forall>s'. step fs w s s' \<longleftrightarrow> s' = s\<lparr>proc := Ended Exit_failure\<rparr>)) \<and>
         ((\<exists>v<length (workers s). v \<noteq> w \<and> loc (workers s ! v) = Waiting) \<longrightarrow>
            (\<forall>s'. step fs w s s' \<longleftrightarrow> s' = s\<lparr>proc := Ended Undefined_behaviour\<rparr>)) \<and>
         (mutex_work s \<noteq> None \<longrightarrow>
            (\<forall>s'. step fs w s s' \<longrightarrow> s' = s\<lparr>proc := Ended Undefined_behaviour\<rparr>))"
proof (intro conjI allI impI)
  fix s'
  show "step fs w s s' \<longleftrightarrow> (\<exists>f. thread_context_destroy_by s w f \<and> s' = s\<lparr>proc := Ended f\<rparr>)"
    using assms by (rule step_Read_failed)
next
  fix s' v s''
  assume "step fs w s s'"
  then have "proc s' \<noteq> Running" unfolding step_Read_failed[OF assms] by auto
  then show "\<not> step fs v s' s''" by (rule ended_is_final)
next
  fix s'
  assume a: "length (workers s) = 1 \<and> (\<forall>c\<in>set (coords s). dir_queue c = []) \<and> mutex_work s = None"
  have w: "w < length (workers s)" using assms(1) by (simp add: at_def)
  with a have w0: "w = 0" by simp
  have l: "loc (workers s ! w) \<noteq> Waiting" using assms(1) by (simp add: at_def)
  have nw: "Waiting \<notin> loc ` set (workers s)"
  proof
    assume "Waiting \<in> loc ` set (workers s)"
    then obtain v where "v < length (workers s)" "loc (workers s ! v) = Waiting"
      by (auto simp add: in_set_conv_nth)
    with a w0 l show False by simp
  qed
  from a nw have e: "thread_context_destroy_by s w Exit_failure"
    by (intro thread_context_destroy_by.exits) simp_all
  from a w have only: "\<And>f. thread_context_destroy_by s w f \<Longrightarrow> f = Exit_failure"
    using destroy_clean_only by blast
  show "step fs w s s' \<longleftrightarrow> s' = s\<lparr>proc := Ended Exit_failure\<rparr>"
    unfolding step_Read_failed[OF assms] using e only by blast
next
  fix s'
  assume "\<exists>v<length (workers s). v \<noteq> w \<and> loc (workers s ! v) = Waiting"
  then obtain v where v: "v < length (workers s)" "v \<noteq> w" "loc (workers s ! v) = Waiting"
    by blast
  from v(1,2) have u: "thread_context_destroy_by s w Undefined_behaviour"
    by (rule thread_context_destroy_by.in_use) (simp add: v(3))
  from v(1,3) have "Waiting \<in> loc ` set (workers s)" by (metis image_eqI nth_mem)
  then have only: "\<And>f. thread_context_destroy_by s w f \<Longrightarrow> f = Undefined_behaviour"
    using destroy_undefined_only by blast
  show "step fs w s s' \<longleftrightarrow> s' = s\<lparr>proc := Ended Undefined_behaviour\<rparr>"
    unfolding step_Read_failed[OF assms] using u only by blast
next
  fix s'
  assume m: "mutex_work s \<noteq> None" and st: "step fs w s s'"
  from m have only: "\<And>f. thread_context_destroy_by s w f \<Longrightarrow> f = Undefined_behaviour"
    using destroy_undefined_only by blast
  from st show "s' = s\<lparr>proc := Ended Undefined_behaviour\<rparr>"
    unfolding step_Read_failed[OF assms] using only by blast
qed

theorem lstat_failure_ends_the_process_witness:
  "steps \<lparr>lstat = (\<lambda>p. if p = ''R'' then Some \<lparr>st_mode = 0x41ED, st_blocks = 8\<rparr> else None), opendir = (\<lambda>p. if p = ''R'' then Inr [''.'', ''..'', ''a''] else Inl ENOTDIR)\<rparr>
     (initial (map (seed_coordinator \<lparr>lstat = (\<lambda>p. if p = ''R'' then Some \<lparr>st_mode = 0x41ED, st_blocks = 8\<rparr> else None), opendir = (\<lambda>p. if p = ''R'' then Inr [''.'', ''..'', ''a''] else Inl ENOTDIR)\<rparr>) [''R'']) 1)
     \<lparr>coords = [\<lparr>active_threads = 1, tot_sum = 8, dir_queue = []\<rparr>], workers = [\<lparr>loc = Read_dir 0 ''R'' [''a''] 0, errno = 0\<rparr>, \<lparr>loc = Waiting, errno = 0\<rparr>], mutex_work = None, stderr = [], proc = Running\<rparr> \<and>
   lstat \<lparr>lstat = (\<lambda>p. if p = ''R'' then Some \<lparr>st_mode = 0x41ED, st_blocks = 8\<rparr> else None), opendir = (\<lambda>p. if p = ''R'' then Inr [''.'', ''..'', ''a''] else Inl ENOTDIR)\<rparr> (full_path_of ''R'' ''a'') = None \<and>
   step \<lparr>lstat = (\<lambda>p. if p = ''R'' then Some \<lparr>st_mode = 0x41ED, st_blocks = 8\<rparr> else None), opendir = (\<lambda>p. if p = ''R'' then Inr [''.'', ''..'', ''a''] else Inl ENOTDIR)\<rparr> 0
     \<lparr>coords = [\<lparr>active_threads = 1, tot_sum = 8, dir_queue = []\<rparr>], workers = [\<lparr>loc = Read_dir 0 ''R'' [''a''] 0, errno = 0\<rparr>, \<lparr>loc = Waiting, errno = 0\<rparr>], mutex_work = None, stderr = [], proc = Running\<rparr>
     (\<lparr>coords = [\<lparr>active_threads = 1, tot_sum = 8, dir_queue = []\<rparr>], workers = [\<lparr>loc = Read_dir 0 ''R'' [''a''] 0, errno = 0\<rparr>, \<lparr>loc = Waiting, errno = 0\<rparr>], mutex_work = None, stderr = [], proc = Running\<rparr>\<lparr>proc := Ended Undefined_behaviour\<rparr>) \<and>
   \<not> step \<lparr>lstat = (\<lambda>p. if p = ''R'' then Some \<lparr>st_mode = 0x41ED, st_blocks = 8\<rparr> else None), opendir = (\<lambda>p. if p = ''R'' then Inr [''.'', ''..'', ''a''] else Inl ENOTDIR)\<rparr> 0
     \<lparr>coords = [\<lparr>active_threads = 1, tot_sum = 8, dir_queue = []\<rparr>], workers = [\<lparr>loc = Read_dir 0 ''R'' [''a''] 0, errno = 0\<rparr>, \<lparr>loc = Waiting, errno = 0\<rparr>], mutex_work = None, stderr = [], proc = Running\<rparr>
     (\<lparr>coords = [\<lparr>active_threads = 1, tot_sum = 8, dir_queue = []\<rparr>], workers = [\<lparr>loc = Read_dir 0 ''R'' [''a''] 0, errno = 0\<rparr>, \<lparr>loc = Waiting, errno = 0\<rparr>], mutex_work = None, stderr = [], proc = Running\<rparr>\<lparr>proc := Ended Exit_failure\<rparr>) \<and>
   steps \<lparr>lstat = (\<lambda>p. if p = ''R'' then Some \<lparr>st_mode = 0x41ED, st_blocks = 8\<rparr> else None), opendir = (\<lambda>p. if p = ''R'' then Inr [''.'', ''..'', ''a''] else Inl ENOTDIR)\<rparr>
     (initial (map (seed_coordinator \<lparr>lstat = (\<lambda>p. if p = ''R'' then Some \<lparr>st_mode = 0x41ED, st_blocks = 8\<rparr> else None), opendir = (\<lambda>p. if p = ''R'' then Inr [''.'', ''..'', ''a''] else Inl ENOTDIR)\<rparr>) [''R'']) 0)
     \<lparr>coords = [\<lparr>active_threads = 1, tot_sum = 8, dir_queue = []\<rparr>], workers = [\<lparr>loc = Read_dir 0 ''R'' [''a''] 0, errno = 0\<rparr>], mutex_work = None, stderr = [], proc = Running\<rparr> \<and>
   step \<lparr>lstat = (\<lambda>p. if p = ''R'' then Some \<lparr>st_mode = 0x41ED, st_blocks = 8\<rparr> else None), opendir = (\<lambda>p. if p = ''R'' then Inr [''.'', ''..'', ''a''] else Inl ENOTDIR)\<rparr> 0
     \<lparr>coords = [\<lparr>active_threads = 1, tot_sum = 8, dir_queue = []\<rparr>], workers = [\<lparr>loc = Read_dir 0 ''R'' [''a''] 0, errno = 0\<rparr>], mutex_work = None, stderr = [], proc = Running\<rparr>
     (\<lparr>coords = [\<lparr>active_threads = 1, tot_sum = 8, dir_queue = []\<rparr>], workers = [\<lparr>loc = Read_dir 0 ''R'' [''a''] 0, errno = 0\<rparr>], mutex_work = None, stderr = [], proc = Running\<rparr>\<lparr>proc := Ended Exit_failure\<rparr>) \<and>
   \<not> step \<lparr>lstat = (\<lambda>p. if p = ''R'' then Some \<lparr>st_mode = 0x41ED, st_blocks = 8\<rparr> else None), opendir = (\<lambda>p. if p = ''R'' then Inr [''.'', ''..'', ''a''] else Inl ENOTDIR)\<rparr> 0
     \<lparr>coords = [\<lparr>active_threads = 1, tot_sum = 8, dir_queue = []\<rparr>], workers = [\<lparr>loc = Read_dir 0 ''R'' [''a''] 0, errno = 0\<rparr>], mutex_work = None, stderr = [], proc = Running\<rparr>
     (\<lparr>coords = [\<lparr>active_threads = 1, tot_sum = 8, dir_queue = []\<rparr>], workers = [\<lparr>loc = Read_dir 0 ''R'' [''a''] 0, errno = 0\<rparr>], mutex_work = None, stderr = [], proc = Running\<rparr>\<lparr>proc := Ended Undefined_behaviour\<rparr>)"
proof -
  let ?fs = "\<lparr>lstat = (\<lambda>p. if p = ''R'' then Some \<lparr>st_mode = 0x41ED, st_blocks = 8\<rparr> else None), opendir = (\<lambda>p. if p = ''R'' then Inr [''.'', ''..'', ''a''] else Inl ENOTDIR)\<rparr>"
  let ?s0 = "\<lparr>coords = [\<lparr>active_threads = 0, tot_sum = 8, dir_queue = [''R'']\<rparr>], workers = [\<lparr>loc = Seek, errno = 0\<rparr>, \<lparr>loc = Seek, errno = 0\<rparr>], mutex_work = None, stderr = [], proc = Running\<rparr>"
  let ?s1 = "\<lparr>coords = [\<lparr>active_threads = 0, tot_sum = 8, dir_queue = [''R'']\<rparr>], workers = [\<lparr>loc = Active 0, errno = 0\<rparr>, \<lparr>loc = Seek, errno = 0\<rparr>], mutex_work = Some 0, stderr = [], proc = Running\<rparr>"
  let ?s2 = "\<lparr>coords = [\<lparr>active_threads = 0, tot_sum = 8, dir_queue = [''R'']\<rparr>], workers = [\<lparr>loc = Active_queue 0, errno = 0\<rparr>, \<lparr>loc = Seek, errno = 0\<rparr>], mutex_work = Some 0, stderr = [], proc = Running\<rparr>"
  let ?s3 = "\<lparr>coords = [\<lparr>active_threads = 0, tot_sum = 8, dir_queue = [''R'']\<rparr>], workers = [\<lparr>loc = Work 0, errno = 0\<rparr>, \<lparr>loc = Seek, errno = 0\<rparr>], mutex_work = Some 0, stderr = [], proc = Running\<rparr>"
  let ?s4 = "\<lparr>coords = [\<lparr>active_threads = 0, tot_sum = 8, dir_queue = [''R'']\<rparr>], workers = [\<lparr>loc = Take 0, errno = 0\<rparr>, \<lparr>loc = Seek, errno = 0\<rparr>], mutex_work = Some 0, stderr = [], proc = Running\<rparr>"
  let ?s5 = "\<lparr>coords = [\<lparr>active_threads = 0, tot_sum = 8, dir_queue = []\<rparr>], workers = [\<lparr>loc = Increment 0 ''R'', errno = 0\<rparr>, \<lparr>loc = Seek, errno = 0\<rparr>], mutex_work = Some 0, stderr = [], proc = Running\<rparr>"
  let ?s6 = "\<lparr>coords = [\<lparr>active_threads = 1, tot_sum = 8, dir_queue = []\<rparr>], workers = [\<lparr>loc = Open_dir 0 ''R'', errno = 0\<rparr>, \<lparr>loc = Seek, errno = 0\<rparr>], mutex_work = None, stderr = [], proc = Running\<rparr>"
  let ?s7 = "\<lparr>coords = [\<lparr>active_threads = 1, tot_sum = 8, dir_queue = []\<rparr>], workers = [\<lparr>loc = Open_dir 0 ''R'', errno = 0\<rparr>, \<lparr>loc = Active 0, errno = 0\<rparr>], mutex_work = Some 1, stderr = [], proc = Running\<rparr>"
  let ?s8 = "\<lparr>coords = [\<lparr>active_threads = 1, tot_sum = 8, dir_queue = []\<rparr>], workers = [\<lparr>loc = Open_dir 0 ''R'', errno = 0\<rparr>, \<lparr>loc = Work 0, errno = 0\<rparr>], mutex_work = Some 1, stderr = [], proc = Running\<rparr>"
  let ?s9 = "\<lparr>coords = [\<lparr>active_threads = 1, tot_sum = 8, dir_queue = []\<rparr>], workers = [\<lparr>loc = Open_dir 0 ''R'', errno = 0\<rparr>, \<lparr>loc = Work 1, errno = 0\<rparr>], mutex_work = Some 1, stderr = [], proc = Running\<rparr>"
  let ?s10 = "\<lparr>coords = [\<lparr>active_threads = 1, tot_sum = 8, dir_queue = []\<rparr>], workers = [\<lparr>loc = Open_dir 0 ''R'', errno = 0\<rparr>, \<lparr>loc = Waiting, errno = 0\<rparr>], mutex_work = None, stderr = [], proc = Running\<rparr>"
  let ?s11 = "\<lparr>coords = [\<lparr>active_threads = 1, tot_sum = 8, dir_queue = []\<rparr>], workers = [\<lparr>loc = Read_dir 0 ''R'' [''.'', ''..'', ''a''] 0, errno = 0\<rparr>, \<lparr>loc = Waiting, errno = 0\<rparr>], mutex_work = None, stderr = [], proc = Running\<rparr>"
  let ?s12 = "\<lparr>coords = [\<lparr>active_threads = 1, tot_sum = 8, dir_queue = []\<rparr>], workers = [\<lparr>loc = Read_dir 0 ''R'' [''..'', ''a''] 0, errno = 0\<rparr>, \<lparr>loc = Waiting, errno = 0\<rparr>], mutex_work = None, stderr = [], proc = Running\<rparr>"
  let ?s13 = "\<lparr>coords = [\<lparr>active_threads = 1, tot_sum = 8, dir_queue = []\<rparr>], workers = [\<lparr>loc = Read_dir 0 ''R'' [''a''] 0, errno = 0\<rparr>, \<lparr>loc = Waiting, errno = 0\<rparr>], mutex_work = None, stderr = [], proc = Running\<rparr>"
  have sr0: "steps ?fs ?s0 ?s0" by (rule steps.here)
  have se1: "(move 0 (Active 0) (?s0))\<lparr>mutex_work := Some 0\<rparr> = ?s1"
    by (simp add: step_defs)
  have "step ?fs 0 ?s0 ((move 0 (Active 0) (?s0))\<lparr>mutex_work := Some 0\<rparr>)"
    by (rule step.lock) (simp_all add: step_defs)
  then have st1: "step ?fs 0 ?s0 ?s1"
    unfolding se1 .
  have sr1: "steps ?fs ?s0 ?s1" by (rule steps.further[OF sr0 st1])
  have se2: "move 0 (Active_queue 0) (?s1) = ?s2"
    by (simp add: step_defs)
  have "step ?fs 0 ?s1 (move 0 (Active_queue 0) (?s1))"
    by (rule step.active_no_counter[where i = 0]) (simp_all add: step_defs)
  then have st2: "step ?fs 0 ?s1 ?s2"
    unfolding se2 .
  have sr2: "steps ?fs ?s0 ?s2" by (rule steps.further[OF sr1 st2])
  have se3: "move 0 (Work 0) (?s2) = ?s3"
    by (simp add: step_defs)
  have "step ?fs 0 ?s2 (move 0 (Work 0) (?s2))"
    by (rule step.active_queue[where i = 0]) (simp_all add: step_defs)
  then have st3: "step ?fs 0 ?s2 ?s3"
    unfolding se3 .
  have sr3: "steps ?fs ?s0 ?s3" by (rule steps.further[OF sr2 st3])
  have se4: "move 0 (Take 0) (?s3) = ?s4"
    by (simp add: step_defs)
  have "step ?fs 0 ?s3 (move 0 (Take 0) (?s3))"
    by (rule step.work_found[where i = 0]) (simp_all add: step_defs)
  then have st4: "step ?fs 0 ?s3 ?s4"
    unfolding se4 .
  have sr4: "steps ?fs ?s0 ?s4" by (rule steps.further[OF sr3 st4])
  have se5: "move 0 (Increment 0 ''R'') (put 0 ((coords ?s4 ! 0)\<lparr>dir_queue := []\<rparr>) ?s4) = ?s5"
    by (simp add: step_defs)
  have "step ?fs 0 ?s4 (move 0 (Increment 0 ''R'') (put 0 ((coords ?s4 ! 0)\<lparr>dir_queue := []\<rparr>) ?s4))"
    by (rule step.take[where i = 0 and path = "''R''" and rest = "[]"]) (simp_all add: step_defs)
  then have st5: "step ?fs 0 ?s4 ?s5"
    unfolding se5 .
  have sr5: "steps ?fs ?s0 ?s5" by (rule steps.further[OF sr4 st5])
  have se6: "(move 0 (Open_dir 0 ''R'') (put 0 ((coords ?s5 ! 0)\<lparr>active_threads := increment_counter (active_threads (coords ?s5 ! 0))\<rparr>) ?s5))\<lparr>mutex_work := None\<rparr> = ?s6"
    by (simp add: step_defs)
  have "step ?fs 0 ?s5 ((move 0 (Open_dir 0 ''R'') (put 0 ((coords ?s5 ! 0)\<lparr>active_threads := increment_counter (active_threads (coords ?s5 ! 0))\<rparr>) ?s5))\<lparr>mutex_work := None\<rparr>)"
    by (rule step.increment[where i = 0 and path = "''R''"]) (simp_all add: step_defs)
  then have st6: "step ?fs 0 ?s5 ?s6"
    unfolding se6 .
  have sr6: "steps ?fs ?s0 ?s6" by (rule steps.further[OF sr5 st6])
  have se7: "(move 1 (Active 0) (?s6))\<lparr>mutex_work := Some 1\<rparr> = ?s7"
    by (simp add: step_defs)
  have "step ?fs 1 ?s6 ((move 1 (Active 0) (?s6))\<lparr>mutex_work := Some 1\<rparr>)"
    by (rule step.lock) (simp_all add: step_defs)
  then have st7: "step ?fs 1 ?s6 ?s7"
    unfolding se7 .
  have sr7: "steps ?fs ?s0 ?s7" by (rule steps.further[OF sr6 st7])
  have se8: "move 1 (Work 0) (?s7) = ?s8"
    by (simp add: step_defs)
  have "step ?fs 1 ?s7 (move 1 (Work 0) (?s7))"
    by (rule step.active_counter[where i = 0]) (simp_all add: step_defs)
  then have st8: "step ?fs 1 ?s7 ?s8"
    unfolding se8 .
  have sr8: "steps ?fs ?s0 ?s8" by (rule steps.further[OF sr7 st8])
  have se9: "move 1 (Work (Suc 0)) ?s8 = ?s9"
    by (simp add: step_defs)
  have "step ?fs 1 ?s8 (move 1 (Work (Suc 0)) ?s8)"
    by (rule step.work_next[where i = 0]) (simp_all add: step_defs)
  then have st9: "step ?fs 1 ?s8 ?s9"
    unfolding se9 .
  have sr9: "steps ?fs ?s0 ?s9" by (rule steps.further[OF sr8 st9])
  have se10: "(move 1 (Waiting) (?s9))\<lparr>mutex_work := None\<rparr> = ?s10"
    by (simp add: step_defs)
  have "step ?fs 1 ?s9 ((move 1 (Waiting) (?s9))\<lparr>mutex_work := None\<rparr>)"
    by (rule step.work_none[where i = 1]) (simp_all add: step_defs)
  then have st10: "step ?fs 1 ?s9 ?s10"
    unfolding se10 .
  have sr10: "steps ?fs ?s0 ?s10" by (rule steps.further[OF sr9 st10])
  have se11: "?s10\<lparr>workers := (workers ?s10)[0 := \<lparr>loc = (case Some [''.'', ''..'', ''a''] of None \<Rightarrow> Finish 0 | Some names \<Rightarrow> Read_dir 0 ''R'' names 0), errno = 0\<rparr>], stderr := stderr ?s10 @ []\<rparr> = ?s11"
    by (simp add: step_defs)
  have "step ?fs 0 ?s10 (?s10\<lparr>workers := (workers ?s10)[0 := \<lparr>loc = (case Some [''.'', ''..'', ''a''] of None \<Rightarrow> Finish 0 | Some names \<Rightarrow> Read_dir 0 ''R'' names 0), errno = 0\<rparr>], stderr := stderr ?s10 @ []\<rparr>)"
    by (rule step.open_dir[where i = 0 and path = "''R''" and directory = "Some [''.'', ''..'', ''a'']" and messages = "[]" and errno' = 0]) (simp_all add: step_defs)
  then have st11: "step ?fs 0 ?s10 ?s11"
    unfolding se11 .
  have sr11: "steps ?fs ?s0 ?s11" by (rule steps.further[OF sr10 st11])
  have se12: "move 0 (Read_dir 0 ''R'' [''..'', ''a''] 0) (?s11) = ?s12"
    by (simp add: step_defs)
  have "step ?fs 0 ?s11 (move 0 (Read_dir 0 ''R'' [''..'', ''a''] 0) (?s11))"
    by (rule step.read_skip[where i = 0 and path = "''R''" and name = "''.''" and names = "[''..'', ''a'']" and sm = 0]) (simp_all add: step_defs)
  then have st12: "step ?fs 0 ?s11 ?s12"
    unfolding se12 .
  have sr12: "steps ?fs ?s0 ?s12" by (rule steps.further[OF sr11 st12])
  have se13: "move 0 (Read_dir 0 ''R'' [''a''] 0) (?s12) = ?s13"
    by (simp add: step_defs)
  have "step ?fs 0 ?s12 (move 0 (Read_dir 0 ''R'' [''a''] 0) (?s12))"
    by (rule step.read_skip[where i = 0 and path = "''R''" and name = "''..''" and names = "[''a'']" and sm = 0]) (simp_all add: step_defs)
  then have st13: "step ?fs 0 ?s12 ?s13"
    unfolding se13 .
  have sr13: "steps ?fs ?s0 ?s13" by (rule steps.further[OF sr12 st13])
  let ?t0 = "\<lparr>coords = [\<lparr>active_threads = 0, tot_sum = 8, dir_queue = [''R'']\<rparr>], workers = [\<lparr>loc = Seek, errno = 0\<rparr>], mutex_work = None, stderr = [], proc = Running\<rparr>"
  let ?t1 = "\<lparr>coords = [\<lparr>active_threads = 0, tot_sum = 8, dir_queue = [''R'']\<rparr>], workers = [\<lparr>loc = Active 0, errno = 0\<rparr>], mutex_work = Some 0, stderr = [], proc = Running\<rparr>"
  let ?t2 = "\<lparr>coords = [\<lparr>active_threads = 0, tot_sum = 8, dir_queue = [''R'']\<rparr>], workers = [\<lparr>loc = Active_queue 0, errno = 0\<rparr>], mutex_work = Some 0, stderr = [], proc = Running\<rparr>"
  let ?t3 = "\<lparr>coords = [\<lparr>active_threads = 0, tot_sum = 8, dir_queue = [''R'']\<rparr>], workers = [\<lparr>loc = Work 0, errno = 0\<rparr>], mutex_work = Some 0, stderr = [], proc = Running\<rparr>"
  let ?t4 = "\<lparr>coords = [\<lparr>active_threads = 0, tot_sum = 8, dir_queue = [''R'']\<rparr>], workers = [\<lparr>loc = Take 0, errno = 0\<rparr>], mutex_work = Some 0, stderr = [], proc = Running\<rparr>"
  let ?t5 = "\<lparr>coords = [\<lparr>active_threads = 0, tot_sum = 8, dir_queue = []\<rparr>], workers = [\<lparr>loc = Increment 0 ''R'', errno = 0\<rparr>], mutex_work = Some 0, stderr = [], proc = Running\<rparr>"
  let ?t6 = "\<lparr>coords = [\<lparr>active_threads = 1, tot_sum = 8, dir_queue = []\<rparr>], workers = [\<lparr>loc = Open_dir 0 ''R'', errno = 0\<rparr>], mutex_work = None, stderr = [], proc = Running\<rparr>"
  let ?t7 = "\<lparr>coords = [\<lparr>active_threads = 1, tot_sum = 8, dir_queue = []\<rparr>], workers = [\<lparr>loc = Read_dir 0 ''R'' [''.'', ''..'', ''a''] 0, errno = 0\<rparr>], mutex_work = None, stderr = [], proc = Running\<rparr>"
  let ?t8 = "\<lparr>coords = [\<lparr>active_threads = 1, tot_sum = 8, dir_queue = []\<rparr>], workers = [\<lparr>loc = Read_dir 0 ''R'' [''..'', ''a''] 0, errno = 0\<rparr>], mutex_work = None, stderr = [], proc = Running\<rparr>"
  let ?t9 = "\<lparr>coords = [\<lparr>active_threads = 1, tot_sum = 8, dir_queue = []\<rparr>], workers = [\<lparr>loc = Read_dir 0 ''R'' [''a''] 0, errno = 0\<rparr>], mutex_work = None, stderr = [], proc = Running\<rparr>"
  have tr0: "steps ?fs ?t0 ?t0" by (rule steps.here)
  have te1: "(move 0 (Active 0) (?t0))\<lparr>mutex_work := Some 0\<rparr> = ?t1"
    by (simp add: step_defs)
  have "step ?fs 0 ?t0 ((move 0 (Active 0) (?t0))\<lparr>mutex_work := Some 0\<rparr>)"
    by (rule step.lock) (simp_all add: step_defs)
  then have tt1: "step ?fs 0 ?t0 ?t1"
    unfolding te1 .
  have tr1: "steps ?fs ?t0 ?t1" by (rule steps.further[OF tr0 tt1])
  have te2: "move 0 (Active_queue 0) (?t1) = ?t2"
    by (simp add: step_defs)
  have "step ?fs 0 ?t1 (move 0 (Active_queue 0) (?t1))"
    by (rule step.active_no_counter[where i = 0]) (simp_all add: step_defs)
  then have tt2: "step ?fs 0 ?t1 ?t2"
    unfolding te2 .
  have tr2: "steps ?fs ?t0 ?t2" by (rule steps.further[OF tr1 tt2])
  have te3: "move 0 (Work 0) (?t2) = ?t3"
    by (simp add: step_defs)
  have "step ?fs 0 ?t2 (move 0 (Work 0) (?t2))"
    by (rule step.active_queue[where i = 0]) (simp_all add: step_defs)
  then have tt3: "step ?fs 0 ?t2 ?t3"
    unfolding te3 .
  have tr3: "steps ?fs ?t0 ?t3" by (rule steps.further[OF tr2 tt3])
  have te4: "move 0 (Take 0) (?t3) = ?t4"
    by (simp add: step_defs)
  have "step ?fs 0 ?t3 (move 0 (Take 0) (?t3))"
    by (rule step.work_found[where i = 0]) (simp_all add: step_defs)
  then have tt4: "step ?fs 0 ?t3 ?t4"
    unfolding te4 .
  have tr4: "steps ?fs ?t0 ?t4" by (rule steps.further[OF tr3 tt4])
  have te5: "move 0 (Increment 0 ''R'') (put 0 ((coords ?t4 ! 0)\<lparr>dir_queue := []\<rparr>) ?t4) = ?t5"
    by (simp add: step_defs)
  have "step ?fs 0 ?t4 (move 0 (Increment 0 ''R'') (put 0 ((coords ?t4 ! 0)\<lparr>dir_queue := []\<rparr>) ?t4))"
    by (rule step.take[where i = 0 and path = "''R''" and rest = "[]"]) (simp_all add: step_defs)
  then have tt5: "step ?fs 0 ?t4 ?t5"
    unfolding te5 .
  have tr5: "steps ?fs ?t0 ?t5" by (rule steps.further[OF tr4 tt5])
  have te6: "(move 0 (Open_dir 0 ''R'') (put 0 ((coords ?t5 ! 0)\<lparr>active_threads := increment_counter (active_threads (coords ?t5 ! 0))\<rparr>) ?t5))\<lparr>mutex_work := None\<rparr> = ?t6"
    by (simp add: step_defs)
  have "step ?fs 0 ?t5 ((move 0 (Open_dir 0 ''R'') (put 0 ((coords ?t5 ! 0)\<lparr>active_threads := increment_counter (active_threads (coords ?t5 ! 0))\<rparr>) ?t5))\<lparr>mutex_work := None\<rparr>)"
    by (rule step.increment[where i = 0 and path = "''R''"]) (simp_all add: step_defs)
  then have tt6: "step ?fs 0 ?t5 ?t6"
    unfolding te6 .
  have tr6: "steps ?fs ?t0 ?t6" by (rule steps.further[OF tr5 tt6])
  have te7: "?t6\<lparr>workers := (workers ?t6)[0 := \<lparr>loc = (case Some [''.'', ''..'', ''a''] of None \<Rightarrow> Finish 0 | Some names \<Rightarrow> Read_dir 0 ''R'' names 0), errno = 0\<rparr>], stderr := stderr ?t6 @ []\<rparr> = ?t7"
    by (simp add: step_defs)
  have "step ?fs 0 ?t6 (?t6\<lparr>workers := (workers ?t6)[0 := \<lparr>loc = (case Some [''.'', ''..'', ''a''] of None \<Rightarrow> Finish 0 | Some names \<Rightarrow> Read_dir 0 ''R'' names 0), errno = 0\<rparr>], stderr := stderr ?t6 @ []\<rparr>)"
    by (rule step.open_dir[where i = 0 and path = "''R''" and directory = "Some [''.'', ''..'', ''a'']" and messages = "[]" and errno' = 0]) (simp_all add: step_defs)
  then have tt7: "step ?fs 0 ?t6 ?t7"
    unfolding te7 .
  have tr7: "steps ?fs ?t0 ?t7" by (rule steps.further[OF tr6 tt7])
  have te8: "move 0 (Read_dir 0 ''R'' [''..'', ''a''] 0) (?t7) = ?t8"
    by (simp add: step_defs)
  have "step ?fs 0 ?t7 (move 0 (Read_dir 0 ''R'' [''..'', ''a''] 0) (?t7))"
    by (rule step.read_skip[where i = 0 and path = "''R''" and name = "''.''" and names = "[''..'', ''a'']" and sm = 0]) (simp_all add: step_defs)
  then have tt8: "step ?fs 0 ?t7 ?t8"
    unfolding te8 .
  have tr8: "steps ?fs ?t0 ?t8" by (rule steps.further[OF tr7 tt8])
  have te9: "move 0 (Read_dir 0 ''R'' [''a''] 0) (?t8) = ?t9"
    by (simp add: step_defs)
  have "step ?fs 0 ?t8 (move 0 (Read_dir 0 ''R'' [''a''] 0) (?t8))"
    by (rule step.read_skip[where i = 0 and path = "''R''" and name = "''..''" and names = "[''a'']" and sm = 0]) (simp_all add: step_defs)
  then have tt9: "step ?fs 0 ?t8 ?t9"
    unfolding te9 .
  have tr9: "steps ?fs ?t0 ?t9" by (rule steps.further[OF tr8 tt9])
  have i: "initial (map (seed_coordinator ?fs) [''R'']) 1 = ?s0"
    by (simp add: initial_def seed_coordinator_def own_blocks_def)
  have j: "initial (map (seed_coordinator ?fs) [''R'']) 0 = ?t0"
    by (simp add: initial_def seed_coordinator_def own_blocks_def)
  have r: "steps ?fs (initial (map (seed_coordinator ?fs) [''R'']) 1) ?s13"
    unfolding i by (rule sr13)
  have q: "steps ?fs (initial (map (seed_coordinator ?fs) [''R'']) 0) ?t9"
    unfolding j by (rule tr9)
  have n: "\<not> is_dot_or_dot_dot ''a''" by (simp add: is_dot_or_dot_dot_def)
  have l: "lstat ?fs (full_path_of ''R'' ''a'') = None"
    by (simp add: full_path_of_def get_path_length_def)
  have a: "at ?s13 0 (Read_dir 0 ''R'' (''a'' # []) 0)" by (simp add: at_def)
  have b: "at ?t9 0 (Read_dir 0 ''R'' (''a'' # []) 0)" by (simp add: at_def)
  note T = lstat_failure_ends_the_process[OF a n l]
  note U = lstat_failure_ends_the_process[OF b n l]
  have w: "\<exists>v<length (workers ?s13). v \<noteq> 0 \<and> loc (workers ?s13 ! v) = Waiting"
    by (intro exI[of _ 1]) simp
  from T[THEN conjunct2, THEN conjunct2, THEN conjunct2, THEN conjunct1, THEN mp, OF w]
  have c: "\<forall>s'. step ?fs 0 ?s13 s' \<longleftrightarrow> s' = ?s13\<lparr>proc := Ended Undefined_behaviour\<rparr>" .
  from c[THEN spec, of "?s13\<lparr>proc := Ended Undefined_behaviour\<rparr>"]
  have 1: "step ?fs 0 ?s13 (?s13\<lparr>proc := Ended Undefined_behaviour\<rparr>)" by (simp only: simp_thms)
  from c[THEN spec, of "?s13\<lparr>proc := Ended Exit_failure\<rparr>"]
  have 2: "\<not> step ?fs 0 ?s13 (?s13\<lparr>proc := Ended Exit_failure\<rparr>)" by simp
  have o: "length (workers ?t9) = 1 \<and> (\<forall>c\<in>set (coords ?t9). dir_queue c = []) \<and>
           mutex_work ?t9 = None" by simp
  from U[THEN conjunct2, THEN conjunct2, THEN conjunct1, THEN mp, OF o]
  have d: "\<forall>s'. step ?fs 0 ?t9 s' \<longleftrightarrow> s' = ?t9\<lparr>proc := Ended Exit_failure\<rparr>" .
  from d[THEN spec, of "?t9\<lparr>proc := Ended Exit_failure\<rparr>"]
  have 3: "step ?fs 0 ?t9 (?t9\<lparr>proc := Ended Exit_failure\<rparr>)" by (simp only: simp_thms)
  from d[THEN spec, of "?t9\<lparr>proc := Ended Undefined_behaviour\<rparr>"]
  have 4: "\<not> step ?fs 0 ?t9 (?t9\<lparr>proc := Ended Undefined_behaviour\<rparr>)" by simp
  from r l 1 2 q 3 4 show ?thesis by (intro conjI)
qed


section \<open>What a run of \<^verbatim>\<open>main\<close> writes\<close>


lemma print_from_at_most:
  "print_from fs optind cs mem i dn args = (out, r) \<Longrightarrow>
   length out \<le> length (path_args_from optind i args)"
proof (induction args arbitrary: i dn out r)
  case Nil
  then show ?case by simp
next
  case (Cons arg args)
  show ?case
  proof (cases "is_flag_arg optind i")
    case True
    from Cons.prems have "print_from fs optind cs mem (i + 1) dn args = (out, r)"
      unfolding print_from_flag[OF True] .
    from Cons.IH[OF this] show ?thesis unfolding path_args_flag[OF True] .
  next
    case False
    show ?thesis
    proof (cases "lstat fs arg")
      case None
      with Cons.prems False show ?thesis by (simp add: safe_lstat_def)
    next
      case (Some st)
      show ?thesis
      proof (cases "is_dictionary st")
        case True
        show ?thesis
        proof (cases "dn < length cs")
          case dn: True
          obtain out' r' where p: "print_from fs optind cs mem (i + 1) (dn + 1) args = (out', r')"
            by (cases "print_from fs optind cs mem (i + 1) (dn + 1) args")
          with Cons.prems False Some True dn have "out = result_line (tot_sum (cs ! dn)) arg # out'"
            by (simp add: safe_lstat_def)
          with Cons.IH[OF p] show ?thesis unfolding path_args_path[OF False] by simp
        next
          case dn: False
          with Cons.prems False Some True show ?thesis by (simp add: safe_lstat_def)
        qed
      next
        case nd: False
        obtain out' r' where p: "print_from fs optind cs mem (i + 1) dn args = (out', r')"
          by (cases "print_from fs optind cs mem (i + 1) dn args")
        with Cons.prems False Some nd have "out = result_line (scast (st_blocks st)) arg # out'"
          by (simp add: safe_lstat_def)
        with Cons.IH[OF p] show ?thesis unfolding path_args_path[OF False] by simp
      qed
    qed
  qed
qed

lemma seeded_arguments_exist:
  "traverse_from fs optind i args cm = Inr r \<Longrightarrow>
   \<forall>arg\<in>set (path_args_from optind i args). lstat fs arg \<noteq> None"
proof (induction args arbitrary: i cm)
  case Nil
  then show ?case by simp
next
  case (Cons arg args)
  from Cons.prems obtain cm' where
    p: "process_argument fs optind i arg cm = Inr cm'"
    and t: "traverse_from fs optind (i + 1) args cm' = Inr r"
    by (auto split: sum.splits)
  obtain tc mem where cm: "cm = (tc, mem)" by (cases cm)
  have "\<not> is_flag_arg optind i \<longrightarrow> lstat fs arg \<noteq> None"
  proof
    assume nf: "\<not> is_flag_arg optind i"
    show "lstat fs arg \<noteq> None"
    proof
      assume "lstat fs arg = None"
      from process_argument_no_stat[OF nf this, of tc mem] p cm show False by simp
    qed
  qed
  with Cons.IH[OF t] show ?case by simp
qed

lemma final_status_values: "final_status s = EXIT_SUCCESS \<or> final_status s = EXIT_FAILURE"
  by (simp add: final_status_def Let_def)

lemma ended_not_success: "ended f \<noteq> Some EXIT_SUCCESS"
  by (cases f) (simp_all add: EXIT_SUCCESS_def EXIT_FAILURE_def)

lemma print_results_stable:
  assumes "create_thread_context mem = Inr cm"
    and "traverse_input_arguments fs optind argv cm = Inr (tc, m)"
    and "live_coordinators tc = Some cs"
    and "steps fs (initial cs k) s"
    and "\<forall>arg \<in> set (path_arguments optind argv). lstat fs' arg = lstat fs arg"
  shows "\<exists>lines. print_results fs' optind argv (coords s) mem' = (lines, None)"
proof -
  let ?pa = "path_arguments optind argv"
  obtain tc0 m0 where cm: "cm = (tc0, m0)" by (cases cm)
  from assms(2) have "traverse_from fs optind 1 (tl argv) cm = Inr (tc, m)"
    by (simp add: traverse_input_arguments_def)
  from seeded_arguments_exist[OF this] have "\<forall>arg\<in>set ?pa. lstat fs arg \<noteq> None"
    by (simp add: path_arguments_def)
  with assms(5) have 1: "\<forall>arg\<in>set ?pa. lstat fs' arg \<noteq> None" by simp
  from assms(5) have "\<forall>arg\<in>set ?pa. names_directory fs' arg = names_directory fs arg"
    by (simp add: names_directory_def)
  then have "filter (names_directory fs') ?pa = filter (names_directory fs) ?pa"
    by (intro filter_cong) simp_all
  moreover from seeding_result[OF assms(1,2)] assms(3)
  have "length cs = length (filter (names_directory fs) ?pa)"
    by (auto simp add: directory_arguments_def)
  moreover have "length (coords s) = length cs"
    using steps_lengths[OF assms(4)] by (simp add: initial_def)
  ultimately have 2: "length (filter (names_directory fs') ?pa) \<le> length (coords s)" by simp
  from 1 have 3: "\<forall>arg\<in>set (path_args_from optind 1 (tl argv)). lstat fs' arg \<noteq> None"
    by (simp add: path_arguments_def)
  from 2 have 4: "0 + length (filter (names_directory fs') (path_args_from optind 1 (tl argv)))
      \<le> length (coords s)"
    by (simp add: path_arguments_def)
  from print_from_total[OF 3 4]
  show ?thesis by (simp add: print_results_def)
qed


lemma show_int_8: "show_int 8 = [CHR 0x38]"
  by (simp add: show_int_def dec_digits.simps[of 8] char_of_def bit_Suc_0_iff)

text \<open>
  Claim C5, as the program has it. Every outcome of a run of \<^verbatim>\<open>main\<close> writes at most one
  line for each path argument, and a run that wrote fewer lines than that did not end with
  \<^verbatim>\<open>EXIT_SUCCESS\<close>. When each path argument gives \<^verbatim>\<open>lstat\<close> in \<^verbatim>\<open>print_results\<close> the result it
  gave during the seeding, the outcome is all or nothing: no line at all, or one line for
  each path argument and an exit with \<^verbatim>\<open>EXIT_SUCCESS\<close> or \<^verbatim>\<open>EXIT_FAILURE\<close>. Every end before
  \<^verbatim>\<open>print_results\<close> (usage, a failed allocation, a failed \<^verbatim>\<open>lstat\<close> in the seeding or in a
  worker) has written no line. Without the hypothesis on \<^verbatim>\<open>lstat\<close> the claim fails: \<^verbatim>\<open>print_results\<close> calls
  \<^verbatim>\<open>safe_lstat\<close> again after the lines of the earlier arguments were written.
\<close>

theorem output_is_all_or_nothing:
  assumes "main_run fs fs' opts optind argv mem (out, e)"
  shows "length out \<le> length (path_arguments optind argv) \<and>
         (length out < length (path_arguments optind argv) \<longrightarrow> e \<noteq> Some EXIT_SUCCESS) \<and>
         ((\<forall>arg \<in> set (path_arguments optind argv). lstat fs' arg = lstat fs arg) \<longrightarrow>
            out = [] \<or>
            (length out = length (path_arguments optind argv) \<and>
             (e = Some EXIT_SUCCESS \<or> e = Some EXIT_FAILURE)))"
  using assms
proof (cases rule: main_run.cases)
  case usage
  then show ?thesis by (simp add: EXIT_SUCCESS_def EXIT_FAILURE_def)
next
  case no_threads
  then show ?thesis by simp
next
  case (no_context f)
  then show ?thesis using ended_not_success[of f] by simp
next
  case (no_seed cm f)
  then show ?thesis using ended_not_success[of f] by simp
next
  case (worker_failed cm tc m cs s f)
  then show ?thesis using ended_not_success[of f] by simp
next
  case (printed cm tc m cs s mem')
  from printed have p: "print_results fs' optind argv (coords s) mem' = (out, None)" by simp
  from print_from_length[of fs' optind "coords s" mem' 1 0 "tl argv" out] p
  have len: "length out = length (path_arguments optind argv)"
    by (simp add: print_results_def path_arguments_def)
  from printed have "e = Some (final_status s)" by simp
  with final_status_values[of s]
  have "e = Some EXIT_SUCCESS \<or> e = Some EXIT_FAILURE" by auto
  with len show ?thesis by auto
next
  case (print_failed cm tc m cs s mem' f)
  from print_failed have p: "print_results fs' optind argv (coords s) mem' = (out, Some f)"
    by simp
  from print_from_at_most[of fs' optind "coords s" mem' 1 0 "tl argv" out "Some f"] p
  have le: "length out \<le> length (path_arguments optind argv)"
    by (simp add: print_results_def path_arguments_def)
  from print_failed have "e = ended f" by simp
  with ended_not_success[of f] have ns: "e \<noteq> Some EXIT_SUCCESS" by simp
  from print_failed have c: "create_thread_context mem = Inr cm"
    and t: "traverse_input_arguments fs optind argv cm = Inr (tc, m)"
    and l: "live_coordinators tc = Some cs"
    and st: "steps fs (initial cs (spawned_threads (get_thread_amount opts))) s"
    by simp_all
  have stable: "\<not> (\<forall>arg \<in> set (path_arguments optind argv). lstat fs' arg = lstat fs arg)"
  proof
    assume "\<forall>arg \<in> set (path_arguments optind argv). lstat fs' arg = lstat fs arg"
    from print_results_stable[OF c t l st this, of mem'] p
    show False by simp
  qed
  from le ns stable show ?thesis by blast
qed

theorem output_is_all_or_nothing_witness:
  "main_run
     \<lparr>lstat = (\<lambda>p. if p = ''R'' then Some \<lparr>st_mode = 0x41ED, st_blocks = 8\<rparr> else if p = ''a'' then Some \<lparr>st_mode = 0x81A4, st_blocks = 1\<rparr> else None), opendir = (\<lambda>p. if p = ''R'' then Inr [''.'', ''..''] else Inl ENOTDIR)\<rparr>
     \<lparr>lstat = (\<lambda>p. if p = ''R'' then Some \<lparr>st_mode = 0x41ED, st_blocks = 8\<rparr> else if p = ''a'' then Some \<lparr>st_mode = 0x81A4, st_blocks = 1\<rparr> else None), opendir = (\<lambda>p. if p = ''R'' then Inr [''.'', ''..''] else Inl ENOTDIR)\<rparr>
     [] 1 [''mdu'', ''R'', ''a''] 100
     ([[CHR ''8'', CHR 0x09, CHR ''R'', CHR 0x0A],
       [CHR ''1'', CHR 0x09, CHR ''a'', CHR 0x0A]], Some EXIT_SUCCESS) \<and>
   path_arguments 1 [''mdu'', ''R'', ''a''] = [''R'', ''a''] \<and>
   length [[CHR ''8'', CHR 0x09, CHR ''R'', CHR 0x0A],
           [CHR ''1'', CHR 0x09, CHR ''a'', CHR 0x0A]] =
     length (path_arguments 1 [''mdu'', ''R'', ''a''])"
proof -
  let ?fs = "\<lparr>lstat = (\<lambda>p. if p = ''R'' then Some \<lparr>st_mode = 0x41ED, st_blocks = 8\<rparr> else if p = ''a'' then Some \<lparr>st_mode = 0x81A4, st_blocks = 1\<rparr> else None), opendir = (\<lambda>p. if p = ''R'' then Inr [''.'', ''..''] else Inl ENOTDIR)\<rparr>"
  let ?argv = "[''mdu'', ''R'', ''a'']"
  let ?tc = "\<lparr>coordinator = [Some \<lparr>active_threads = 0, tot_sum = 8, dir_queue = [''R'']\<rparr>, None], dir_num = 1, size_tc = 2\<rparr>"
  let ?cs = "[\<lparr>active_threads = 0, tot_sum = 8, dir_queue = [''R'']\<rparr>]"
  let ?out = "[[CHR ''8'', CHR 0x09, CHR ''R'', CHR 0x0A],
               [CHR ''1'', CHR 0x09, CHR ''a'', CHR 0x0A]]"
  let ?s0 = "\<lparr>coords = [\<lparr>active_threads = 0, tot_sum = 8, dir_queue = [''R'']\<rparr>], workers = [\<lparr>loc = Seek, errno = 0\<rparr>], mutex_work = None, stderr = [], proc = Running\<rparr>"
  let ?s1 = "\<lparr>coords = [\<lparr>active_threads = 0, tot_sum = 8, dir_queue = [''R'']\<rparr>], workers = [\<lparr>loc = Active 0, errno = 0\<rparr>], mutex_work = Some 0, stderr = [], proc = Running\<rparr>"
  let ?s2 = "\<lparr>coords = [\<lparr>active_threads = 0, tot_sum = 8, dir_queue = [''R'']\<rparr>], workers = [\<lparr>loc = Active_queue 0, errno = 0\<rparr>], mutex_work = Some 0, stderr = [], proc = Running\<rparr>"
  let ?s3 = "\<lparr>coords = [\<lparr>active_threads = 0, tot_sum = 8, dir_queue = [''R'']\<rparr>], workers = [\<lparr>loc = Work 0, errno = 0\<rparr>], mutex_work = Some 0, stderr = [], proc = Running\<rparr>"
  let ?s4 = "\<lparr>coords = [\<lparr>active_threads = 0, tot_sum = 8, dir_queue = [''R'']\<rparr>], workers = [\<lparr>loc = Take 0, errno = 0\<rparr>], mutex_work = Some 0, stderr = [], proc = Running\<rparr>"
  let ?s5 = "\<lparr>coords = [\<lparr>active_threads = 0, tot_sum = 8, dir_queue = []\<rparr>], workers = [\<lparr>loc = Increment 0 ''R'', errno = 0\<rparr>], mutex_work = Some 0, stderr = [], proc = Running\<rparr>"
  let ?s6 = "\<lparr>coords = [\<lparr>active_threads = 1, tot_sum = 8, dir_queue = []\<rparr>], workers = [\<lparr>loc = Open_dir 0 ''R'', errno = 0\<rparr>], mutex_work = None, stderr = [], proc = Running\<rparr>"
  let ?s7 = "\<lparr>coords = [\<lparr>active_threads = 1, tot_sum = 8, dir_queue = []\<rparr>], workers = [\<lparr>loc = Read_dir 0 ''R'' [''.'', ''..''] 0, errno = 0\<rparr>], mutex_work = None, stderr = [], proc = Running\<rparr>"
  let ?s8 = "\<lparr>coords = [\<lparr>active_threads = 1, tot_sum = 8, dir_queue = []\<rparr>], workers = [\<lparr>loc = Read_dir 0 ''R'' [''..''] 0, errno = 0\<rparr>], mutex_work = None, stderr = [], proc = Running\<rparr>"
  let ?s9 = "\<lparr>coords = [\<lparr>active_threads = 1, tot_sum = 8, dir_queue = []\<rparr>], workers = [\<lparr>loc = Read_dir 0 ''R'' [] 0, errno = 0\<rparr>], mutex_work = None, stderr = [], proc = Running\<rparr>"
  let ?s10 = "\<lparr>coords = [\<lparr>active_threads = 1, tot_sum = 8, dir_queue = []\<rparr>], workers = [\<lparr>loc = Finish 0, errno = 0\<rparr>], mutex_work = None, stderr = [], proc = Running\<rparr>"
  let ?s11 = "\<lparr>coords = [\<lparr>active_threads = 0, tot_sum = 8, dir_queue = []\<rparr>], workers = [\<lparr>loc = Seek, errno = 0\<rparr>], mutex_work = None, stderr = [], proc = Running\<rparr>"
  let ?s12 = "\<lparr>coords = [\<lparr>active_threads = 0, tot_sum = 8, dir_queue = []\<rparr>], workers = [\<lparr>loc = Active 0, errno = 0\<rparr>], mutex_work = Some 0, stderr = [], proc = Running\<rparr>"
  let ?s13 = "\<lparr>coords = [\<lparr>active_threads = 0, tot_sum = 8, dir_queue = []\<rparr>], workers = [\<lparr>loc = Active_queue 0, errno = 0\<rparr>], mutex_work = Some 0, stderr = [], proc = Running\<rparr>"
  let ?s14 = "\<lparr>coords = [\<lparr>active_threads = 0, tot_sum = 8, dir_queue = []\<rparr>], workers = [\<lparr>loc = Active 1, errno = 0\<rparr>], mutex_work = Some 0, stderr = [], proc = Running\<rparr>"
  let ?s15 = "\<lparr>coords = [\<lparr>active_threads = 0, tot_sum = 8, dir_queue = []\<rparr>], workers = [\<lparr>loc = Exiting, errno = 0\<rparr>], mutex_work = None, stderr = [], proc = Running\<rparr>"
  let ?s16 = "\<lparr>coords = [\<lparr>active_threads = 0, tot_sum = 8, dir_queue = []\<rparr>], workers = [\<lparr>loc = Exited 0, errno = 0\<rparr>], mutex_work = None, stderr = [], proc = Running\<rparr>"
  have sr0: "steps ?fs ?s0 ?s0" by (rule steps.here)
  have se1: "(move 0 (Active 0) (?s0))\<lparr>mutex_work := Some 0\<rparr> = ?s1"
    by (simp add: step_defs)
  have "step ?fs 0 ?s0 ((move 0 (Active 0) (?s0))\<lparr>mutex_work := Some 0\<rparr>)"
    by (rule step.lock) (simp_all add: step_defs)
  then have st1: "step ?fs 0 ?s0 ?s1"
    unfolding se1 .
  have sr1: "steps ?fs ?s0 ?s1" by (rule steps.further[OF sr0 st1])
  have se2: "move 0 (Active_queue 0) (?s1) = ?s2"
    by (simp add: step_defs)
  have "step ?fs 0 ?s1 (move 0 (Active_queue 0) (?s1))"
    by (rule step.active_no_counter[where i = 0]) (simp_all add: step_defs)
  then have st2: "step ?fs 0 ?s1 ?s2"
    unfolding se2 .
  have sr2: "steps ?fs ?s0 ?s2" by (rule steps.further[OF sr1 st2])
  have se3: "move 0 (Work 0) (?s2) = ?s3"
    by (simp add: step_defs)
  have "step ?fs 0 ?s2 (move 0 (Work 0) (?s2))"
    by (rule step.active_queue[where i = 0]) (simp_all add: step_defs)
  then have st3: "step ?fs 0 ?s2 ?s3"
    unfolding se3 .
  have sr3: "steps ?fs ?s0 ?s3" by (rule steps.further[OF sr2 st3])
  have se4: "move 0 (Take 0) (?s3) = ?s4"
    by (simp add: step_defs)
  have "step ?fs 0 ?s3 (move 0 (Take 0) (?s3))"
    by (rule step.work_found[where i = 0]) (simp_all add: step_defs)
  then have st4: "step ?fs 0 ?s3 ?s4"
    unfolding se4 .
  have sr4: "steps ?fs ?s0 ?s4" by (rule steps.further[OF sr3 st4])
  have se5: "move 0 (Increment 0 ''R'') (put 0 ((coords ?s4 ! 0)\<lparr>dir_queue := []\<rparr>) ?s4) = ?s5"
    by (simp add: step_defs)
  have "step ?fs 0 ?s4 (move 0 (Increment 0 ''R'') (put 0 ((coords ?s4 ! 0)\<lparr>dir_queue := []\<rparr>) ?s4))"
    by (rule step.take[where i = 0 and path = "''R''" and rest = "[]"]) (simp_all add: step_defs)
  then have st5: "step ?fs 0 ?s4 ?s5"
    unfolding se5 .
  have sr5: "steps ?fs ?s0 ?s5" by (rule steps.further[OF sr4 st5])
  have se6: "(move 0 (Open_dir 0 ''R'') (put 0 ((coords ?s5 ! 0)\<lparr>active_threads := increment_counter (active_threads (coords ?s5 ! 0))\<rparr>) ?s5))\<lparr>mutex_work := None\<rparr> = ?s6"
    by (simp add: step_defs)
  have "step ?fs 0 ?s5 ((move 0 (Open_dir 0 ''R'') (put 0 ((coords ?s5 ! 0)\<lparr>active_threads := increment_counter (active_threads (coords ?s5 ! 0))\<rparr>) ?s5))\<lparr>mutex_work := None\<rparr>)"
    by (rule step.increment[where i = 0 and path = "''R''"]) (simp_all add: step_defs)
  then have st6: "step ?fs 0 ?s5 ?s6"
    unfolding se6 .
  have sr6: "steps ?fs ?s0 ?s6" by (rule steps.further[OF sr5 st6])
  have se7: "?s6\<lparr>workers := (workers ?s6)[0 := \<lparr>loc = (case Some [''.'', ''..''] of None \<Rightarrow> Finish 0 | Some names \<Rightarrow> Read_dir 0 ''R'' names 0), errno = 0\<rparr>], stderr := stderr ?s6 @ []\<rparr> = ?s7"
    by (simp add: step_defs)
  have "step ?fs 0 ?s6 (?s6\<lparr>workers := (workers ?s6)[0 := \<lparr>loc = (case Some [''.'', ''..''] of None \<Rightarrow> Finish 0 | Some names \<Rightarrow> Read_dir 0 ''R'' names 0), errno = 0\<rparr>], stderr := stderr ?s6 @ []\<rparr>)"
    by (rule step.open_dir[where i = 0 and path = "''R''" and directory = "Some [''.'', ''..'']" and messages = "[]" and errno' = 0]) (simp_all add: step_defs)
  then have st7: "step ?fs 0 ?s6 ?s7"
    unfolding se7 .
  have sr7: "steps ?fs ?s0 ?s7" by (rule steps.further[OF sr6 st7])
  have se8: "move 0 (Read_dir 0 ''R'' [''..''] 0) (?s7) = ?s8"
    by (simp add: step_defs)
  have "step ?fs 0 ?s7 (move 0 (Read_dir 0 ''R'' [''..''] 0) (?s7))"
    by (rule step.read_skip[where i = 0 and path = "''R''" and name = "''.''" and names = "[''..'']" and sm = 0]) (simp_all add: step_defs)
  then have st8: "step ?fs 0 ?s7 ?s8"
    unfolding se8 .
  have sr8: "steps ?fs ?s0 ?s8" by (rule steps.further[OF sr7 st8])
  have se9: "move 0 (Read_dir 0 ''R'' [] 0) (?s8) = ?s9"
    by (simp add: step_defs)
  have "step ?fs 0 ?s8 (move 0 (Read_dir 0 ''R'' [] 0) (?s8))"
    by (rule step.read_skip[where i = 0 and path = "''R''" and name = "''..''" and names = "[]" and sm = 0]) (simp_all add: step_defs)
  then have st9: "step ?fs 0 ?s8 ?s9"
    unfolding se9 .
  have sr9: "steps ?fs ?s0 ?s9" by (rule steps.further[OF sr8 st9])
  have se10: "move 0 (Finish 0) (put 0 (update_total_sum 0 (coords ?s9 ! 0)) ?s9) = ?s10"
    by (simp add: step_defs)
  have "step ?fs 0 ?s9 (move 0 (Finish 0) (put 0 (update_total_sum 0 (coords ?s9 ! 0)) ?s9))"
    by (rule step.read_end[where i = 0 and path = "''R''" and sm = 0]) (simp_all add: step_defs)
  then have st10: "step ?fs 0 ?s9 ?s10"
    unfolding se10 .
  have sr10: "steps ?fs ?s0 ?s10" by (rule steps.further[OF sr9 st10])
  have se11: "move 0 (Seek) (put 0 ((coords ?s10 ! 0)\<lparr>active_threads := decrement_counter (active_threads (coords ?s10 ! 0))\<rparr>) ?s10) = ?s11"
    by (simp add: step_defs)
  have "step ?fs 0 ?s10 (move 0 (Seek) (put 0 ((coords ?s10 ! 0)\<lparr>active_threads := decrement_counter (active_threads (coords ?s10 ! 0))\<rparr>) ?s10))"
    by (rule step.finish[where i = 0]) (simp_all add: step_defs)
  then have st11: "step ?fs 0 ?s10 ?s11"
    unfolding se11 .
  have sr11: "steps ?fs ?s0 ?s11" by (rule steps.further[OF sr10 st11])
  have se12: "(move 0 (Active 0) (?s11))\<lparr>mutex_work := Some 0\<rparr> = ?s12"
    by (simp add: step_defs)
  have "step ?fs 0 ?s11 ((move 0 (Active 0) (?s11))\<lparr>mutex_work := Some 0\<rparr>)"
    by (rule step.lock) (simp_all add: step_defs)
  then have st12: "step ?fs 0 ?s11 ?s12"
    unfolding se12 .
  have sr12: "steps ?fs ?s0 ?s12" by (rule steps.further[OF sr11 st12])
  have se13: "move 0 (Active_queue 0) (?s12) = ?s13"
    by (simp add: step_defs)
  have "step ?fs 0 ?s12 (move 0 (Active_queue 0) (?s12))"
    by (rule step.active_no_counter[where i = 0]) (simp_all add: step_defs)
  then have st13: "step ?fs 0 ?s12 ?s13"
    unfolding se13 .
  have sr13: "steps ?fs ?s0 ?s13" by (rule steps.further[OF sr12 st13])
  have se14: "move 0 (Active (Suc 0)) ?s13 = ?s14"
    by (simp add: step_defs)
  have "step ?fs 0 ?s13 (move 0 (Active (Suc 0)) ?s13)"
    by (rule step.active_next[where i = 0]) (simp_all add: step_defs)
  then have st14: "step ?fs 0 ?s13 ?s14"
    unfolding se14 .
  have sr14: "steps ?fs ?s0 ?s14" by (rule steps.further[OF sr13 st14])
  have se15: "(move 0 (Exiting) (?s14))\<lparr>mutex_work := None\<rparr> = ?s15"
    by (simp add: step_defs)
  have "step ?fs 0 ?s14 ((move 0 (Exiting) (?s14))\<lparr>mutex_work := None\<rparr>)"
    by (rule step.active_none[where i = 1]) (simp_all add: step_defs)
  then have st15: "step ?fs 0 ?s14 ?s15"
    unfolding se15 .
  have sr15: "steps ?fs ?s0 ?s15" by (rule steps.further[OF sr14 st15])
  have se16: "move 0 (Exited (if errno (workers ?s15 ! 0) \<noteq> 0 then 1 else 0)) ?s15 = ?s16"
    by (simp add: step_defs)
  have "step ?fs 0 ?s15 (move 0 (Exited (if errno (workers ?s15 ! 0) \<noteq> 0 then 1 else 0)) ?s15)"
    by (rule step.return) (simp_all add: step_defs)
  then have st16: "step ?fs 0 ?s15 ?s16"
    unfolding se16 .
  have sr16: "steps ?fs ?s0 ?s16" by (rule steps.further[OF sr15 st16])
  have c: "create_thread_context 100 = Inr (\<lparr>coordinator = [None, None], dir_num = 0, size_tc = 2\<rparr>, 98)"
    by (simp add: create_thread_context_def safe_malloc_def safe_calloc_def)
  have p1: "process_argument ?fs 1 1 ''R'' (\<lparr>coordinator = [None, None], dir_num = 0, size_tc = 2\<rparr>, 98) = Inr (?tc, 93)"
    by (simp add: seed_step_defs)
  have p2: "process_argument ?fs 1 2 ''a'' (?tc, 93) = Inr (?tc, 93)"
    by (simp add: process_argument_def safe_lstat_def is_flag_arg_def is_dictionary_def
        S_IFMT_def S_IFDIR_def)
  have t: "traverse_input_arguments ?fs 1 ?argv (\<lparr>coordinator = [None, None], dir_num = 0, size_tc = 2\<rparr>, 98) = Inr (?tc, 93)"
    by (simp add: traverse_input_arguments_def p1 p2)
  have n1: "nat 1 = Suc 0" by simp
  have lc: "live_coordinators ?tc = Some ?cs"
    by (simp add: live_coordinators_def n1)
  have k: "spawned_threads (get_thread_amount []) = 0"
    by (simp add: spawned_threads_def)
  have i: "initial ?cs (spawned_threads (get_thread_amount [])) = ?s0"
    unfolding k by (simp add: initial_def)
  have r: "steps ?fs (initial ?cs (spawned_threads (get_thread_amount []))) ?s16"
    unfolding i by (rule sr16)
  have f: "finished ?s16"
    by (simp add: finished_def)
  have a2: "2 \<le> length ?argv" by simp
  have g0: "0 \<le> get_thread_amount []" by simp
  have pa: "path_arguments 1 ?argv = [''R'', ''a'']"
    by (simp add: path_arguments_def is_flag_arg_def)
  have p: "print_results ?fs 1 ?argv (coords ?s16) 0 = (?out, None)"
    by (simp add: print_results_def is_flag_arg_def safe_lstat_def is_dictionary_def S_IFMT_def
        S_IFDIR_def result_line_def show_int_8 show_int_1)
  have fsv: "final_status ?s16 = EXIT_SUCCESS"
    by (simp add: final_status_def EXIT_SUCCESS_def EXIT_FAILURE_def)
  from main_run.printed[OF a2 g0 c t lc r f p]
  have m: "main_run ?fs ?fs [] 1 ?argv 100 (?out, Some EXIT_SUCCESS)"
    unfolding fsv .
  have same: "\<forall>arg \<in> set (path_arguments 1 ?argv). lstat ?fs arg = lstat ?fs arg"
    by (rule ballI) (rule refl)
  note T = output_is_all_or_nothing[OF m]
  from T[THEN conjunct2, THEN conjunct2, THEN mp, OF same]
  have "?out = [] \<or> (length ?out = length (path_arguments 1 ?argv) \<and>
      (Some EXIT_SUCCESS = Some EXIT_SUCCESS \<or> Some EXIT_SUCCESS = Some EXIT_FAILURE))" .
  then have l: "length ?out = length (path_arguments 1 ?argv)" by blast
  from m pa l show ?thesis by (intro conjI)
qed

text \<open>
  \<^verbatim>\<open>mdu R a\<close> with an empty directory \<^verbatim>\<open>R\<close> and a plain file \<^verbatim>\<open>a\<close> that is removed after the
  seeding and before \<^verbatim>\<open>print_results\<close> reaches it: the line of \<^verbatim>\<open>R\<close> is written, then
  \<^verbatim>\<open>safe_lstat\<close> fails on \<^verbatim>\<open>a\<close> and the process exits with \<^verbatim>\<open>EXIT_FAILURE\<close>, one line out of
  two on stdout.
\<close>

theorem partial_results_are_printed:
  "main_run
     \<lparr>lstat = (\<lambda>p. if p = ''R'' then Some \<lparr>st_mode = 0x41ED, st_blocks = 8\<rparr> else if p = ''a'' then Some \<lparr>st_mode = 0x81A4, st_blocks = 1\<rparr> else None), opendir = (\<lambda>p. if p = ''R'' then Inr [''.'', ''..''] else Inl ENOTDIR)\<rparr>
     \<lparr>lstat = (\<lambda>p. if p = ''R'' then Some \<lparr>st_mode = 0x41ED, st_blocks = 8\<rparr> else None), opendir = (\<lambda>p. if p = ''R'' then Inr [''.'', ''..''] else Inl ENOTDIR)\<rparr>
     [] 1 [''mdu'', ''R'', ''a''] 100
     ([[CHR ''8'', CHR 0x09, CHR ''R'', CHR 0x0A]], Some EXIT_FAILURE) \<and>
   path_arguments 1 [''mdu'', ''R'', ''a''] = [''R'', ''a''] \<and>
   lstat \<lparr>lstat = (\<lambda>p. if p = ''R'' then Some \<lparr>st_mode = 0x41ED, st_blocks = 8\<rparr> else None), opendir = (\<lambda>p. if p = ''R'' then Inr [''.'', ''..''] else Inl ENOTDIR)\<rparr> ''a'' = None"
proof -
  let ?fs = "\<lparr>lstat = (\<lambda>p. if p = ''R'' then Some \<lparr>st_mode = 0x41ED, st_blocks = 8\<rparr> else if p = ''a'' then Some \<lparr>st_mode = 0x81A4, st_blocks = 1\<rparr> else None), opendir = (\<lambda>p. if p = ''R'' then Inr [''.'', ''..''] else Inl ENOTDIR)\<rparr>"
  let ?fs' = "\<lparr>lstat = (\<lambda>p. if p = ''R'' then Some \<lparr>st_mode = 0x41ED, st_blocks = 8\<rparr> else None), opendir = (\<lambda>p. if p = ''R'' then Inr [''.'', ''..''] else Inl ENOTDIR)\<rparr>"
  let ?argv = "[''mdu'', ''R'', ''a'']"
  let ?tc = "\<lparr>coordinator = [Some \<lparr>active_threads = 0, tot_sum = 8, dir_queue = [''R'']\<rparr>, None], dir_num = 1, size_tc = 2\<rparr>"
  let ?cs = "[\<lparr>active_threads = 0, tot_sum = 8, dir_queue = [''R'']\<rparr>]"
  let ?out = "[[CHR ''8'', CHR 0x09, CHR ''R'', CHR 0x0A]]"
  let ?s0 = "\<lparr>coords = [\<lparr>active_threads = 0, tot_sum = 8, dir_queue = [''R'']\<rparr>], workers = [\<lparr>loc = Seek, errno = 0\<rparr>], mutex_work = None, stderr = [], proc = Running\<rparr>"
  let ?s1 = "\<lparr>coords = [\<lparr>active_threads = 0, tot_sum = 8, dir_queue = [''R'']\<rparr>], workers = [\<lparr>loc = Active 0, errno = 0\<rparr>], mutex_work = Some 0, stderr = [], proc = Running\<rparr>"
  let ?s2 = "\<lparr>coords = [\<lparr>active_threads = 0, tot_sum = 8, dir_queue = [''R'']\<rparr>], workers = [\<lparr>loc = Active_queue 0, errno = 0\<rparr>], mutex_work = Some 0, stderr = [], proc = Running\<rparr>"
  let ?s3 = "\<lparr>coords = [\<lparr>active_threads = 0, tot_sum = 8, dir_queue = [''R'']\<rparr>], workers = [\<lparr>loc = Work 0, errno = 0\<rparr>], mutex_work = Some 0, stderr = [], proc = Running\<rparr>"
  let ?s4 = "\<lparr>coords = [\<lparr>active_threads = 0, tot_sum = 8, dir_queue = [''R'']\<rparr>], workers = [\<lparr>loc = Take 0, errno = 0\<rparr>], mutex_work = Some 0, stderr = [], proc = Running\<rparr>"
  let ?s5 = "\<lparr>coords = [\<lparr>active_threads = 0, tot_sum = 8, dir_queue = []\<rparr>], workers = [\<lparr>loc = Increment 0 ''R'', errno = 0\<rparr>], mutex_work = Some 0, stderr = [], proc = Running\<rparr>"
  let ?s6 = "\<lparr>coords = [\<lparr>active_threads = 1, tot_sum = 8, dir_queue = []\<rparr>], workers = [\<lparr>loc = Open_dir 0 ''R'', errno = 0\<rparr>], mutex_work = None, stderr = [], proc = Running\<rparr>"
  let ?s7 = "\<lparr>coords = [\<lparr>active_threads = 1, tot_sum = 8, dir_queue = []\<rparr>], workers = [\<lparr>loc = Read_dir 0 ''R'' [''.'', ''..''] 0, errno = 0\<rparr>], mutex_work = None, stderr = [], proc = Running\<rparr>"
  let ?s8 = "\<lparr>coords = [\<lparr>active_threads = 1, tot_sum = 8, dir_queue = []\<rparr>], workers = [\<lparr>loc = Read_dir 0 ''R'' [''..''] 0, errno = 0\<rparr>], mutex_work = None, stderr = [], proc = Running\<rparr>"
  let ?s9 = "\<lparr>coords = [\<lparr>active_threads = 1, tot_sum = 8, dir_queue = []\<rparr>], workers = [\<lparr>loc = Read_dir 0 ''R'' [] 0, errno = 0\<rparr>], mutex_work = None, stderr = [], proc = Running\<rparr>"
  let ?s10 = "\<lparr>coords = [\<lparr>active_threads = 1, tot_sum = 8, dir_queue = []\<rparr>], workers = [\<lparr>loc = Finish 0, errno = 0\<rparr>], mutex_work = None, stderr = [], proc = Running\<rparr>"
  let ?s11 = "\<lparr>coords = [\<lparr>active_threads = 0, tot_sum = 8, dir_queue = []\<rparr>], workers = [\<lparr>loc = Seek, errno = 0\<rparr>], mutex_work = None, stderr = [], proc = Running\<rparr>"
  let ?s12 = "\<lparr>coords = [\<lparr>active_threads = 0, tot_sum = 8, dir_queue = []\<rparr>], workers = [\<lparr>loc = Active 0, errno = 0\<rparr>], mutex_work = Some 0, stderr = [], proc = Running\<rparr>"
  let ?s13 = "\<lparr>coords = [\<lparr>active_threads = 0, tot_sum = 8, dir_queue = []\<rparr>], workers = [\<lparr>loc = Active_queue 0, errno = 0\<rparr>], mutex_work = Some 0, stderr = [], proc = Running\<rparr>"
  let ?s14 = "\<lparr>coords = [\<lparr>active_threads = 0, tot_sum = 8, dir_queue = []\<rparr>], workers = [\<lparr>loc = Active 1, errno = 0\<rparr>], mutex_work = Some 0, stderr = [], proc = Running\<rparr>"
  let ?s15 = "\<lparr>coords = [\<lparr>active_threads = 0, tot_sum = 8, dir_queue = []\<rparr>], workers = [\<lparr>loc = Exiting, errno = 0\<rparr>], mutex_work = None, stderr = [], proc = Running\<rparr>"
  let ?s16 = "\<lparr>coords = [\<lparr>active_threads = 0, tot_sum = 8, dir_queue = []\<rparr>], workers = [\<lparr>loc = Exited 0, errno = 0\<rparr>], mutex_work = None, stderr = [], proc = Running\<rparr>"
  have sr0: "steps ?fs ?s0 ?s0" by (rule steps.here)
  have se1: "(move 0 (Active 0) (?s0))\<lparr>mutex_work := Some 0\<rparr> = ?s1"
    by (simp add: step_defs)
  have "step ?fs 0 ?s0 ((move 0 (Active 0) (?s0))\<lparr>mutex_work := Some 0\<rparr>)"
    by (rule step.lock) (simp_all add: step_defs)
  then have st1: "step ?fs 0 ?s0 ?s1"
    unfolding se1 .
  have sr1: "steps ?fs ?s0 ?s1" by (rule steps.further[OF sr0 st1])
  have se2: "move 0 (Active_queue 0) (?s1) = ?s2"
    by (simp add: step_defs)
  have "step ?fs 0 ?s1 (move 0 (Active_queue 0) (?s1))"
    by (rule step.active_no_counter[where i = 0]) (simp_all add: step_defs)
  then have st2: "step ?fs 0 ?s1 ?s2"
    unfolding se2 .
  have sr2: "steps ?fs ?s0 ?s2" by (rule steps.further[OF sr1 st2])
  have se3: "move 0 (Work 0) (?s2) = ?s3"
    by (simp add: step_defs)
  have "step ?fs 0 ?s2 (move 0 (Work 0) (?s2))"
    by (rule step.active_queue[where i = 0]) (simp_all add: step_defs)
  then have st3: "step ?fs 0 ?s2 ?s3"
    unfolding se3 .
  have sr3: "steps ?fs ?s0 ?s3" by (rule steps.further[OF sr2 st3])
  have se4: "move 0 (Take 0) (?s3) = ?s4"
    by (simp add: step_defs)
  have "step ?fs 0 ?s3 (move 0 (Take 0) (?s3))"
    by (rule step.work_found[where i = 0]) (simp_all add: step_defs)
  then have st4: "step ?fs 0 ?s3 ?s4"
    unfolding se4 .
  have sr4: "steps ?fs ?s0 ?s4" by (rule steps.further[OF sr3 st4])
  have se5: "move 0 (Increment 0 ''R'') (put 0 ((coords ?s4 ! 0)\<lparr>dir_queue := []\<rparr>) ?s4) = ?s5"
    by (simp add: step_defs)
  have "step ?fs 0 ?s4 (move 0 (Increment 0 ''R'') (put 0 ((coords ?s4 ! 0)\<lparr>dir_queue := []\<rparr>) ?s4))"
    by (rule step.take[where i = 0 and path = "''R''" and rest = "[]"]) (simp_all add: step_defs)
  then have st5: "step ?fs 0 ?s4 ?s5"
    unfolding se5 .
  have sr5: "steps ?fs ?s0 ?s5" by (rule steps.further[OF sr4 st5])
  have se6: "(move 0 (Open_dir 0 ''R'') (put 0 ((coords ?s5 ! 0)\<lparr>active_threads := increment_counter (active_threads (coords ?s5 ! 0))\<rparr>) ?s5))\<lparr>mutex_work := None\<rparr> = ?s6"
    by (simp add: step_defs)
  have "step ?fs 0 ?s5 ((move 0 (Open_dir 0 ''R'') (put 0 ((coords ?s5 ! 0)\<lparr>active_threads := increment_counter (active_threads (coords ?s5 ! 0))\<rparr>) ?s5))\<lparr>mutex_work := None\<rparr>)"
    by (rule step.increment[where i = 0 and path = "''R''"]) (simp_all add: step_defs)
  then have st6: "step ?fs 0 ?s5 ?s6"
    unfolding se6 .
  have sr6: "steps ?fs ?s0 ?s6" by (rule steps.further[OF sr5 st6])
  have se7: "?s6\<lparr>workers := (workers ?s6)[0 := \<lparr>loc = (case Some [''.'', ''..''] of None \<Rightarrow> Finish 0 | Some names \<Rightarrow> Read_dir 0 ''R'' names 0), errno = 0\<rparr>], stderr := stderr ?s6 @ []\<rparr> = ?s7"
    by (simp add: step_defs)
  have "step ?fs 0 ?s6 (?s6\<lparr>workers := (workers ?s6)[0 := \<lparr>loc = (case Some [''.'', ''..''] of None \<Rightarrow> Finish 0 | Some names \<Rightarrow> Read_dir 0 ''R'' names 0), errno = 0\<rparr>], stderr := stderr ?s6 @ []\<rparr>)"
    by (rule step.open_dir[where i = 0 and path = "''R''" and directory = "Some [''.'', ''..'']" and messages = "[]" and errno' = 0]) (simp_all add: step_defs)
  then have st7: "step ?fs 0 ?s6 ?s7"
    unfolding se7 .
  have sr7: "steps ?fs ?s0 ?s7" by (rule steps.further[OF sr6 st7])
  have se8: "move 0 (Read_dir 0 ''R'' [''..''] 0) (?s7) = ?s8"
    by (simp add: step_defs)
  have "step ?fs 0 ?s7 (move 0 (Read_dir 0 ''R'' [''..''] 0) (?s7))"
    by (rule step.read_skip[where i = 0 and path = "''R''" and name = "''.''" and names = "[''..'']" and sm = 0]) (simp_all add: step_defs)
  then have st8: "step ?fs 0 ?s7 ?s8"
    unfolding se8 .
  have sr8: "steps ?fs ?s0 ?s8" by (rule steps.further[OF sr7 st8])
  have se9: "move 0 (Read_dir 0 ''R'' [] 0) (?s8) = ?s9"
    by (simp add: step_defs)
  have "step ?fs 0 ?s8 (move 0 (Read_dir 0 ''R'' [] 0) (?s8))"
    by (rule step.read_skip[where i = 0 and path = "''R''" and name = "''..''" and names = "[]" and sm = 0]) (simp_all add: step_defs)
  then have st9: "step ?fs 0 ?s8 ?s9"
    unfolding se9 .
  have sr9: "steps ?fs ?s0 ?s9" by (rule steps.further[OF sr8 st9])
  have se10: "move 0 (Finish 0) (put 0 (update_total_sum 0 (coords ?s9 ! 0)) ?s9) = ?s10"
    by (simp add: step_defs)
  have "step ?fs 0 ?s9 (move 0 (Finish 0) (put 0 (update_total_sum 0 (coords ?s9 ! 0)) ?s9))"
    by (rule step.read_end[where i = 0 and path = "''R''" and sm = 0]) (simp_all add: step_defs)
  then have st10: "step ?fs 0 ?s9 ?s10"
    unfolding se10 .
  have sr10: "steps ?fs ?s0 ?s10" by (rule steps.further[OF sr9 st10])
  have se11: "move 0 (Seek) (put 0 ((coords ?s10 ! 0)\<lparr>active_threads := decrement_counter (active_threads (coords ?s10 ! 0))\<rparr>) ?s10) = ?s11"
    by (simp add: step_defs)
  have "step ?fs 0 ?s10 (move 0 (Seek) (put 0 ((coords ?s10 ! 0)\<lparr>active_threads := decrement_counter (active_threads (coords ?s10 ! 0))\<rparr>) ?s10))"
    by (rule step.finish[where i = 0]) (simp_all add: step_defs)
  then have st11: "step ?fs 0 ?s10 ?s11"
    unfolding se11 .
  have sr11: "steps ?fs ?s0 ?s11" by (rule steps.further[OF sr10 st11])
  have se12: "(move 0 (Active 0) (?s11))\<lparr>mutex_work := Some 0\<rparr> = ?s12"
    by (simp add: step_defs)
  have "step ?fs 0 ?s11 ((move 0 (Active 0) (?s11))\<lparr>mutex_work := Some 0\<rparr>)"
    by (rule step.lock) (simp_all add: step_defs)
  then have st12: "step ?fs 0 ?s11 ?s12"
    unfolding se12 .
  have sr12: "steps ?fs ?s0 ?s12" by (rule steps.further[OF sr11 st12])
  have se13: "move 0 (Active_queue 0) (?s12) = ?s13"
    by (simp add: step_defs)
  have "step ?fs 0 ?s12 (move 0 (Active_queue 0) (?s12))"
    by (rule step.active_no_counter[where i = 0]) (simp_all add: step_defs)
  then have st13: "step ?fs 0 ?s12 ?s13"
    unfolding se13 .
  have sr13: "steps ?fs ?s0 ?s13" by (rule steps.further[OF sr12 st13])
  have se14: "move 0 (Active (Suc 0)) ?s13 = ?s14"
    by (simp add: step_defs)
  have "step ?fs 0 ?s13 (move 0 (Active (Suc 0)) ?s13)"
    by (rule step.active_next[where i = 0]) (simp_all add: step_defs)
  then have st14: "step ?fs 0 ?s13 ?s14"
    unfolding se14 .
  have sr14: "steps ?fs ?s0 ?s14" by (rule steps.further[OF sr13 st14])
  have se15: "(move 0 (Exiting) (?s14))\<lparr>mutex_work := None\<rparr> = ?s15"
    by (simp add: step_defs)
  have "step ?fs 0 ?s14 ((move 0 (Exiting) (?s14))\<lparr>mutex_work := None\<rparr>)"
    by (rule step.active_none[where i = 1]) (simp_all add: step_defs)
  then have st15: "step ?fs 0 ?s14 ?s15"
    unfolding se15 .
  have sr15: "steps ?fs ?s0 ?s15" by (rule steps.further[OF sr14 st15])
  have se16: "move 0 (Exited (if errno (workers ?s15 ! 0) \<noteq> 0 then 1 else 0)) ?s15 = ?s16"
    by (simp add: step_defs)
  have "step ?fs 0 ?s15 (move 0 (Exited (if errno (workers ?s15 ! 0) \<noteq> 0 then 1 else 0)) ?s15)"
    by (rule step.return) (simp_all add: step_defs)
  then have st16: "step ?fs 0 ?s15 ?s16"
    unfolding se16 .
  have sr16: "steps ?fs ?s0 ?s16" by (rule steps.further[OF sr15 st16])
  have c: "create_thread_context 100 = Inr (\<lparr>coordinator = [None, None], dir_num = 0, size_tc = 2\<rparr>, 98)"
    by (simp add: create_thread_context_def safe_malloc_def safe_calloc_def)
  have p1: "process_argument ?fs 1 1 ''R'' (\<lparr>coordinator = [None, None], dir_num = 0, size_tc = 2\<rparr>, 98) = Inr (?tc, 93)"
    by (simp add: seed_step_defs)
  have p2: "process_argument ?fs 1 2 ''a'' (?tc, 93) = Inr (?tc, 93)"
    by (simp add: process_argument_def safe_lstat_def is_flag_arg_def is_dictionary_def
        S_IFMT_def S_IFDIR_def)
  have t: "traverse_input_arguments ?fs 1 ?argv (\<lparr>coordinator = [None, None], dir_num = 0, size_tc = 2\<rparr>, 98) = Inr (?tc, 93)"
    by (simp add: traverse_input_arguments_def p1 p2)
  have n1: "nat 1 = Suc 0" by simp
  have lc: "live_coordinators ?tc = Some ?cs"
    by (simp add: live_coordinators_def n1)
  have k: "spawned_threads (get_thread_amount []) = 0"
    by (simp add: spawned_threads_def)
  have i: "initial ?cs (spawned_threads (get_thread_amount [])) = ?s0"
    unfolding k by (simp add: initial_def)
  have r: "steps ?fs (initial ?cs (spawned_threads (get_thread_amount []))) ?s16"
    unfolding i by (rule sr16)
  have f: "finished ?s16"
    by (simp add: finished_def)
  have a2: "2 \<le> length ?argv" by simp
  have g0: "0 \<le> get_thread_amount []" by simp
  have pa: "path_arguments 1 ?argv = [''R'', ''a'']"
    by (simp add: path_arguments_def is_flag_arg_def)
  have p: "print_results ?fs' 1 ?argv (coords ?s16) 0 = (?out, Some Exit_failure)"
    by (simp add: print_results_def is_flag_arg_def safe_lstat_def is_dictionary_def S_IFMT_def
        S_IFDIR_def result_line_def show_int_8)
  from main_run.print_failed[OF a2 g0 c t lc r f p]
  have m: "main_run ?fs ?fs' [] 1 ?argv 100 (?out, Some EXIT_FAILURE)"
    by simp
  have l: "lstat ?fs' ''a'' = None" by simp
  from m pa l show ?thesis by (intro conjI)
qed

end
